(* ===== verification/Prelude.thy ===== *)
theory Prelude
  imports
    Main
    "HOL-Library.AList"
    "HOL-Library.Monad_Syntax"
    "HOL-Library.State_Monad"
    "HOL-Library.Sublist"
begin

text \<open>
  Shared vocabulary of the development: the collections its automation uses, lemmas on lists,
  options and association lists that several components share, and a small
  weakest-precondition calculus for code that threads a state through many calls.

  Go strings are byte strings, so they are \<^typ>\<open>string\<close> (a list of 8-bit characters). A Go
  map that the code ranges over is an association list with distinct keys whose order stands
  for the unspecified iteration order; a Go map that is only looked up is a HOL map.
\<close>

named_theorems wp_simps \<open>weakest preconditions of the state monad and of external calls\<close>
named_theorems path_simps \<open>evaluation of path and string helpers on symbolic input\<close>

section \<open>Errors of the operating system\<close>

text \<open>
  The errors the driver tells apart: \<open>os.IsNotExist\<close> is \<open>ENOENT\<close>, \<open>os.IsExist\<close> is
  \<open>EEXIST\<close>; \<open>ENOTEMPTY\<close>, \<open>EINVAL\<close> and \<open>ENOTCONN\<close> occur in mount handling; every
  other error carries its text.
\<close>

datatype oserr = ENOENT | EEXIST | ENOTEMPTY | EINVAL | ENOTCONN | OtherErr string

section \<open>Lists and options\<close>

lemma set_takeWhile_subset: "x \<in> set (takeWhile P xs) \<Longrightarrow> x \<in> set xs \<and> P x"
  by (induction xs) (auto split: if_splits)

lemma set_dropWhile_subset: "x \<in> set (dropWhile P xs) \<Longrightarrow> x \<in> set xs"
  by (induction xs) (auto split: if_splits)

lemma dropWhile_hd_not: "dropWhile P xs = y # ys \<Longrightarrow> \<not> P y"
  by (induction xs) (auto split: if_splits)

lemma dropWhile_idI: "(xs \<noteq> [] \<Longrightarrow> \<not> P (hd xs)) \<Longrightarrow> dropWhile P xs = xs"
  by (cases xs) auto

lemma concat_map_sing [simp]: "concat (map (\<lambda>x. [x]) xs) = xs"
  by (induction xs) auto

lemma last_filter_append:
  "filter P ys \<noteq> [] \<Longrightarrow> last (filter P (xs @ ys)) = last (filter P ys)"
  by simp

section \<open>Association lists as Go maps\<close>

text \<open>
  \<open>delete_key\<close> is Go's builtin \<open>delete\<close>, \<open>put_key\<close> is \<open>m[k] = v\<close>; both keep the keys
  distinct.
\<close>

type_synonym ('k, 'v) gomap = "('k \<times> 'v) list"

abbreviation put_key :: "'k \<Rightarrow> 'v \<Rightarrow> ('k, 'v) gomap \<Rightarrow> ('k, 'v) gomap" where
  "put_key \<equiv> AList.update"

abbreviation delete_key :: "'k \<Rightarrow> ('k, 'v) gomap \<Rightarrow> ('k, 'v) gomap" where
  "delete_key \<equiv> AList.delete"

definition keys_ok :: "('k, 'v) gomap \<Rightarrow> bool" where
  "keys_ok m = distinct (map fst m)"

lemma keys_ok_Nil [simp]: "keys_ok []"
  by (simp add: keys_ok_def)

lemma keys_ok_put [simp]: "keys_ok m \<Longrightarrow> keys_ok (put_key k v m)"
  by (simp add: keys_ok_def distinct_update)

lemma keys_ok_delete [simp]: "keys_ok m \<Longrightarrow> keys_ok (delete_key k m)"
  by (simp add: keys_ok_def distinct_delete)

lemma map_of_put [simp]: "map_of (put_key k v m) = (map_of m)(k \<mapsto> v)"
  by (simp add: update_conv')

lemma map_of_delete_key [simp]: "map_of (delete_key k m) = (map_of m)(k := None)"
  by (simp add: AList.delete_conv')

lemma mem_delete_key: "(a, b) \<in> set (delete_key k m) \<longleftrightarrow> (a, b) \<in> set m \<and> a \<noteq> k"
  by (auto simp: AList.delete_eq)

lemma keys_ok_mem_iff: "keys_ok m \<Longrightarrow> (k, v) \<in> set m \<longleftrightarrow> map_of m k = Some v"
  by (simp add: keys_ok_def)

section \<open>Weakest preconditions for the state monad\<close>

text \<open>
  \<open>wp m Q s\<close>: running \<open>m\<close> from \<open>s\<close> ends in a result and a state that satisfy \<open>Q\<close>. The
  simplifier computes it through binds, conditionals and case distinctions.
\<close>

definition wp :: "('s, 'a) state \<Rightarrow> ('a \<Rightarrow> 's \<Rightarrow> bool) \<Rightarrow> 's \<Rightarrow> bool" where
  "wp m Q s = (case run_state m s of (r, s') \<Rightarrow> Q r s')"

lemma wp_return [wp_simps]: "wp (State_Monad.return x) Q s = Q x s"
  by (simp add: wp_def State_Monad.return_def)

lemma wp_bind [wp_simps]: "wp (State_Monad.bind m f) Q s = wp m (\<lambda>r. wp (f r) Q) s"
  by (simp add: wp_def State_Monad.bind_def split: prod.splits)

lemma wp_get [wp_simps]: "wp State_Monad.get Q s = Q s s"
  by (simp add: wp_def State_Monad.get_def)

lemma wp_set [wp_simps]: "wp (State_Monad.set t) Q s = Q () t"
  by (simp add: wp_def State_Monad.set_def)

lemma wp_update [wp_simps]: "wp (State_Monad.update f) Q s = Q () (f s)"
  by (simp add: State_Monad.update_def wp_simps)

lemma wp_if [wp_simps]:
  "wp (if b then m else n) Q s = (if b then wp m Q s else wp n Q s)"
  by simp

lemma wp_case_option [wp_simps]:
  "wp (case x of None \<Rightarrow> m | Some y \<Rightarrow> n y) Q s
     = (case x of None \<Rightarrow> wp m Q s | Some y \<Rightarrow> wp (n y) Q s)"
  by (cases x) auto

lemma wp_case_sum [wp_simps]:
  "wp (case x of Inl e \<Rightarrow> m e | Inr y \<Rightarrow> n y) Q s
     = (case x of Inl e \<Rightarrow> wp (m e) Q s | Inr y \<Rightarrow> wp (n y) Q s)"
  by (cases x) auto

lemma wp_case_prod [wp_simps]:
  "wp (case x of (a, b) \<Rightarrow> m a b) Q s = (case x of (a, b) \<Rightarrow> wp (m a b) Q s)"
  by (cases x) auto

lemma wp_mono: "wp m Q s \<Longrightarrow> (\<And>r s'. Q r s' \<Longrightarrow> R r s') \<Longrightarrow> wp m R s"
  by (auto simp: wp_def split: prod.splits)

lemma wp_run: "wp m Q s \<Longrightarrow> run_state m s = (r, s') \<Longrightarrow> Q r s'"
  by (simp add: wp_def)

lemma wp_conj: "wp m (\<lambda>r s'. Q r s' \<and> R r s') s \<longleftrightarrow> wp m Q s \<and> wp m R s"
  by (auto simp: wp_def split: prod.splits)

lemma wp_TrueI [simp]: "wp m (\<lambda>r s'. True) s"
  by (simp add: wp_def split: prod.splits)

end
