(* ===== verification/Go_Strings.thy ===== *)
theory Go_Strings
  imports Prelude "HOL-Library.Word"
begin

text \<open>
  What the driver uses of Go's \<open>strings\<close>, \<open>unicode/utf8\<close>, \<open>strconv\<close> and \<open>bufio\<close>
  packages, on byte strings. Functions that work on runes decode UTF-8 exactly as
  \<open>utf8.DecodeRune\<close> does: an invalid byte is the replacement rune of width one.
  \<open>strings.ToLower\<close> is modelled on ASCII letters; bytes outside ASCII are left alone (the
  driver applies it to cgroup paths and pod UIDs only).
\<close>

section \<open>Searching and splitting\<close>

abbreviation HasPrefix :: "string \<Rightarrow> string \<Rightarrow> bool" where
  "HasPrefix s p \<equiv> prefix p s"

text \<open>\<open>strings.Index\<close>: the first occurrence, \<open>None\<close> where Go returns -1.\<close>

fun Index :: "string \<Rightarrow> string \<Rightarrow> nat option" where
  "Index [] p = (if p = [] then Some 0 else None)"
| "Index (c # s) p = (if prefix p (c # s) then Some 0 else map_option Suc (Index s p))"

definition Contains :: "string \<Rightarrow> string \<Rightarrow> bool" where
  "Contains s p = (Index s p \<noteq> None)"

fun IndexByte :: "string \<Rightarrow> char \<Rightarrow> nat option" where
  "IndexByte [] b = None"
| "IndexByte (c # s) b = (if c = b then Some 0 else map_option Suc (IndexByte s b))"

definition CutPrefix :: "string \<Rightarrow> string \<Rightarrow> string option" where
  "CutPrefix s p = (if prefix p s then Some (drop (length p) s) else None)"

text \<open>\<open>strings.Split\<close> at a one-byte separator.\<close>

fun Split :: "string \<Rightarrow> char \<Rightarrow> string list" where
  "Split [] b = [[]]"
| "Split (c # s) b =
     (if c = b then [] # Split s b
      else case Split s b of [] \<Rightarrow> [[c]] | w # ws \<Rightarrow> (c # w) # ws)"

text \<open>\<open>strings.SplitN(s, sep, 2)\<close> at a one-byte separator.\<close>

definition SplitN2 :: "string \<Rightarrow> char \<Rightarrow> string list" where
  "SplitN2 s b = (case IndexByte s b of None \<Rightarrow> [s] | Some i \<Rightarrow> [take i s, drop (Suc i) s])"

fun Join :: "string list \<Rightarrow> string \<Rightarrow> string" where
  "Join [] sep = []"
| "Join [w] sep = w"
| "Join (w # ws) sep = w @ sep @ Join ws sep"

text \<open>\<open>strings.ReplaceAll\<close> of a one-byte pattern.\<close>

definition ReplaceAll :: "string \<Rightarrow> char \<Rightarrow> string \<Rightarrow> string" where
  "ReplaceAll s old new = concat (map (\<lambda>c. if c = old then new else [c]) s)"

text \<open>\<open>strings.Trim\<close> with a one-byte cutset.\<close>

definition Trim :: "string \<Rightarrow> char \<Rightarrow> string" where
  "Trim s b = rev (dropWhile (\<lambda>c. c = b) (rev (dropWhile (\<lambda>c. c = b) s)))"

definition toLowerByte :: "char \<Rightarrow> char" where
  "toLowerByte c =
     (if 65 \<le> (of_char c :: nat) \<and> (of_char c :: nat) \<le> 90 then char_of ((of_char c :: nat) + 32) else c)"

definition ToLower :: "string \<Rightarrow> string" where
  "ToLower s = map toLowerByte s"

section \<open>Runes\<close>

definition RuneError :: nat where
  "RuneError = 0xFFFD"

text \<open>The accepted range of the second byte of a multi-byte sequence, by its first byte.\<close>

definition acceptLow :: "nat \<Rightarrow> nat" where
  "acceptLow b0 = (if b0 = 0xE0 then 0xA0 else if b0 = 0xF0 then 0x90 else 0x80)"

definition acceptHigh :: "nat \<Rightarrow> nat" where
  "acceptHigh b0 = (if b0 = 0xED then 0x9F else if b0 = 0xF4 then 0x8F else 0xBF)"

definition isCont :: "nat \<Rightarrow> bool" where
  "isCont b = (0x80 \<le> b \<and> b \<le> 0xBF)"

text \<open>\<open>utf8.DecodeRuneInString\<close>: the rune at the front and its width.\<close>

definition DecodeRune :: "string \<Rightarrow> nat \<times> nat" where
  "DecodeRune s =
     (case map of_char (take 4 s) :: nat list of
        [] \<Rightarrow> (RuneError, 0)
      | b0 # bs \<Rightarrow>
         if b0 < 0x80 then (b0, 1)
         else if b0 < 0xC2 \<or> 0xF4 < b0 then (RuneError, 1)
         else (case bs of
             [] \<Rightarrow> (RuneError, 1)
           | b1 # bs1 \<Rightarrow>
              if b1 < acceptLow b0 \<or> acceptHigh b0 < b1 then (RuneError, 1)
              else if b0 < 0xE0 then ((b0 - 0xC0) * 64 + (b1 - 0x80), 2)
              else (case bs1 of
                  [] \<Rightarrow> (RuneError, 1)
                | b2 # bs2 \<Rightarrow>
                   if \<not> isCont b2 then (RuneError, 1)
                   else if b0 < 0xF0 then
                     ((b0 - 0xE0) * 4096 + (b1 - 0x80) * 64 + (b2 - 0x80), 3)
                   else (case bs2 of
                       [] \<Rightarrow> (RuneError, 1)
                     | b3 # _ \<Rightarrow>
                        if \<not> isCont b3 then (RuneError, 1)
                        else ((b0 - 0xF0) * 262144 + (b1 - 0x80) * 4096 + (b2 - 0x80) * 64
                                + (b3 - 0x80), 4)))))"

lemma DecodeRune_width_pos: "DecodeRune (c # s) = (r, n) \<Longrightarrow> 0 < n"
  by (auto simp: DecodeRune_def split: list.splits if_splits)

text \<open>\<open>for _, r := range s\<close>: each rune with the bytes it was decoded from.\<close>

function runes :: "string \<Rightarrow> (nat \<times> string) list" where
  "runes [] = []"
| "runes (c # s) =
     (let (r, n) = DecodeRune (c # s) in (r, take n (c # s)) # runes (drop n (c # s)))"
  by pat_completeness auto
termination
  by (relation "measure length") (auto dest: DecodeRune_width_pos [OF sym])

definition ascii :: "string \<Rightarrow> bool" where
  "ascii s = list_all (\<lambda>c. (of_char c :: nat) < 0x80) s"

lemma DecodeRune_ascii: "(of_char c :: nat) < 0x80 \<Longrightarrow> DecodeRune (c # s) = (of_char c, 1)"
  by (simp add: DecodeRune_def)

lemma runes_ascii: "ascii s \<Longrightarrow> runes s = map (\<lambda>c. (of_char c, [c])) s"
  by (induction s) (simp_all add: ascii_def DecodeRune_ascii)

lemma ascii_simps [simp]:
  "ascii []"
  "ascii (c # s) \<longleftrightarrow> (of_char c :: nat) < 0x80 \<and> ascii s"
  "ascii (s @ t) \<longleftrightarrow> ascii s \<and> ascii t"
  by (simp_all add: ascii_def)

text \<open>\<open>unicode.IsSpace\<close>.\<close>

definition IsSpace :: "nat \<Rightarrow> bool" where
  "IsSpace r \<longleftrightarrow>
     (9 \<le> r \<and> r \<le> 13) \<or> r = 32 \<or> r = 0x85 \<or> r = 0xA0 \<or> r = 0x1680
     \<or> (0x2000 \<le> r \<and> r \<le> 0x200A) \<or> r = 0x2028 \<or> r = 0x2029 \<or> r = 0x202F
     \<or> r = 0x205F \<or> r = 0x3000"

definition TrimFunc :: "(nat \<Rightarrow> bool) \<Rightarrow> string \<Rightarrow> string" where
  "TrimFunc f s =
     concat (map snd (rev (dropWhile (f \<circ> fst) (rev (dropWhile (f \<circ> fst) (runes s))))))"

definition TrimSpace :: "string \<Rightarrow> string" where
  "TrimSpace s = TrimFunc IsSpace s"

text \<open>\<open>strings.Fields\<close>: maximal runs of runes that are not white space.\<close>

fun fieldsFrom :: "string \<Rightarrow> (nat \<times> string) list \<Rightarrow> string list" where
  "fieldsFrom acc [] = (if acc = [] then [] else [acc])"
| "fieldsFrom acc ((r, b) # rs) =
     (if IsSpace r then (if acc = [] then fieldsFrom [] rs else acc # fieldsFrom [] rs)
      else fieldsFrom (acc @ b) rs)"

definition Fields :: "string \<Rightarrow> string list" where
  "Fields s = fieldsFrom [] (runes s)"

section \<open>Numbers\<close>

definition isDigit :: "char \<Rightarrow> bool" where
  "isDigit c = (48 \<le> (of_char c :: nat) \<and> (of_char c :: nat) \<le> 57)"

fun decDigits :: "nat \<Rightarrow> string \<Rightarrow> nat option" where
  "decDigits n [] = Some n"
| "decDigits n (c # s) =
     (if isDigit c then decDigits (10 * n + ((of_char c :: nat) - 48)) s else None)"

text \<open>
  \<open>strconv.Atoi\<close> and \<open>strconv.ParseInt(s, 10, 64)\<close> on a 64-bit platform: an optional sign,
  at least one digit, a value in the range of \<open>int64\<close>. \<open>None\<close> is the error.
\<close>

definition Atoi :: "string \<Rightarrow> int option" where
  "Atoi s =
     (case s of
        [] \<Rightarrow> None
      | c # cs \<Rightarrow>
         (let neg = (c = CHR ''-''); ds = (if c = CHR ''-'' \<or> c = CHR ''+'' then cs else s) in
          if ds = [] then None
          else case decDigits 0 ds of
              None \<Rightarrow> None
            | Some n \<Rightarrow>
               (let v = (if neg then - int n else int n) in
                if - (2 ^ 63) \<le> v \<and> v < 2 ^ 63 then Some v else None)))"

fun decString :: "nat \<Rightarrow> string" where
  "decString n =
     (if n < 10 then [char_of (48 + n)] else decString (n div 10) @ [char_of (48 + n mod 10)])"

declare decString.simps [simp del]

text \<open>\<open>strconv.Itoa\<close>, also \<open>fmt.Sprintf("%d", n)\<close>.\<close>

definition Itoa :: "int \<Rightarrow> string" where
  "Itoa i = (if i < 0 then CHR ''-'' # decString (nat (- i)) else decString (nat i))"

section \<open>Scanning lines\<close>

text \<open>
  \<open>bufio.Scanner\<close> with \<open>ScanLines\<close>: the lines of the input without their end-of-line
  marker, up to the first line that does not fit the buffer. \<open>readErr\<close> says that the reader
  failed (rather than ended) after \<open>input\<close>. The second component is \<open>Err() != nil\<close>.
\<close>

definition dropCR :: "string \<Rightarrow> string" where
  "dropCR l = (if l \<noteq> [] \<and> last l = CHR 0x0D then butlast l else l)"

fun rawLines :: "string \<Rightarrow> string \<Rightarrow> string list" where
  "rawLines acc [] = (if acc = [] then [] else [acc])"
| "rawLines acc (c # s) =
     (if c = CHR 0x0A then acc # rawLines [] s else rawLines (acc @ [c]) s)"

definition scanLines :: "nat \<Rightarrow> string \<Rightarrow> bool \<Rightarrow> string list \<times> bool" where
  "scanLines maxTok input readErr =
     (let ls = rawLines [] input; fit = takeWhile (\<lambda>l. length l < maxTok) ls in
      (map dropCR fit, readErr \<or> length fit < length ls))"

section \<open>Facts about searching and splitting\<close>

lemma char_of_eqI: "(of_char c :: nat) = n mod 256 \<Longrightarrow> char_of n = c"
  by (metis char_of_mod_256 char_of_char)

lemma Contains_iff_sublist: "Contains s p \<longleftrightarrow> sublist p s"
  by (induction s) (auto simp: Contains_def sublist_Cons_right)

lemma ContainsI [intro]: "Contains (a @ p @ b) p"
  by (simp add: Contains_iff_sublist)

lemma Index_prefix: "Index s p = Some i \<Longrightarrow> i \<le> length s \<and> prefix p (drop i s)"
  by (induction s p arbitrary: i rule: Index.induct) (auto split: if_splits)

lemma IndexByte_None_iff [simp]: "IndexByte s b = None \<longleftrightarrow> b \<notin> set s"
  by (induction s) auto

lemma IndexByte_append [simp]: "b \<notin> set s \<Longrightarrow> IndexByte (s @ b # t) b = Some (length s)"
  by (induction s) auto

lemma IndexByte_SomeD:
  "IndexByte s b = Some i \<Longrightarrow> i < length s \<and> s ! i = b \<and> b \<notin> set (take i s)"
  by (induction s arbitrary: i) (auto split: if_splits)

lemma CutPrefix_append [simp]: "CutPrefix (p @ s) p = Some s"
  by (simp add: CutPrefix_def)

lemma Split_nonempty [simp]: "Split s b \<noteq> []"
  by (induction s) (auto split: list.splits)

lemma Split_no_sep: "w \<in> set (Split s b) \<Longrightarrow> b \<notin> set w"
  by (induction s arbitrary: w) (auto split: list.splits if_splits)

lemma Join_Cons: "ws \<noteq> [] \<Longrightarrow> Join (w # ws) sep = w @ sep @ Join ws sep"
  by (cases ws) auto

lemma Join_Split: "Join (Split s b) [b] = s"
proof (induction s)
  case (Cons c s)
  obtain w ws where "Split s b = w # ws"
    by (meson Split_nonempty neq_Nil_conv)
  with Cons show ?case by (cases ws) auto
qed simp

lemma Split_word: "b \<notin> set w \<Longrightarrow> Split w b = [w]"
  by (induction w) auto

lemma Split_append: "b \<notin> set w \<Longrightarrow> Split (w @ b # s) b = w # Split s b"
  by (induction w) auto

lemma Split_Join:
  "ws \<noteq> [] \<Longrightarrow> (\<And>w. w \<in> set ws \<Longrightarrow> b \<notin> set w) \<Longrightarrow> Split (Join ws [b]) b = ws"
proof (induction ws)
  case (Cons w ws)
  then show ?case by (cases "ws = []") (auto simp: Join_Cons Split_append Split_word)
qed simp

lemma Split_inj: "Split s b = Split t b \<Longrightarrow> s = t"
  by (metis Join_Split)

lemma SplitN2_append: "b \<notin> set s \<Longrightarrow> SplitN2 (s @ b # t) b = [s, t]"
  by (simp add: SplitN2_def)

lemma set_Join: "set (Join ws sep) \<subseteq> \<Union> (set ` set ws) \<union> set sep"
  by (induction ws sep rule: Join.induct) auto

lemma Join_split: "w \<in> set ws \<Longrightarrow> \<exists>a b. Join ws sep = a @ w @ b"
proof (induction ws)
  case (Cons v ws)
  show ?case
  proof (cases "w = v")
    case True
    then show ?thesis by (metis Join.simps(2) Join_Cons append_Nil append_Nil2)
  next
    case False
    with Cons have mem: "w \<in> set ws" by simp
    with Cons.IH obtain a b where "Join ws sep = a @ w @ b" by blast
    moreover from mem have "ws \<noteq> []" by auto
    ultimately have "Join (v # ws) sep = (v @ sep @ a) @ w @ b" by (simp add: Join_Cons)
    then show ?thesis by blast
  qed
qed simp

lemma ReplaceAll_append [simp]: "ReplaceAll (s @ t) old new = ReplaceAll s old new @ ReplaceAll t old new"
  by (simp add: ReplaceAll_def)

lemma ReplaceAll_Nil [simp]: "ReplaceAll [] old new = []"
  by (simp add: ReplaceAll_def)

lemma ReplaceAll_notin [simp]: "old \<notin> set s \<Longrightarrow> ReplaceAll s old new = s"
  by (induction s) (auto simp: ReplaceAll_def)

lemma ReplaceAll_empty_filter: "ReplaceAll s old [] = filter (\<lambda>c. c \<noteq> old) s"
  by (induction s) (auto simp: ReplaceAll_def)

lemma ToLower_append [simp]: "ToLower (s @ t) = ToLower s @ ToLower t"
  by (simp add: ToLower_def)

section \<open>Fields and lines\<close>

text \<open>A word that \<open>strings.Fields\<close> keeps in one piece: ASCII, not empty, no white space.\<close>

definition graphic :: "char \<Rightarrow> bool" where
  "graphic c = (32 < (of_char c :: nat) \<and> (of_char c :: nat) < 127)"

definition is_field :: "string \<Rightarrow> bool" where
  "is_field w = (w \<noteq> [] \<and> list_all graphic w)"

lemma graphic_not_space: "graphic c \<Longrightarrow> \<not> IsSpace (of_char c)"
  by (auto simp: graphic_def IsSpace_def)

lemma is_field_ascii: "is_field w \<Longrightarrow> ascii w"
  by (auto simp: is_field_def graphic_def ascii_def list_all_iff)

lemma fieldsFrom_word:
  "list_all graphic w \<Longrightarrow>
     fieldsFrom acc (map (\<lambda>c. (of_char c, [c])) w @ rs) = fieldsFrom (acc @ w) rs"
  by (induction w arbitrary: acc) (auto simp: graphic_not_space)

lemma ascii_Join:
  "(\<And>w. w \<in> set ws \<Longrightarrow> ascii w) \<Longrightarrow> ascii sep \<Longrightarrow> ascii (Join ws sep)"
  using set_Join [of ws sep] by (fastforce simp: ascii_def list_all_iff)

lemma Fields_Join:
  assumes "list_all is_field ws"
  shows "Fields (Join ws '' '') = ws"
proof -
  have space: "IsSpace 32" by (simp add: IsSpace_def)
  have "fieldsFrom [] (map (\<lambda>c. (of_char c, [c])) (Join ws '' '')) = ws"
    using assms
  proof (induction ws)
    case (Cons w ws)
    then have w: "list_all graphic w" "w \<noteq> []" by (simp_all add: is_field_def)
    show ?case
    proof (cases "ws = []")
      case True
      with w fieldsFrom_word [of w "[]" "[]"] show ?thesis by simp
    next
      case False
      with w Cons fieldsFrom_word [of w "[]"] space show ?thesis by (simp add: Join_Cons)
    qed
  qed simp
  moreover have "ascii (Join ws '' '')"
    using assms by (intro ascii_Join) (auto simp: list_all_iff is_field_ascii)
  ultimately show ?thesis by (simp add: Fields_def runes_ascii)
qed

lemma rawLines_line:
  "CHR 0x0A \<notin> set l \<Longrightarrow> rawLines acc (l @ CHR 0x0A # s) = (acc @ l) # rawLines [] s"
  by (induction l arbitrary: acc) auto

lemma rawLines_concat:
  "list_all (\<lambda>l. CHR 0x0A \<notin> set l) ls \<Longrightarrow>
     rawLines [] (concat (map (\<lambda>l. l @ [CHR 0x0A]) ls)) = ls"
  by (induction ls) (auto simp: rawLines_line)

lemma scanLines_concat:
  assumes "list_all (\<lambda>l. CHR 0x0A \<notin> set l \<and> CHR 0x0D \<notin> set l \<and> length l < maxTok) ls"
  shows "scanLines maxTok (concat (map (\<lambda>l. l @ [CHR 0x0A]) ls)) False = (ls, False)"
proof -
  have raw: "rawLines [] (concat (map (\<lambda>l. l @ [CHR 0x0A]) ls)) = ls"
    using assms by (intro rawLines_concat) (auto simp: list_all_iff)
  have fit: "takeWhile (\<lambda>l. length l < maxTok) ls = ls"
    using assms by (auto simp: list_all_iff)
  have "map dropCR ls = ls"
    using assms by (intro map_idI) (auto simp: list_all_iff dropCR_def in_set_conv_decomp
        dest!: last_in_set)
  with raw show ?thesis unfolding scanLines_def Let_def raw fit by simp
qed

section \<open>Decimal round trip\<close>

lemma of_char_digit [simp]: "(d :: nat) < 10 \<Longrightarrow> (of_char (char_of (48 + d) :: char) :: nat) = 48 + d"
  by (simp add: of_char_of)

lemma isDigit_char_of: "(d :: nat) < 10 \<Longrightarrow> isDigit (char_of (48 + d))"
  by (simp add: isDigit_def)

lemma decDigits_append:
  "decDigits n (s @ t) = (case decDigits n s of None \<Rightarrow> None | Some m \<Rightarrow> decDigits m t)"
  by (induction s arbitrary: n) auto

lemma decDigits_decString: "decDigits 0 (decString n) = Some n"
proof (induction n rule: decString.induct)
  case (1 n)
  show ?case
  proof (cases "n < 10")
    case True
    then show ?thesis by (simp add: decString.simps [of n] isDigit_char_of)
  next
    case False
    with 1 show ?thesis
      by (simp add: decString.simps [of n] decDigits_append isDigit_char_of)
  qed
qed

lemma decString_digits: "c \<in> set (decString n) \<Longrightarrow> isDigit c"
proof (induction n rule: decString.induct)
  case (1 n)
  then show ?case
    by (cases "n < 10") (auto simp: decString.simps [of n] isDigit_char_of)
qed

lemma decString_nonempty [simp]: "decString n \<noteq> []"
  by (subst decString.simps) simp

lemma Atoi_Itoa:
  assumes "- (2 ^ 63) \<le> i" "i < 2 ^ 63"
  shows "Atoi (Itoa i) = Some i"
proof (cases "i < 0")
  case True
  with assms show ?thesis by (simp add: Atoi_def Itoa_def decDigits_decString)
next
  case False
  obtain c cs where cs: "decString (nat i) = c # cs"
    by (meson decString_nonempty neq_Nil_conv)
  then have "isDigit c" using decString_digits [of c "nat i"] by simp
  then have "c \<noteq> CHR ''-''" "c \<noteq> CHR ''+''" by (auto simp: isDigit_def)
  with False assms cs decDigits_decString [of "nat i"] show ?thesis
    by (simp add: Atoi_def Itoa_def Let_def)
qed

end
