(* ===== verification/Go_Paths.thy ===== *)
theory Go_Paths
  imports Go_Strings
begin

text \<open>
  What the driver uses of \<open>path/filepath\<close> on Unix and of \<open>net/url\<close>: \<open>Clean\<close>, \<open>Join\<close>,
  \<open>Base\<close>, \<open>Dir\<close> and \<open>PathEscape\<close>. \<open>Clean\<close> is computed on the components of the path,
  which gives the same string as Go's in-place rewriting.
\<close>

section \<open>Lexical paths\<close>

abbreviation slash :: char where
  "slash \<equiv> CHR ''/''"

definition rooted :: "string \<Rightarrow> bool" where
  "rooted p = (p \<noteq> [] \<and> hd p = slash)"

text \<open>The stack is reversed; \<open>..\<close> pops it, is dropped at the root and kept at the front of a
  relative path.\<close>

fun cleanComps :: "bool \<Rightarrow> string list \<Rightarrow> string list \<Rightarrow> string list" where
  "cleanComps r st [] = rev st"
| "cleanComps r st (c # cs) =
     (if c = [] \<or> c = ''.'' then cleanComps r st cs
      else if c = ''..'' then
        (case st of
           [] \<Rightarrow> cleanComps r (if r then [] else [''..'']) cs
         | t # ts \<Rightarrow> cleanComps r (if t = ''..'' then c # st else ts) cs)
      else cleanComps r (c # st) cs)"

definition pathComps :: "string \<Rightarrow> string list" where
  "pathComps p = cleanComps (rooted p) [] (Split p slash)"

definition Clean :: "string \<Rightarrow> string" where
  "Clean p =
     (if rooted p then slash # Join (pathComps p) [slash]
      else if pathComps p = [] then ''.'' else Join (pathComps p) [slash])"

text \<open>\<open>filepath.Join\<close>: leading empty elements are ignored.\<close>

definition pathJoin :: "string list \<Rightarrow> string" where
  "pathJoin es =
     (case dropWhile (\<lambda>e. e = []) es of [] \<Rightarrow> [] | es' \<Rightarrow> Clean (Join es' [slash]))"

definition Base :: "string \<Rightarrow> string" where
  "Base p =
     (if p = [] then ''.''
      else let b = rev (takeWhile (\<lambda>c. c \<noteq> slash) (dropWhile (\<lambda>c. c = slash) (rev p)))
           in if b = [] then ''/'' else b)"

definition Dir :: "string \<Rightarrow> string" where
  "Dir p = Clean (rev (dropWhile (\<lambda>c. c \<noteq> slash) (rev p)))"

section \<open>URL path escaping\<close>

text \<open>\<open>url.PathEscape\<close>: \<open>shouldEscape(c, encodePathSegment)\<close> and upper-case hex.\<close>

definition isAlnumByte :: "char \<Rightarrow> bool" where
  "isAlnumByte c =
     (let n = (of_char c :: nat) in
      (97 \<le> n \<and> n \<le> 122) \<or> (65 \<le> n \<and> n \<le> 90) \<or> (48 \<le> n \<and> n \<le> 57))"

definition shouldEscape :: "char \<Rightarrow> bool" where
  "shouldEscape c = (\<not> isAlnumByte c \<and> c \<notin> set ''-_.~$&+:=@'')"

definition upperHex :: "nat \<Rightarrow> char" where
  "upperHex n = (if n < 10 then char_of (48 + n) else char_of (55 + n))"

definition PathEscape :: "string \<Rightarrow> string" where
  "PathEscape s =
     concat (map (\<lambda>c. if shouldEscape c
                       then [CHR 0x25, upperHex (of_char c div 16), upperHex (of_char c mod 16)]
                       else [c]) s)"

definition unhex :: "char \<Rightarrow> nat" where
  "unhex c = (let n = of_char c :: nat in if n < 58 then n - 48 else n - 55)"

fun PathUnescape :: "string \<Rightarrow> string" where
  "PathUnescape (c # a # b # s) =
     (if c = CHR 0x25 then char_of (16 * unhex a + unhex b) # PathUnescape s
      else c # PathUnescape (a # b # s))"
| "PathUnescape s = s"

section \<open>Cleaning composes along components\<close>

definition plain_comp :: "string \<Rightarrow> bool" where
  "plain_comp c = (c \<noteq> [] \<and> c \<noteq> ''.'' \<and> c \<noteq> ''..'' \<and> slash \<notin> set c)"

lemma cleanComps_append:
  "cleanComps r st (xs @ ys) = cleanComps r (rev (cleanComps r st xs)) ys"
  by (induction r st xs rule: cleanComps.induct) (auto split: list.splits)

lemma cleanComps_plain:
  "list_all plain_comp cs \<Longrightarrow> cleanComps r st cs = rev st @ cs"
  by (induction cs arbitrary: st) (auto simp: plain_comp_def)

lemma cleanComps_good:
  "c \<in> set (cleanComps True st cs) \<Longrightarrow> list_all plain_comp st
     \<Longrightarrow> (\<And>d. d \<in> set cs \<Longrightarrow> slash \<notin> set d) \<Longrightarrow> plain_comp c"
proof (induction True st cs rule: cleanComps.induct)
  case (2 st c' cs)
  then show ?case
    by (cases st) (auto simp: plain_comp_def split: if_splits)
qed (auto simp: list_all_iff)

lemma pathComps_plain: "rooted p \<Longrightarrow> list_all plain_comp (pathComps p)"
  unfolding pathComps_def list_all_iff
  by (auto intro: cleanComps_good dest: Split_no_sep)

lemma Split_Cons_slash: "Split (slash # s) slash = [] # Split s slash"
  by simp

lemma Split_rooted_append:
  "Split (p @ slash # q) slash = Split p slash @ Split q slash"
proof (induction p)
  case (Cons c p)
  obtain w ws where "Split p slash = w # ws" by (meson Split_nonempty neq_Nil_conv)
  with Cons show ?case by simp
qed simp

lemma rooted_append: "p \<noteq> [] \<Longrightarrow> rooted (p @ q) = rooted p"
  by (simp add: rooted_def)

lemma pathComps_append:
  assumes "p \<noteq> []" "list_all plain_comp (Split q slash)"
  shows "pathComps (p @ slash # q) = pathComps p @ Split q slash"
  using assms
  by (simp add: pathComps_def rooted_append Split_rooted_append cleanComps_append cleanComps_plain)

lemma pathComps_Clean:
  assumes "rooted p"
  shows "pathComps (Clean p) = pathComps p" "rooted (Clean p)"
proof -
  have plain: "list_all plain_comp (pathComps p)" by (rule pathComps_plain [OF assms])
  show "rooted (Clean p)" using assms by (simp add: Clean_def rooted_def)
  show "pathComps (Clean p) = pathComps p"
  proof (cases "pathComps p = []")
    case True
    with assms show ?thesis by (simp add: Clean_def pathComps_def [of "''/''"] rooted_def)
  next
    case False
    then have "Split (Join (pathComps p) [slash]) slash = pathComps p"
      using plain by (intro Split_Join) (auto simp: list_all_iff plain_comp_def)
    with assms plain show ?thesis
      by (simp add: Clean_def pathComps_def [of "slash # _"] rooted_def cleanComps_plain)
  qed
qed

text \<open>Joining plain components below a rooted base appends exactly these components.\<close>

lemma Split_Join_plain:
  "cs \<noteq> [] \<Longrightarrow> list_all plain_comp cs \<Longrightarrow> Split (Join cs [slash]) slash = cs"
  by (rule Split_Join) (auto simp: list_all_iff plain_comp_def)

lemma pathJoin_comps:
  assumes "rooted b" "cs \<noteq> []" "list_all plain_comp cs"
  shows "pathComps (pathJoin (b # cs)) = pathComps b @ cs" and "rooted (pathJoin (b # cs))"
proof -
  have b: "b \<noteq> []" using assms by (simp add: rooted_def)
  have q: "Join (b # cs) [slash] = b @ slash # Join cs [slash]"
    using assms by (simp add: Join_Cons)
  have root: "rooted (Join (b # cs) [slash])" using b assms(1) by (simp add: q rooted_append)
  have "pathComps (Join (b # cs) [slash]) = pathComps b @ cs"
    using pathComps_append [OF b, of "Join cs [slash]"] Split_Join_plain [OF assms(2,3)] assms(3)
    by (simp add: q)
  moreover have "pathJoin (b # cs) = Clean (Join (b # cs) [slash])"
    using b by (simp add: pathJoin_def)
  ultimately show "pathComps (pathJoin (b # cs)) = pathComps b @ cs" "rooted (pathJoin (b # cs))"
    using pathComps_Clean [OF root] by simp_all
qed

lemma Clean_rooted_eq: "rooted p \<Longrightarrow> Clean p = slash # Join (pathComps p) [slash]"
  by (simp add: Clean_def)

lemma pathJoin_eq:
  assumes "rooted b" "cs \<noteq> []" "list_all plain_comp cs"
  shows "pathJoin (b # cs) = slash # Join (pathComps b @ cs) [slash]"
proof -
  have b: "b \<noteq> []" using assms by (simp add: rooted_def)
  have q: "Join (b # cs) [slash] = b @ slash # Join cs [slash]"
    using assms by (simp add: Join_Cons)
  have "pathComps (Join (b # cs) [slash]) = pathComps b @ cs"
    using pathComps_append [OF b, of "Join cs [slash]"] Split_Join_plain [OF assms(2,3)] assms(3)
    by (simp add: q)
  moreover have "pathJoin (b # cs) = Clean (Join (b # cs) [slash])"
    using b by (simp add: pathJoin_def)
  ultimately show ?thesis using b assms(1) by (simp add: Clean_def q rooted_append)
qed

lemma Base_append:
  assumes "c \<noteq> []" "slash \<notin> set c"
  shows "Base (p @ slash # c) = c"
proof -
  obtain d e where c: "rev c = d # e" using assms(1) by (metis list.exhaust rev_is_Nil_conv)
  with assms(2) have "d \<noteq> slash" by (metis list.set_intros(1) set_rev)
  then have "dropWhile (\<lambda>x. x = slash) (rev (p @ slash # c)) = rev c @ slash # rev p"
    using c by simp
  moreover have "takeWhile (\<lambda>x. x \<noteq> slash) (rev c @ slash # rev p) = rev c"
    using assms(2) by (subst takeWhile_append2) auto
  ultimately show ?thesis using assms(1) by (simp add: Base_def)
qed

section \<open>Escaping is invertible\<close>

lemma upperHex_props:
  assumes "n < 16"
  shows "unhex (upperHex n) = n" "isAlnumByte (upperHex n)" "upperHex n \<noteq> slash"
proof -
  have "list_all (\<lambda>m. unhex (upperHex m) = m \<and> isAlnumByte (upperHex m)) [0..<16]"
    by (simp add: upt_rec unhex_def upperHex_def isAlnumByte_def)
  with assms show "unhex (upperHex n) = n" and alnum: "isAlnumByte (upperHex n)"
    by (simp_all add: list_all_iff)
  have "\<not> isAlnumByte slash" by (simp add: isAlnumByte_def)
  with alnum show "upperHex n \<noteq> slash" by metis
qed

lemma of_char_div_16: "(of_char (c :: char) :: nat) div 16 < 16"
  by (rule less_mult_imp_div_less) simp

lemma not_percent_escape: "\<not> shouldEscape c \<Longrightarrow> c \<noteq> CHR 0x25 \<and> c \<noteq> slash"
  by (auto simp: shouldEscape_def isAlnumByte_def)

lemma PathUnescape_Cons: "c \<noteq> CHR 0x25 \<Longrightarrow> PathUnescape (c # s) = c # PathUnescape s"
  by (cases s rule: PathUnescape.cases) auto

lemma PathUnescape_PathEscape: "PathUnescape (PathEscape s) = s"
proof (induction s)
  case (Cons c s)
  have "char_of (16 * ((of_char c :: nat) div 16) + of_char c mod 16) = c" by simp
  with Cons show ?case
    using not_percent_escape [of c] of_char_div_16 [of c]
    by (cases "shouldEscape c")
      (simp_all add: PathEscape_def PathUnescape_Cons upperHex_props)
qed (simp add: PathEscape_def)

lemma PathEscape_no_slash: "slash \<notin> set (PathEscape s)"
proof (induction s)
  case (Cons c s)
  have "slash \<noteq> upperHex (of_char c div 16)" "slash \<noteq> upperHex (of_char c mod 16)"
    using upperHex_props(3) [OF of_char_div_16 [of c]] upperHex_props(3) [of "of_char c mod 16"]
    by auto
  with Cons not_percent_escape [of c] show ?case
    by (cases "shouldEscape c") (auto simp: PathEscape_def)
qed (simp add: PathEscape_def)

lemma PathEscape_eq_Nil [simp]: "PathEscape s = [] \<longleftrightarrow> s = []"
  by (cases s) (auto simp: PathEscape_def)

end
