(* ===== verification/Sha256.thy ===== *)
theory Sha256
  imports Go_Strings
begin

text \<open>
  \<open>crypto/sha256.Sum256\<close> (FIPS 180-4) on byte strings, and the hexadecimal rendering
  \<open>fmt.Sprintf("%x", ...)\<close> of its result. The driver derives volume identifiers and handoff
  directory names from it; the theorems use only that it is a function to 32 bytes.
\<close>

unbundle bit_operations_syntax

type_synonym w32 = "32 word"

definition rotr :: "nat \<Rightarrow> w32 \<Rightarrow> w32" where
  "rotr n x = drop_bit n x OR push_bit (32 - n) x"

definition sha_k :: "w32 list" where
  "sha_k =
   [1116352408, 1899447441, 3049323471, 3921009573, 961987163, 1508970993, 2453635748, 2870763221,
    3624381080, 310598401, 607225278, 1426881987, 1925078388, 2162078206, 2614888103, 3248222580,
    3835390401, 4022224774, 264347078, 604807628, 770255983, 1249150122, 1555081692, 1996064986,
    2554220882, 2821834349, 2952996808, 3210313671, 3336571891, 3584528711, 113926993, 338241895,
    666307205, 773529912, 1294757372, 1396182291, 1695183700, 1986661051, 2177026350, 2456956037,
    2730485921, 2820302411, 3259730800, 3345764771, 3516065817, 3600352804, 4094571909, 275423344,
    430227734, 506948616, 659060556, 883997877, 958139571, 1322822218, 1537002063, 1747873779,
    1955562222, 2024104815, 2227730452, 2361852424, 2428436474, 2756734187, 3204031479, 3329325298]"

definition sha_init :: "w32 list" where
  "sha_init =
   [1779033703, 3144134277, 1013904242, 2773480762, 1359893119, 2600822924, 528734635, 1541459225]"

text \<open>Message schedule, newest word first: sixteen block words extended to sixty-four.\<close>

fun sha_extend :: "nat \<Rightarrow> w32 list \<Rightarrow> w32 list" where
  "sha_extend 0 ws = ws"
| "sha_extend (Suc n) ws =
     (let w2 = ws ! 1; w7 = ws ! 6; w15 = ws ! 14; w16 = ws ! 15;
          s0 = rotr 7 w15 XOR rotr 18 w15 XOR drop_bit 3 w15;
          s1 = rotr 17 w2 XOR rotr 19 w2 XOR drop_bit 10 w2
      in sha_extend n ((w16 + s0 + w7 + s1) # ws))"

definition sha_round :: "w32 list \<Rightarrow> w32 \<times> w32 \<Rightarrow> w32 list" where
  "sha_round st kw =
     (case st of
        [a, b, c, d, e, f, g, h] \<Rightarrow>
          (let s1 = rotr 6 e XOR rotr 11 e XOR rotr 25 e;
               ch = (e AND f) XOR (NOT e AND g);
               t1 = h + s1 + ch + fst kw + snd kw;
               s0 = rotr 2 a XOR rotr 13 a XOR rotr 22 a;
               maj = (a AND b) XOR (a AND c) XOR (b AND c)
           in [t1 + (s0 + maj), a, b, c, d + t1, e, f, g])
      | _ \<Rightarrow> st)"

definition sha_block :: "w32 list \<Rightarrow> w32 list \<Rightarrow> w32 list" where
  "sha_block st blk =
     map (\<lambda>(x, y). x + y)
       (zip st (foldl sha_round st (zip sha_k (rev (sha_extend 48 (rev blk))))))"

definition be_word :: "string \<Rightarrow> w32" where
  "be_word bs = foldl (\<lambda>acc c. acc * 256 + word_of_nat (of_char c)) 0 bs"

definition be_bytes :: "nat \<Rightarrow> nat \<Rightarrow> string" where
  "be_bytes k n = map (\<lambda>i. char_of (n div 256 ^ (k - 1 - i))) [0..<k]"

fun chunks_of :: "nat \<Rightarrow> nat \<Rightarrow> 'a list \<Rightarrow> 'a list list" where
  "chunks_of k 0 xs = []"
| "chunks_of k (Suc n) xs = take k xs # chunks_of k n (drop k xs)"

definition sha_pad :: "string \<Rightarrow> string" where
  "sha_pad s =
     s @ [CHR 0x80] @ replicate ((119 - length s mod 64) mod 64) (CHR 0x00)
       @ be_bytes 8 (8 * length s)"

definition Sum256 :: "string \<Rightarrow> string" where
  "Sum256 s =
     (let m = sha_pad s;
          blocks = map (\<lambda>b. map be_word (chunks_of 4 16 b)) (chunks_of 64 (length m div 64) m)
      in concat (map (\<lambda>w. be_bytes 4 (unat w)) (foldl sha_block sha_init blocks)))"

definition hexDigit :: "nat \<Rightarrow> char" where
  "hexDigit n = (if n < 10 then char_of (48 + n) else char_of (87 + n))"

text \<open>\<open>%x\<close> of a byte slice: two lower-case digits per byte.\<close>

definition hexString :: "string \<Rightarrow> string" where
  "hexString s = concat (map (\<lambda>c. [hexDigit (of_char c div 16), hexDigit (of_char c mod 16)]) s)"

section \<open>Shape of the digest\<close>

lemma length_be_bytes [simp]: "length (be_bytes k n) = k"
  by (simp add: be_bytes_def)

lemma length_sha_round [simp]: "length (sha_round st kw) = length st"
  by (simp add: sha_round_def Let_def split: list.splits)

lemma length_foldl_sha_round [simp]: "length (foldl sha_round st kws) = length st"
  by (induction kws arbitrary: st) auto

lemma length_sha_block [simp]: "length (sha_block st blk) = length st"
  by (simp add: sha_block_def)

lemma length_foldl_sha_block [simp]: "length (foldl sha_block st bs) = length st"
  by (induction bs arbitrary: st) auto

lemma length_concat_const: "(\<And>x. x \<in> set xs \<Longrightarrow> length (f x) = k) \<Longrightarrow> length (concat (map f xs)) = k * length xs"
  by (induction xs) auto

lemma length_Sum256 [simp]: "length (Sum256 s) = 32"
  unfolding Sum256_def Let_def
  by (subst length_concat_const [where k = 4]) (simp_all add: sha_init_def)

lemma length_hexString [simp]: "length (hexString s) = 2 * length s"
  unfolding hexString_def by (subst length_concat_const [where k = 2]) simp_all

definition is_hex :: "char \<Rightarrow> bool" where
  "is_hex c = (c \<in> set ''0123456789abcdef'')"

lemma hexDigit_is_hex: "n < 16 \<Longrightarrow> is_hex (hexDigit n)"
proof -
  have "list_all (\<lambda>m. is_hex (hexDigit m)) [0..<16]" by code_simp
  then show "n < 16 \<Longrightarrow> is_hex (hexDigit n)" by (simp add: list_all_iff)
qed

lemma set_hexString: "c \<in> set (hexString s) \<Longrightarrow> is_hex c"
proof -
  have "(of_char d :: nat) div 16 < 16" for d :: char
    by (rule less_mult_imp_div_less) simp
  then show "c \<in> set (hexString s) \<Longrightarrow> is_hex c"
    by (auto simp: hexString_def hexDigit_is_hex)
qed

lemma is_hex_graphic: "is_hex c \<Longrightarrow> graphic c"
  by (auto simp: is_hex_def graphic_def)

lemma is_hex_not_slash [simp]: "is_hex c \<Longrightarrow> c \<noteq> CHR ''/''"
  by (auto simp: is_hex_def)

end
