(* ===== verification/Naming.thy ===== *)
theory Naming
  imports Go_Paths Sha256
begin

text \<open>
  Identifiers, names and paths the driver derives from volume IDs, targets and pod UIDs:
  \<open>mountID\<close>, \<open>sanitizeLabelValue\<close> and \<open>podUIDFromTarget\<close> (\<open>podmounter.go\<close>),
  \<open>sanitizeVolumeID\<close>, \<open>tokenFilePath\<close> and \<open>getWithDefault\<close> (\<open>node.go\<close>), \<open>hfMountName\<close>
  (\<open>hfmount.go\<close>), \<open>volumeIDForMount\<close> and \<open>podUIDForMount\<close> (\<open>fuse_sweeper.go\<close>) and the
  handoff paths of \<open>sidecar_mounter_linux.go\<close>. The theorems say that distinct volumes get
  distinct files below the cache directory, that label values are legal for Kubernetes, and
  that the two ways of reading a pod UID from a kubelet path agree.
\<close>

section \<open>Constants\<close>

definition DriverName :: string where
  "DriverName = ''hf.csi.huggingface.co''"

definition mountBaseDir :: string where
  "mountBaseDir = ''/var/lib/hf-csi-driver/mnt''"

definition mountPodPrefix :: string where
  "mountPodPrefix = ''hf-mount-''"

definition containerMountPathPrefix :: string where
  "containerMountPathPrefix = ''/mnt/hf/''"

definition kubeletCSIMarker :: string where
  "kubeletCSIMarker = ''/volumes/kubernetes.io~csi/''"

definition podsPrefix :: string where
  "podsPrefix = ''/var/lib/kubelet/pods/''"

definition fuseMountSource :: string where
  "fuseMountSource = ''hf-mount''"

definition emptyDirName :: string where
  "emptyDirName = ''hf-csi-tmp''"

definition kubeletPodsBase :: string where
  "kubeletPodsBase = ''/var/lib/kubelet/pods''"

definition symlinkBase :: string where
  "symlinkBase = ''/var/run/hf-csi''"

definition sidecarMountPath :: string where
  "sidecarMountPath = ''/hf-csi-tmp''"

section \<open>Volume identifiers and file names\<close>

text \<open>\<open>m[key]\<close> on a map of strings: the zero value when the key is absent.\<close>

definition lookupStr :: "(string \<rightharpoonup> string) \<Rightarrow> string \<Rightarrow> string" where
  "lookupStr m k = (case m k of None \<Rightarrow> [] | Some v \<Rightarrow> v)"

definition getWithDefault :: "(string \<rightharpoonup> string) \<Rightarrow> string \<Rightarrow> string \<Rightarrow> string" where
  "getWithDefault m key defaultVal =
     (case m key of Some v \<Rightarrow> if v \<noteq> [] then v else defaultVal | None \<Rightarrow> defaultVal)"

definition mountID :: "string \<Rightarrow> string" where
  "mountID target = hexString (take 6 (Sum256 target))"

definition mountIDFromSource :: "string \<Rightarrow> string" where
  "mountIDFromSource src = Base src"

definition hfMountName :: "string \<Rightarrow> string" where
  "hfMountName volumeID = ''hfm-'' @ volumeID"

definition sanitizeVolumeID :: "string \<Rightarrow> string" where
  "sanitizeVolumeID vid =
     (let s = PathEscape vid in
      if s = ''.'' then [CHR 0x25] @ ''2E''
      else if s = ''..'' then [CHR 0x25] @ ''2E'' @ [CHR 0x25] @ ''2E''
      else s)"

definition tokenFilePath :: "string \<Rightarrow> string \<Rightarrow> string" where
  "tokenFilePath cacheBase volumeID = pathJoin [cacheBase, sanitizeVolumeID volumeID, ''token'']"

section \<open>Label values\<close>

definition isAlphanumeric :: "nat \<Rightarrow> bool" where
  "isAlphanumeric r \<longleftrightarrow> (97 \<le> r \<and> r \<le> 122) \<or> (65 \<le> r \<and> r \<le> 90) \<or> (48 \<le> r \<and> r \<le> 57)"

definition labelRune :: "nat \<Rightarrow> char" where
  "labelRune r =
     (if isAlphanumeric r \<or> r = 46 \<or> r = 45 \<or> r = 95 then char_of r else CHR ''_'')"

definition sanitizeLabelValue :: "string \<Rightarrow> string" where
  "sanitizeLabelValue v =
     (let v1 = map (labelRune \<circ> fst) (runes v);
          v2 = (if 63 < length v1 then take 63 v1 else v1)
      in TrimFunc (\<lambda>r. \<not> isAlphanumeric r) v2)"

section \<open>Reading a mountpoint\<close>

definition podUIDFromTarget :: "string \<Rightarrow> string" where
  "podUIDFromTarget target =
     (case CutPrefix target podsPrefix of
        None \<Rightarrow> []
      | Some rest \<Rightarrow>
         (case IndexByte rest slash of
            None \<Rightarrow> []
          | Some e \<Rightarrow> if e = 0 then [] else take e rest))"

definition volumeIDForMount :: "string \<Rightarrow> string option" where
  "volumeIDForMount mountpoint =
     (if HasPrefix mountpoint (mountBaseDir @ ''/'') then Some (Base mountpoint)
      else if Contains mountpoint kubeletCSIMarker then Some (mountID mountpoint)
      else None)"

definition podUIDForMount :: "string \<Rightarrow> string option" where
  "podUIDForMount mountpoint =
     (if \<not> Contains mountpoint kubeletCSIMarker then None
      else case Index mountpoint ''/pods/'' of
          None \<Rightarrow> None
        | Some i \<Rightarrow>
           (let rest = drop (i + 6) mountpoint in
            case IndexByte rest slash of
              None \<Rightarrow> None
            | Some j \<Rightarrow> if j = 0 then None else Some (take j rest)))"

section \<open>Handoff paths of sidecar mode\<close>

definition sidecarPath :: "string \<Rightarrow> string" where
  "sidecarPath hostPath =
     (let marker = emptyDirName @ ''/'' in
      case Index hostPath marker of
        None \<Rightarrow> hostPath
      | Some idx \<Rightarrow> pathJoin [sidecarMountPath, drop (idx + length marker) hostPath])"

definition sidecarEmptyDirPath :: "string \<Rightarrow> string" where
  "sidecarEmptyDirPath podUID =
     pathJoin [kubeletPodsBase, podUID, ''volumes'', ''kubernetes.io~empty-dir'', emptyDirName]"

text \<open>\<open>fmt.Sprintf("%x", sha256.Sum256(volumeName))[:12]\<close>.\<close>

definition handoffHash :: "string \<Rightarrow> string" where
  "handoffHash volumeName = take 12 (hexString (Sum256 volumeName))"

definition handoffDir :: "string \<Rightarrow> string \<Rightarrow> string" where
  "handoffDir podUID volumeName =
     pathJoin [sidecarEmptyDirPath podUID, ''.volumes'', handoffHash volumeName]"

section \<open>Properties of identifiers\<close>

lemma length_mountID [simp]: "length (mountID t) = 12"
  by (simp add: mountID_def)

lemma mountID_hex: "c \<in> set (mountID t) \<Longrightarrow> is_hex c"
  by (simp add: mountID_def set_hexString)

lemma mountID_plain: "plain_comp (mountID t)"
proof -
  have "mountID t \<noteq> []" "mountID t \<noteq> ''.''" "mountID t \<noteq> ''..''"
    using length_mountID [of t] by (auto simp del: length_mountID)
  moreover have "slash \<notin> set (mountID t)" using mountID_hex is_hex_not_slash by blast
  ultimately show ?thesis by (simp add: plain_comp_def)
qed

lemma handoffHash_eq_mountID: "handoffHash v = mountID v"
proof -
  have "length s = 32 \<Longrightarrow> take 12 (hexString s) = hexString (take 6 s)" for s
  proof -
    assume "length s = 32"
    then have "length (hexString (take 6 s)) = 12" by simp
    moreover have "hexString s = hexString (take 6 s) @ hexString (drop 6 s)"
      by (simp add: hexString_def flip: map_append concat_append)
    ultimately show ?thesis by simp
  qed
  then show ?thesis by (simp add: handoffHash_def mountID_def)
qed

lemma sourcePath_eq: "pathJoin [mountBaseDir, mountID t] = mountBaseDir @ slash # mountID t"
proof -
  have comps: "pathComps mountBaseDir = [''var'', ''lib'', ''hf-csi-driver'', ''mnt'']"
    by (simp add: mountBaseDir_def pathComps_def rooted_def)
  have "rooted mountBaseDir" by (simp add: mountBaseDir_def rooted_def)
  then have "pathJoin [mountBaseDir, mountID t] = slash # Join (pathComps mountBaseDir @ [mountID t]) [slash]"
    by (rule pathJoin_eq) (simp_all add: mountID_plain)
  also have "\<dots> = mountBaseDir @ slash # mountID t"
    unfolding comps by (simp add: mountBaseDir_def)
  finally show ?thesis .
qed

lemma Base_sourcePath: "Base (mountBaseDir @ slash # mountID t) = mountID t"
  using Base_append [of "mountID t" mountBaseDir] mountID_plain [of t]
  by (simp add: plain_comp_def)

text \<open>
  The identifier of a mount can be read back from its source path: the basename of
  \<open>mountBaseDir/mountID(target)\<close> is \<open>mountID(target)\<close>, so every component that starts from
  the source path (heal, recovery, health check, sweeper) names the same pod and CRD as
  \<open>Mount\<close> did from the target.
\<close>

theorem mountIDFromSource_mountID:
  "mountIDFromSource (pathJoin [mountBaseDir, mountID target]) = mountID target"
  by (simp add: mountIDFromSource_def sourcePath_eq Base_sourcePath)

section \<open>Sanitized volume IDs\<close>

lemma sanitizeVolumeID_unescape: "PathUnescape (sanitizeVolumeID vid) = vid"
proof -
  have "PathEscape vid = x \<Longrightarrow> PathUnescape x = vid" for x
    using PathUnescape_PathEscape [of vid] by auto
  moreover have "char_of (46 :: nat) = CHR ''.''" by (rule char_of_eqI) simp
  ultimately show ?thesis
    by (auto simp: sanitizeVolumeID_def Let_def unhex_def)
qed

lemma sanitizeVolumeID_plain: "vid \<noteq> [] \<Longrightarrow> plain_comp (sanitizeVolumeID vid)"
  using PathEscape_no_slash [of vid] by (auto simp: sanitizeVolumeID_def plain_comp_def Let_def)

text \<open>
  (C6) Token files never escape the cache directory and never collide: for a rooted cache
  base and a non-empty volume ID of arbitrary bytes (path traversal included) the token file
  is the file \<open>token\<close> in a single directory directly below the cache base, and two volume
  IDs share a token file only when they are equal.
\<close>

theorem tokenFilePath_confined:
  assumes "rooted cacheBase" "vid1 \<noteq> []" "vid2 \<noteq> []"
  shows "pathComps (tokenFilePath cacheBase vid1) = pathComps cacheBase @ [sanitizeVolumeID vid1, ''token'']
     \<and> slash \<notin> set (sanitizeVolumeID vid1) \<and> sanitizeVolumeID vid1 \<notin> {[], ''.'', ''..''}
     \<and> (tokenFilePath cacheBase vid1 = tokenFilePath cacheBase vid2 \<longrightarrow> vid1 = vid2)"
proof -
  have plain: "list_all plain_comp [sanitizeVolumeID vid, ''token'']" if "vid \<noteq> []" for vid
    using sanitizeVolumeID_plain [OF that] by (simp add: plain_comp_def)
  have comps: "pathComps (tokenFilePath cacheBase vid) = pathComps cacheBase @ [sanitizeVolumeID vid, ''token'']"
    if "vid \<noteq> []" for vid
    using pathJoin_comps(1) [OF assms(1) _ plain [OF that]] by (simp add: tokenFilePath_def)
  have "vid1 = vid2" if "tokenFilePath cacheBase vid1 = tokenFilePath cacheBase vid2"
  proof -
    have "sanitizeVolumeID vid1 = sanitizeVolumeID vid2"
      using comps [OF assms(2)] comps [OF assms(3)] that by simp
    then show ?thesis by (metis sanitizeVolumeID_unescape)
  qed
  with comps [OF assms(2)] sanitizeVolumeID_plain [OF assms(2)]
  show ?thesis by (simp add: plain_comp_def)
qed

theorem tokenFilePath_confined_witness:
  "pathComps (tokenFilePath ''/c'' ''../x'')
     = [''c'', sanitizeVolumeID ''../x'', ''token'']
   \<and> tokenFilePath ''/c'' ''../x'' \<noteq> tokenFilePath ''/c'' ''..''"
  using tokenFilePath_confined [of "''/c''" "''../x''" "''..''"]
  by (simp add: rooted_def pathComps_def)

section \<open>Label values are legal\<close>

lemma TrimFunc_ascii:
  "ascii s \<Longrightarrow> TrimFunc f s = rev (dropWhile (f \<circ> of_char) (rev (dropWhile (f \<circ> of_char) s)))"
proof -
  have *: "dropWhile (f \<circ> fst) (map (\<lambda>c :: char. (of_char c :: nat, [c])) t)
      = map (\<lambda>c. (of_char c, [c])) (dropWhile (f \<circ> of_char) t)" for t
    by (induction t) auto
  have **: "concat (map snd (map (\<lambda>c :: char. (of_char c :: nat, [c])) t)) = t" for t
    by (induction t) auto
  assume "ascii s"
  then have "TrimFunc f s = concat (map snd (rev (dropWhile (f \<circ> fst)
      (map (\<lambda>c. (of_char c, [c])) (rev (dropWhile (f \<circ> of_char) s))))))"
    by (simp only: TrimFunc_def runes_ascii * rev_map)
  then show ?thesis by (simp only: * rev_map **)
qed

definition labelByte :: "char \<Rightarrow> bool" where
  "labelByte c = (isAlphanumeric (of_char c) \<or> c \<in> set ''.-_'')"

text \<open>The rule of the API server for a label value.\<close>

definition validLabelValue :: "string \<Rightarrow> bool" where
  "validLabelValue v \<longleftrightarrow> length v \<le> 63 \<and> list_all labelByte v
     \<and> (v \<noteq> [] \<longrightarrow> isAlphanumeric (of_char (hd v)) \<and> isAlphanumeric (of_char (last v)))"

lemma labelRune_ok: "labelByte (labelRune r)"
proof -
  have "isAlphanumeric r \<Longrightarrow> r mod 256 = r" by (auto simp: isAlphanumeric_def)
  then show ?thesis
    by (auto simp: labelRune_def labelByte_def intro!: char_of_eqI)
qed

lemma labelByte_ascii: "labelByte c \<Longrightarrow> (of_char c :: nat) < 0x80"
  by (auto simp: labelByte_def isAlphanumeric_def)

lemma list_all_labelByte_ascii: "list_all labelByte v \<Longrightarrow> ascii v"
  by (auto simp: list_all_iff ascii_def labelByte_ascii)

text \<open>Trimming both ends keeps the bytes, shortens, and leaves a wanted byte at each end.\<close>

lemma trim_ends:
  fixes f :: "'a \<Rightarrow> bool"
  defines "t \<equiv> \<lambda>xs. rev (dropWhile f (rev (dropWhile f xs)))"
  shows "set (t xs) \<subseteq> set xs" "length (t xs) \<le> length xs"
    "t xs \<noteq> [] \<Longrightarrow> \<not> f (hd (t xs)) \<and> \<not> f (last (t xs))"
proof -
  show "set (t xs) \<subseteq> set xs" by (auto simp: t_def dest!: set_dropWhile_subset)
  have "length (t xs) \<le> length (dropWhile f xs)"
    by (metis length_dropWhile_le length_rev t_def)
  then show "length (t xs) \<le> length xs" by (meson length_dropWhile_le order_trans)
  assume ne: "t xs \<noteq> []"
  let ?d = "dropWhile f xs"
  from ne obtain y ys where y: "dropWhile f (rev ?d) = y # ys"
    by (metis t_def list.exhaust rev.simps(1))
  then have last: "\<not> f (last (t xs))" using dropWhile_hd_not [OF y] by (simp add: t_def)
  obtain zs where "rev ?d = zs @ y # ys" by (metis y takeWhile_dropWhile_id)
  then have d: "?d = t xs @ rev zs" using y by (simp add: t_def flip: rev_append)
       (metis append.assoc append_Cons append_Nil rev_append rev_rev_ident rev.simps(2))
  with ne have "?d \<noteq> []" "hd ?d = hd (t xs)" by auto
  then have "\<not> f (hd (t xs))" by (metis dropWhile_hd_not list.collapse)
  with last show "\<not> f (hd (t xs)) \<and> \<not> f (last (t xs))" by simp
qed

lemma trim_ends_id:
  assumes "xs \<noteq> [] \<longrightarrow> \<not> f (hd xs) \<and> \<not> f (last xs)"
  shows "rev (dropWhile f (rev (dropWhile f xs))) = xs"
proof -
  have "dropWhile f xs = xs" using assms by (intro dropWhile_idI) auto
  moreover have "dropWhile f (rev xs) = rev xs"
    using assms by (intro dropWhile_idI) (auto simp: hd_rev)
  ultimately show ?thesis by simp
qed

lemma labelRune_id: "labelByte c \<Longrightarrow> labelRune (of_char c) = c"
  by (auto simp: labelByte_def labelRune_def)

lemma sanitizeLabelValue_valid_id:
  assumes "validLabelValue v"
  shows "sanitizeLabelValue v = v"
proof -
  have all: "list_all labelByte v" and asc: "ascii v"
    using assms list_all_labelByte_ascii by (auto simp: validLabelValue_def)
  have "map (labelRune \<circ> fst) (runes v) = v"
    using all by (simp add: runes_ascii [OF asc] list_all_iff labelRune_id cong: map_cong)
  moreover have "rev (dropWhile ((\<lambda>r. \<not> isAlphanumeric r) \<circ> of_char)
      (rev (dropWhile ((\<lambda>r. \<not> isAlphanumeric r) \<circ> of_char) v))) = v"
    using assms by (intro trim_ends_id) (simp add: validLabelValue_def)
  ultimately show ?thesis
    using assms by (simp add: sanitizeLabelValue_def validLabelValue_def TrimFunc_ascii [OF asc])
qed

lemma sanitizeLabelValue_valid: "validLabelValue (sanitizeLabelValue v)"
proof -
  define w where "w = take 63 (map (labelRune \<circ> fst) (runes v))"
  have all: "list_all labelByte w"
    by (auto simp: w_def list_all_iff labelRune_ok dest!: in_set_takeD)
  have cut: "(if 63 < length u then take 63 u else u) = take 63 u" for u :: string by simp
  let ?f = "(\<lambda>r. \<not> isAlphanumeric r) \<circ> of_char"
  have eq: "sanitizeLabelValue v = rev (dropWhile ?f (rev (dropWhile ?f w)))"
    using TrimFunc_ascii [OF list_all_labelByte_ascii [OF all], of "\<lambda>r. \<not> isAlphanumeric r"]
    unfolding sanitizeLabelValue_def Let_def cut w_def [symmetric] by simp
  have "length w \<le> 63" by (simp add: w_def)
  with all trim_ends [of ?f w] show ?thesis
    by (auto simp: validLabelValue_def eq list_all_iff subset_iff)
qed

text \<open>
  \<open>sanitizeLabelValue\<close> always yields a value the API server accepts (at most 63 bytes,
  the label alphabet, alphanumeric at both ends, or empty), leaves every legal value as it is,
  and is therefore idempotent: the labels written on pods and CRDs and the selectors that look
  them up are built from the same value.
\<close>

theorem sanitizeLabelValue_correct:
  "validLabelValue (sanitizeLabelValue v)
   \<and> (validLabelValue v \<longrightarrow> sanitizeLabelValue v = v)
   \<and> sanitizeLabelValue (sanitizeLabelValue v) = sanitizeLabelValue v"
  by (simp add: sanitizeLabelValue_valid sanitizeLabelValue_valid_id)

theorem sanitizeLabelValue_correct_witness:
  "validLabelValue ''node-1.example'' \<and> sanitizeLabelValue ''node-1.example'' = ''node-1.example''"
proof -
  have v: "validLabelValue ''node-1.example''"
    by (simp add: validLabelValue_def labelByte_def isAlphanumeric_def)
  with sanitizeLabelValue_correct [of "''node-1.example''"] show ?thesis by simp
qed

section \<open>Pod UIDs in kubelet paths\<close>

lemma podUIDFromTarget_eqD:
  assumes "podUIDFromTarget t = uid" "uid \<noteq> []"
  shows "\<exists>rest. t = podsPrefix @ uid @ slash # rest \<and> slash \<notin> set uid"
proof -
  obtain rest e where rest: "CutPrefix t podsPrefix = Some rest" "IndexByte rest slash = Some e"
      "uid = take e rest"
    using assms by (auto simp: podUIDFromTarget_def split: option.splits if_splits)
  then have e: "e < length rest" "rest ! e = slash" "slash \<notin> set uid"
    using IndexByte_SomeD [of rest slash e] by simp_all
  from rest have "t = podsPrefix @ rest"
    by (auto simp: CutPrefix_def prefix_def split: if_splits)
  moreover have "rest = uid @ slash # drop (Suc e) rest"
    using e rest(3) by (metis append_take_drop_id Cons_nth_drop_Suc)
  ultimately show ?thesis using e(3) by blast
qed

lemma podUIDFromTarget_prefix:
  "uid \<noteq> [] \<Longrightarrow> slash \<notin> set uid \<Longrightarrow> podUIDFromTarget (podsPrefix @ uid @ slash # rest) = uid"
  by (simp add: podUIDFromTarget_def)

text \<open>
  \<open>podUIDFromTarget\<close> accepts exactly the kubelet layout: it returns a non-empty UID if and
  only if the target is \<open>/var/lib/kubelet/pods/<uid>/...\<close> with a non-empty component as UID,
  and the UID it returns is that component.
\<close>

theorem podUIDFromTarget_iff:
  "uid \<noteq> [] \<and> podUIDFromTarget t = uid \<longleftrightarrow>
     uid \<noteq> [] \<and> slash \<notin> set uid \<and> (\<exists>rest. t = podsPrefix @ uid @ slash # rest)"
  using podUIDFromTarget_eqD podUIDFromTarget_prefix by blast

lemma Index_podsPrefix: "Index (podsPrefix @ s) ''/pods/'' = Some 16"
  by (simp add: podsPrefix_def)

lemma podUIDForMount_kubelet:
  assumes "uid \<noteq> []" "slash \<notin> set uid"
  shows "podUIDForMount (podsPrefix @ uid @ kubeletCSIMarker @ vol) = Some uid"
proof -
  obtain rest where m: "kubeletCSIMarker @ vol = slash # rest"
    by (simp add: kubeletCSIMarker_def)
  have "Contains (podsPrefix @ uid @ kubeletCSIMarker @ vol) kubeletCSIMarker"
    using ContainsI [of "podsPrefix @ uid" kubeletCSIMarker vol] by simp
  moreover have "drop 22 (podsPrefix @ uid @ slash # rest) = uid @ slash # rest"
    by (simp add: podsPrefix_def)
  ultimately show ?thesis
    using assms by (simp add: podUIDForMount_def Index_podsPrefix m)
qed

text \<open>
  The sweeper and the mount-pod cleaner read the same pod UID from a kubelet CSI publish
  path, so liveness by cgroup and liveness by pod list are about the same pod.
\<close>

theorem podUID_readers_agree:
  assumes "uid \<noteq> []" "slash \<notin> set uid"
  shows "podUIDForMount (podsPrefix @ uid @ kubeletCSIMarker @ vol) = Some uid
    \<and> podUIDFromTarget (podsPrefix @ uid @ kubeletCSIMarker @ vol) = uid"
proof -
  obtain rest where "kubeletCSIMarker @ vol = slash # rest"
    by (simp add: kubeletCSIMarker_def)
  then show ?thesis
    using podUIDForMount_kubelet [OF assms, of vol] podUIDFromTarget_prefix [OF assms, of rest] by simp
qed

theorem podUID_readers_agree_witness:
  "podUIDForMount ''/var/lib/kubelet/pods/u-1/volumes/kubernetes.io~csi/v/mount'' = Some ''u-1''"
  using podUID_readers_agree [of "''u-1''" "''v/mount''"]
  by (simp add: podsPrefix_def kubeletCSIMarker_def)

end
