(* ===== verification/Mountinfo.thy ===== *)
theory Mountinfo
  imports Go_Paths
begin

text \<open>
  The mountinfo readers: \<open>parseFuseMinor\<close> and \<open>parseFuseMounts\<close>
  (\<open>pkg/driver/fuse_mountinfo.go\<close>), \<open>unescapeMountPath\<close> and \<open>boundToCurrentSource\<close>
  (\<open>pkg/driver/mount_linux.go\<close>). Input is the text of the file and whether reading it
  failed part way; lines are read by the scanner model of \<open>Go_Strings\<close> with the buffer
  limits the code sets. The specification side is a record per kernel mount entry with its
  rendering in the proc(5) format: the parsers are proved to recover the entries.
\<close>

section \<open>Definitions\<close>

text \<open>\<open>sc.Buffer(..., 1024*1024)\<close> and the default \<open>bufio.MaxScanTokenSize\<close>.\<close>

definition bigBuffer :: nat where
  "bigBuffer = 1024 * 1024"

definition defaultBuffer :: nat where
  "defaultBuffer = 64 * 1024"

record fuseMount =
  fm_minor :: int
  fm_mountpoint :: string
  fm_fstype :: string
  fm_source :: string

text \<open>The index of the first field that is a lone dash.\<close>

fun sepIndex :: "string list \<Rightarrow> nat option" where
  "sepIndex [] = None"
| "sepIndex (f # fs) = (if f = ''-'' then Some 0 else map_option Suc (sepIndex fs))"

text \<open>The minor of a \<open>major:minor\<close> field.\<close>

definition minorOf :: "string \<Rightarrow> int option" where
  "minorOf f = (case SplitN2 f (CHR '':'') of [_, m] \<Rightarrow> Atoi m | _ \<Rightarrow> None)"

definition parseFuseMinorLine :: "string \<Rightarrow> string \<Rightarrow> int option" where
  "parseFuseMinorLine mountPoint line =
     (let fields = Fields line in
      if length fields < 5 \<or> fields ! 4 \<noteq> mountPoint then None
      else case sepIndex fields of
          None \<Rightarrow> None
        | Some sep \<Rightarrow>
           if length fields \<le> sep + 1 \<or> \<not> HasPrefix (fields ! (sep + 1)) ''fuse'' then None
           else minorOf (fields ! 2))"

fun firstSome :: "('a \<Rightarrow> 'b option) \<Rightarrow> 'a list \<Rightarrow> 'b option" where
  "firstSome f [] = None"
| "firstSome f (x # xs) = (case f x of None \<Rightarrow> firstSome f xs | Some y \<Rightarrow> Some y)"

definition parseFuseMinor :: "string \<Rightarrow> bool \<Rightarrow> string \<Rightarrow> int option" where
  "parseFuseMinor input readErr mountPoint =
     firstSome (parseFuseMinorLine mountPoint) (fst (scanLines bigBuffer input readErr))"

definition parseFuseMountLine :: "string \<Rightarrow> fuseMount option" where
  "parseFuseMountLine line =
     (let fields = Fields line in
      if length fields < 5 then None
      else case sepIndex fields of
          None \<Rightarrow> None
        | Some sep \<Rightarrow>
           if length fields \<le> sep + 2 \<or> \<not> HasPrefix (fields ! (sep + 1)) ''fuse'' then None
           else map_option
             (\<lambda>m. \<lparr>fm_minor = m, fm_mountpoint = fields ! 4,
                   fm_fstype = fields ! (sep + 1), fm_source = fields ! (sep + 2)\<rparr>)
             (minorOf (fields ! 2)))"

text \<open>\<open>None\<close> is the scanner error: the caller then skips the sweep.\<close>

definition parseFuseMounts :: "string \<Rightarrow> bool \<Rightarrow> fuseMount list option" where
  "parseFuseMounts input readErr =
     (let (ls, err) = scanLines bigBuffer input readErr;
          out = List.map_filter parseFuseMountLine ls
      in if err then None else Some out)"

text \<open>\<open>strconv.ParseUint(s, 8, 8)\<close> on three bytes.\<close>

definition octDigit :: "char \<Rightarrow> nat option" where
  "octDigit c =
     (let n = (of_char c :: nat) in if 48 \<le> n \<and> n \<le> 55 then Some (n - 48) else None)"

definition parseOct3 :: "char \<Rightarrow> char \<Rightarrow> char \<Rightarrow> nat option" where
  "parseOct3 a b c =
     (case (octDigit a, octDigit b, octDigit c) of
        (Some x, Some y, Some z) \<Rightarrow>
          (let v = 64 * x + 8 * y + z in if v \<le> 255 then Some v else None)
      | _ \<Rightarrow> None)"

fun unescapeLoop :: "string \<Rightarrow> string" where
  "unescapeLoop (c # x # y # z # s) =
     (if c = CHR 0x5C
      then case parseOct3 x y z of
             Some v \<Rightarrow> char_of v # unescapeLoop s
           | None \<Rightarrow> c # unescapeLoop (x # y # z # s)
      else c # unescapeLoop (x # y # z # s))"
| "unescapeLoop s = s"

definition unescapeMountPath :: "string \<Rightarrow> string" where
  "unescapeMountPath p = (if CHR 0x5C \<notin> set p then p else unescapeLoop p)"

text \<open>One step of the loop of \<open>boundToCurrentSource\<close> on \<open>(targetTop, sourceTop)\<close>.\<close>

definition boundStep :: "string \<Rightarrow> string \<Rightarrow> string \<times> string \<Rightarrow> string \<Rightarrow> string \<times> string" where
  "boundStep target source tops line =
     (let fields = Fields line in
      if length fields < 5 then tops
      else let backing = fields ! 2 @ '' '' @ fields ! 3;
               mp = unescapeMountPath (fields ! 4)
           in if mp = target then (backing, snd tops)
              else if mp = source then (fst tops, backing)
              else tops)"

text \<open>\<open>None\<close> for the file: it could not be opened.\<close>

definition boundToCurrentSource :: "(string \<times> bool) option \<Rightarrow> string \<Rightarrow> string \<Rightarrow> bool" where
  "boundToCurrentSource mountinfo target source =
     (case mountinfo of
        None \<Rightarrow> False
      | Some (input, readErr) \<Rightarrow>
         (let (ls, err) = scanLines defaultBuffer input readErr;
              (targetTop, sourceTop) = foldl (boundStep target source) ([], []) ls
          in if err then False else targetTop \<noteq> [] \<and> targetTop = sourceTop))"

section \<open>The kernel's side: entries and their rendering\<close>

record mountEntry =
  me_id :: nat
  me_parent :: nat
  me_major :: nat
  me_minor :: nat
  me_root :: string
  me_mountpoint :: string
  me_options :: string
  me_optional :: "string list"
  me_fstype :: string
  me_source :: string
  me_super :: string

definition entryFields :: "mountEntry \<Rightarrow> string list" where
  "entryFields e =
     [decString (me_id e), decString (me_parent e),
      decString (me_major e) @ '':'' @ decString (me_minor e),
      me_root e, me_mountpoint e, me_options e] @ me_optional e
     @ [''-'', me_fstype e, me_source e, me_super e]"

definition entryLine :: "mountEntry \<Rightarrow> string" where
  "entryLine e = Join (entryFields e) '' ''"

definition render :: "mountEntry list \<Rightarrow> string" where
  "render es = concat (map (\<lambda>e. entryLine e @ [CHR 0x0A]) es)"

text \<open>What the kernel guarantees of an entry: fields without white space, rooted paths, no
  field before the separator that is a lone dash, a line that fits the scanner's buffer.\<close>

definition entry_ok :: "nat \<Rightarrow> mountEntry \<Rightarrow> bool" where
  "entry_ok buf e =
     (list_all is_field ([me_root e, me_mountpoint e, me_options e] @ me_optional e
        @ [me_fstype e, me_source e, me_super e])
      \<and> rooted (me_root e) \<and> rooted (me_mountpoint e)
      \<and> ''-'' \<notin> set (me_options e # me_optional e)
      \<and> me_minor e < 2 ^ 63 \<and> length (entryLine e) < buf)"

definition is_fuse :: "mountEntry \<Rightarrow> bool" where
  "is_fuse e = HasPrefix (me_fstype e) ''fuse''"

definition fuse_of :: "mountEntry \<Rightarrow> fuseMount" where
  "fuse_of e =
     \<lparr>fm_minor = int (me_minor e), fm_mountpoint = me_mountpoint e,
      fm_fstype = me_fstype e, fm_source = me_source e\<rparr>"

definition backing_of :: "mountEntry \<Rightarrow> nat \<times> nat \<times> string" where
  "backing_of e = (me_major e, me_minor e, me_root e)"

text \<open>The escapes the kernel applies to a path before it prints it.\<close>

definition escapeByte :: "char \<Rightarrow> string" where
  "escapeByte c =
     (if c \<in> {CHR 0x20, CHR 0x09, CHR 0x0A, CHR 0x5C}
      then let n = (of_char c :: nat) in
           [CHR 0x5C, char_of (48 + n div 64), char_of (48 + n div 8 mod 8), char_of (48 + n mod 8)]
      else [c])"

definition escapeMountPath :: "string \<Rightarrow> string" where
  "escapeMountPath p = concat (map escapeByte p)"

section \<open>Parsing a rendered entry\<close>

lemma isDigit_graphic: "isDigit c \<Longrightarrow> graphic c"
  by (auto simp: isDigit_def graphic_def)

lemma decString_is_field: "is_field (decString n)"
  by (auto simp: is_field_def list_all_iff intro: isDigit_graphic decString_digits)

lemma is_field_append: "is_field a \<Longrightarrow> is_field b \<Longrightarrow> is_field (a @ b)"
  by (simp add: is_field_def)

lemma entryFields_fields:
  assumes "entry_ok buf e"
  shows "list_all is_field (entryFields e)"
proof -
  have dash: "is_field ''-''" by (simp add: is_field_def graphic_def)
  have "is_field '':''" by (simp add: is_field_def graphic_def)
  then have "is_field (decString (me_major e) @ '':'' @ decString (me_minor e))"
    by (intro is_field_append decString_is_field)
  with dash assms show ?thesis
    by (simp add: entry_ok_def entryFields_def decString_is_field)
qed

lemma Fields_entryLine: "entry_ok buf e \<Longrightarrow> Fields (entryLine e) = entryFields e"
  unfolding entryLine_def by (rule Fields_Join [OF entryFields_fields])

lemma is_field_no_newline:
  assumes "is_field w"
  shows "CHR 0x0A \<notin> set w" "CHR 0x0D \<notin> set w"
proof -
  have "\<not> graphic (CHR 0x0A)" "\<not> graphic (CHR 0x0D)" by (simp_all add: graphic_def)
  with assms show "CHR 0x0A \<notin> set w" "CHR 0x0D \<notin> set w"
    by (auto simp: is_field_def list_all_iff)
qed

lemma entryLine_no_newline:
  assumes "entry_ok buf e"
  shows "CHR 0x0A \<notin> set (entryLine e)" "CHR 0x0D \<notin> set (entryLine e)"
proof -
  have *: "w \<in> set (entryFields e) \<Longrightarrow> CHR 0x0A \<notin> set w \<and> CHR 0x0D \<notin> set w" for w
    using entryFields_fields [OF assms] by (auto simp: list_all_iff is_field_no_newline)
  show "CHR 0x0A \<notin> set (entryLine e)" "CHR 0x0D \<notin> set (entryLine e)"
    using set_Join [of "entryFields e" "'' ''"] * by (fastforce simp: entryLine_def)+
qed

lemma scanLines_render:
  assumes "list_all (entry_ok buf) es"
  shows "scanLines buf (render es) False = (map entryLine es, False)"
proof -
  have "render es = concat (map (\<lambda>l. l @ [CHR 0x0A]) (map entryLine es))"
    by (simp add: render_def comp_def)
  moreover have "list_all (\<lambda>l. CHR 0x0A \<notin> set l \<and> CHR 0x0D \<notin> set l \<and> length l < buf) (map entryLine es)"
    using assms entryLine_no_newline by (auto simp: list_all_iff entry_ok_def)
  ultimately show ?thesis by (simp only: scanLines_concat)
qed

lemma decString_not_dash [simp]: "decString n \<noteq> ''-''"
  using decString_digits [of "CHR ''-''" n] by (auto simp: isDigit_def)

lemma sepIndex_append: "''-'' \<notin> set fs \<Longrightarrow> sepIndex (fs @ ''-'' # gs) = Some (length fs)"
  by (induction fs) auto

lemma majmin_not_dash: "decString a @ '':'' @ decString b \<noteq> ''-''"
  by (metis append_eq_Cons_conv append_is_Nil_conv decString_nonempty list.distinct(1))

lemma rooted_not_dash: "rooted p \<Longrightarrow> p \<noteq> ''-''"
  by (auto simp: rooted_def)

lemma sepIndex_entry:
  assumes "entry_ok buf e"
  shows "sepIndex (entryFields e) = Some (6 + length (me_optional e))"
proof -
  let ?pre = "[decString (me_id e), decString (me_parent e),
      decString (me_major e) @ '':'' @ decString (me_minor e),
      me_root e, me_mountpoint e, me_options e] @ me_optional e"
  have "''-'' \<notin> set ?pre"
    using assms majmin_not_dash [of "me_major e" "me_minor e"] decString_not_dash
      rooted_not_dash [of "me_root e"] rooted_not_dash [of "me_mountpoint e"]
    by (auto simp: entry_ok_def dest: sym)
  from sepIndex_append [OF this, of "[me_fstype e, me_source e, me_super e]"]
  show ?thesis by (simp add: entryFields_def)
qed

lemma minorOf_entry:
  assumes "me_minor e < 2 ^ 63"
  shows "minorOf (decString (me_major e) @ CHR '':'' # decString (me_minor e)) = Some (int (me_minor e))"
proof -
  have "CHR '':'' \<notin> set (decString (me_major e))"
    using decString_digits [of "CHR '':''" "me_major e"] by (auto simp: isDigit_def)
  moreover have "Atoi (decString (me_minor e)) = Some (int (me_minor e))"
    using Atoi_Itoa [of "int (me_minor e)"] assms by (simp add: Itoa_def)
  ultimately show ?thesis
    using SplitN2_append [of "CHR '':''" "decString (me_major e)" "decString (me_minor e)"]
    by (simp add: minorOf_def)
qed

lemma entryFields_nth:
  "entryFields e ! 2 = decString (me_major e) @ '':'' @ decString (me_minor e)"
  "entryFields e ! 3 = me_root e"
  "entryFields e ! 4 = me_mountpoint e"
  "entryFields e ! (7 + length (me_optional e)) = me_fstype e"
  "entryFields e ! (8 + length (me_optional e)) = me_source e"
  "length (entryFields e) = 10 + length (me_optional e)"
  by (simp_all add: entryFields_def nth_append numeral_eq_Suc)

lemma entry_ok_minor: "entry_ok buf e \<Longrightarrow> me_minor e < 2 ^ 63"
  by (simp add: entry_ok_def)

lemmas entry_parse = Fields_entryLine sepIndex_entry entryFields_nth minorOf_entry [OF entry_ok_minor]

lemma parseFuseMountLine_entry:
  "entry_ok buf e \<Longrightarrow>
     parseFuseMountLine (entryLine e) = (if is_fuse e then Some (fuse_of e) else None)"
  by (simp add: parseFuseMountLine_def entry_parse is_fuse_def fuse_of_def Let_def)

lemma parseFuseMinorLine_entry:
  "entry_ok buf e \<Longrightarrow>
     parseFuseMinorLine mp (entryLine e)
       = (if is_fuse e \<and> me_mountpoint e = mp then Some (int (me_minor e)) else None)"
  by (simp add: parseFuseMinorLine_def entry_parse is_fuse_def Let_def)

section \<open>The parsers recover the mount table\<close>

lemma map_filter_entries:
  "list_all (entry_ok buf) es \<Longrightarrow>
     List.map_filter parseFuseMountLine (map entryLine es) = map fuse_of (filter is_fuse es)"
  by (induction es) (auto simp: List.map_filter_def parseFuseMountLine_entry split: if_splits)

lemma parseFuseMounts_rendered:
  "list_all (entry_ok bigBuffer) es \<Longrightarrow>
     parseFuseMounts (render es) False = Some (map fuse_of (filter is_fuse es))"
  by (simp add: parseFuseMounts_def scanLines_render map_filter_entries)

text \<open>
  Round trip: on any table of well-formed kernel entries rendered in the proc(5) format,
  \<open>parseFuseMounts\<close> succeeds and returns exactly the fuse entries, in order, with their minor,
  mountpoint, type and source.
\<close>

theorem parseFuseMounts_render:
  assumes "list_all (entry_ok bigBuffer) es"
  shows "parseFuseMounts (render es) False = Some (map fuse_of (filter is_fuse es))"
  using assms by (rule parseFuseMounts_rendered)

lemma firstSome_entries:
  "list_all (entry_ok buf) es \<Longrightarrow>
     firstSome (parseFuseMinorLine mp) (map entryLine es)
       = map_option (int \<circ> me_minor) (find (\<lambda>e. is_fuse e \<and> me_mountpoint e = mp) es)"
  by (induction es) (auto simp: parseFuseMinorLine_entry)

text \<open>
  On a rendered table \<open>parseFuseMinor\<close> returns the minor of the first fuse entry at the
  mountpoint (the bottom of a stack of mounts there), and nothing when no fuse entry is at
  exactly that mountpoint.
\<close>

theorem parseFuseMinor_render:
  assumes "list_all (entry_ok bigBuffer) es"
  shows "parseFuseMinor (render es) False mp
    = map_option (int \<circ> me_minor) (find (\<lambda>e. is_fuse e \<and> me_mountpoint e = mp) es)"
  using assms by (simp add: parseFuseMinor_def scanLines_render firstSome_entries)

text \<open>
  A truncated or unreadable mount table is never taken for a complete one: when reading
  fails, or a line does not fit the buffer, \<open>parseFuseMounts\<close> reports an error whatever
  records it had already read.
\<close>

theorem parseFuseMounts_fail_safe:
  assumes "readErr \<or> (\<exists>l \<in> set (rawLines [] input). bigBuffer \<le> length l)"
  shows "parseFuseMounts input readErr = None"
proof (cases readErr)
  case False
  with assms obtain l where "l \<in> set (rawLines [] input)" "bigBuffer \<le> length l" by blast
  then have "takeWhile (\<lambda>l. length l < bigBuffer) (rawLines [] input) \<noteq> rawLines [] input"
    by (metis leD takeWhile_eq_all_conv)
  then have "length (takeWhile (\<lambda>l. length l < bigBuffer) (rawLines [] input)) < length (rawLines [] input)"
    by (metis length_takeWhile_le linorder_neqE_nat not_less takeWhile_eq_take take_all_iff)
  then show ?thesis by (simp add: parseFuseMounts_def scanLines_def Let_def)
qed (simp add: parseFuseMounts_def scanLines_def Let_def)

section \<open>Octal escapes\<close>

lemma unescapeLoop_Cons: "c \<noteq> CHR 0x5C \<Longrightarrow> unescapeLoop (c # s) = c # unescapeLoop s"
  by (cases "c # s" rule: unescapeLoop.cases) auto

lemma unescapeLoop_escapeByte: "unescapeLoop (escapeByte c @ s) = c # unescapeLoop s"
proof (cases "c \<in> {CHR 0x20, CHR 0x09, CHR 0x0A, CHR 0x5C}")
  case True
  then show ?thesis
    by (auto simp: escapeByte_def Let_def parseOct3_def octDigit_def intro!: char_of_eqI)
next
  case False
  then show ?thesis by (simp add: escapeByte_def unescapeLoop_Cons)
qed

lemma unescapeLoop_escape: "unescapeLoop (escapeMountPath p) = p"
  unfolding escapeMountPath_def
  by (induction p) (simp_all add: unescapeLoop_escapeByte)

lemma unescapeLoop_plain: "CHR 0x5C \<notin> set p \<Longrightarrow> unescapeLoop p = p"
  by (induction p) (auto simp: unescapeLoop_Cons)

text \<open>
  Round trip: decoding a path the kernel escaped (space, tab, newline and backslash in
  octal) gives the path back, for every byte string.
\<close>

theorem unescapeMountPath_escape: "unescapeMountPath (escapeMountPath p) = p"
  unfolding unescapeMountPath_def
  using unescapeLoop_escape [of p] unescapeLoop_plain [of "escapeMountPath p"] by auto

section \<open>Which mount is on top\<close>

definition entry_backing :: "mountEntry \<Rightarrow> string" where
  "entry_backing e = (decString (me_major e) @ '':'' @ decString (me_minor e)) @ '' '' @ me_root e"

text \<open>The topmost entry at a path: the last one in the table.\<close>

definition top_at :: "string \<Rightarrow> mountEntry list \<Rightarrow> mountEntry option" where
  "top_at p es = find (\<lambda>e. unescapeMountPath (me_mountpoint e) = p) (rev es)"

lemma decString_inj: "decString a = decString b \<longleftrightarrow> a = b"
  by (metis decDigits_decString option.inject)

lemma decString_notin: "\<not> isDigit c \<Longrightarrow> c \<notin> set (decString n)"
  using decString_digits by blast

lemma entry_backing_inj:
  assumes "entry_backing a = entry_backing b"
  shows "backing_of a = backing_of b"
proof -
  have nd: "\<not> isDigit (CHR '':'')" "\<not> isDigit (CHR '' '')" by (simp_all add: isDigit_def)
  have sp: "SplitN2 (entry_backing e) (CHR '' '')
      = [decString (me_major e) @ '':'' @ decString (me_minor e), me_root e]" for e
    using SplitN2_append [of "CHR '' ''" "decString (me_major e) @ '':'' @ decString (me_minor e)" "me_root e"]
      decString_notin [OF nd(2)] by (simp add: entry_backing_def)
  have co: "SplitN2 (decString (me_major e) @ '':'' @ decString (me_minor e)) (CHR '':'')
      = [decString (me_major e), decString (me_minor e)]" for e
    using SplitN2_append [of "CHR '':''" "decString (me_major e)" "decString (me_minor e)"]
      decString_notin [OF nd(1)] by simp
  from sp [of a] sp [of b] assms
  have *: "decString (me_major a) @ '':'' @ decString (me_minor a)
      = decString (me_major b) @ '':'' @ decString (me_minor b)" "me_root a = me_root b"
    by simp_all
  have "[decString (me_major a), decString (me_minor a)] = [decString (me_major b), decString (me_minor b)]"
    by (simp only: co [symmetric] *(1))
  then have "me_major a = me_major b" "me_minor a = me_minor b" by (simp_all add: decString_inj)
  with *(2) show ?thesis by (simp add: backing_of_def)
qed

lemma entry_backing_eq_iff: "entry_backing a = entry_backing b \<longleftrightarrow> backing_of a = backing_of b"
  by (rule iffI, erule entry_backing_inj) (simp add: entry_backing_def backing_of_def)

lemma boundStep_entry:
  "entry_ok buf e \<Longrightarrow>
     boundStep t s tops (entryLine e) =
       (if unescapeMountPath (me_mountpoint e) = t then (entry_backing e, snd tops)
        else if unescapeMountPath (me_mountpoint e) = s then (fst tops, entry_backing e) else tops)"
  by (simp add: boundStep_def entry_parse entry_backing_def Let_def)

lemma foldl_boundStep:
  assumes "list_all (entry_ok buf) es" "t \<noteq> s"
  shows "foldl (boundStep t s) ([], []) (map entryLine es)
    = (case top_at t es of None \<Rightarrow> [] | Some e \<Rightarrow> entry_backing e,
       case top_at s es of None \<Rightarrow> [] | Some e \<Rightarrow> entry_backing e)"
  using assms
  by (induction es rule: rev_induct) (auto simp: top_at_def boundStep_entry)

text \<open>
  \<open>boundToCurrentSource\<close> answers yes exactly when both paths carry a mount and the
  topmost mounts there have the same device and root, whatever lies below them in the stacks.
\<close>

theorem boundToCurrentSource_render:
  assumes "list_all (entry_ok defaultBuffer) es" "target \<noteq> source"
  shows "boundToCurrentSource (Some (render es, False)) target source \<longleftrightarrow>
    (\<exists>a b. top_at target es = Some a \<and> top_at source es = Some b \<and> backing_of a = backing_of b)"
proof -
  have ne: "entry_backing e \<noteq> []" for e by (simp add: entry_backing_def)
  show ?thesis
    using assms ne
    by (auto simp: boundToCurrentSource_def scanLines_render foldl_boundStep entry_backing_eq_iff
        split: option.splits)
qed

section \<open>Instances\<close>

text \<open>A sidecar mount and a mount-pod source with a bind over it, in kernel notation.\<close>

definition sampleEntry :: "nat \<Rightarrow> string \<Rightarrow> string \<Rightarrow> string \<Rightarrow> mountEntry" where
  "sampleEntry m mp ty src =
     \<lparr>me_id = 36, me_parent = 35, me_major = 0, me_minor = m, me_root = ''/'', me_mountpoint = mp,
      me_options = ''rw,nosuid'', me_optional = [''shared:7''], me_fstype = ty, me_source = src,
      me_super = ''rw''\<rparr>"

definition sampleTable :: "mountEntry list" where
  "sampleTable =
     [sampleEntry 50 ''/var/a'' ''fuse'' ''hf-mount'', sampleEntry 51 ''/mnt/x'' ''ext4'' ''/dev/sda'',
      sampleEntry 52 ''/var/a'' ''fuse.hf-mount'' ''hf-mount'', sampleEntry 52 ''/var/b'' ''fuse'' ''hf-mount'']"

lemmas sample_defs = sampleTable_def sampleEntry_def entry_ok_def is_fuse_def fuse_of_def
  is_field_def graphic_def rooted_def entryLine_def entryFields_def decString.simps

lemma sampleTable_ok: "list_all (entry_ok bigBuffer) sampleTable" "list_all (entry_ok defaultBuffer) sampleTable"
  by (simp_all add: sample_defs bigBuffer_def defaultBuffer_def)

theorem parseFuseMounts_render_witness:
  "parseFuseMounts (render sampleTable) False =
     Some [\<lparr>fm_minor = 50, fm_mountpoint = ''/var/a'', fm_fstype = ''fuse'', fm_source = ''hf-mount''\<rparr>,
           \<lparr>fm_minor = 52, fm_mountpoint = ''/var/a'', fm_fstype = ''fuse.hf-mount'', fm_source = ''hf-mount''\<rparr>,
           \<lparr>fm_minor = 52, fm_mountpoint = ''/var/b'', fm_fstype = ''fuse'', fm_source = ''hf-mount''\<rparr>]"
  using parseFuseMounts_render [OF sampleTable_ok(1)]
  by (simp add: sampleTable_def sampleEntry_def is_fuse_def fuse_of_def)

theorem parseFuseMinor_render_witness:
  "parseFuseMinor (render sampleTable) False ''/var/a'' = Some 50"
  using parseFuseMinor_render [OF sampleTable_ok(1), of "''/var/a''"]
  by (simp add: sampleTable_def sampleEntry_def is_fuse_def)

theorem parseFuseMounts_fail_safe_witness:
  "parseFuseMounts (render sampleTable) True = None"
  using parseFuseMounts_fail_safe [of True "render sampleTable"] by simp

theorem boundToCurrentSource_render_witness:
  "boundToCurrentSource (Some (render sampleTable, False)) ''/var/b'' ''/var/a''"
  using boundToCurrentSource_render [OF sampleTable_ok(2), of "''/var/b''" "''/var/a''"]
  by (simp add: sampleTable_def sampleEntry_def top_at_def backing_of_def unescapeMountPath_def)

end
