(* ===== verification/Sweeper.thy ===== *)
theory Sweeper
  imports Naming Mountinfo
begin

text \<open>
  The orphaned-connection sweep (\<open>pkg/driver/fuse_sweeper.go\<close>, host providers in
  \<open>fuse_sweeper_linux.go\<close>): its liveness test, its scoping rule and the sweep itself with
  the per-connection streak and the set of connections already aborted.

  The host I/O that \<open>fuseSweepProviders\<close> abstracts is one record of answers per sweep;
  \<open>None\<close> is an error. Connection minors come from distinct directory entries, so each
  provider is asked at most once per minor in a sweep. The specification is over the whole
  history of sweeps: a connection is aborted exactly when the last two or more complete sweeps
  saw it orphaned and no abort has succeeded since that run began.
\<close>

section \<open>Liveness and scoping\<close>

record fuseServerProc =
  srv_pid :: int
  srv_cmdline :: string
  srv_cgroup :: string

definition normUID :: "string \<Rightarrow> string" where
  "normUID s = ReplaceAll (ReplaceAll (ToLower s) (CHR ''_'') []) (CHR ''-'') []"

definition cgroupHasPodUID :: "string \<Rightarrow> string \<Rightarrow> bool" where
  "cgroupHasPodUID cgroup podUID =
     (let nu = normUID podUID in if nu = [] then False else Contains (normUID cgroup) nu)"

definition servesVolume :: "string list \<Rightarrow> string list \<Rightarrow> fuseServerProc \<Rightarrow> bool" where
  "servesVolume volumeIDs podUIDs srv =
     (list_ex (\<lambda>v. v \<noteq> [] \<and> Contains (srv_cmdline srv) (containerMountPathPrefix @ v)) volumeIDs
      \<or> list_ex (\<lambda>uid. uid \<noteq> [] \<and> cgroupHasPodUID (srv_cgroup srv) uid) podUIDs)"

definition mountHasLiveDaemon :: "string list \<Rightarrow> fuseServerProc list \<Rightarrow> bool" where
  "mountHasLiveDaemon mountpoints servers =
     list_ex (servesVolume (List.map_filter volumeIDForMount mountpoints)
                (List.map_filter podUIDForMount mountpoints)) servers"

definition isOurFuseMount :: "fuseMount \<Rightarrow> bool" where
  "isOurFuseMount fm =
     (if \<not> HasPrefix (fm_fstype fm) ''fuse'' then False
      else if HasPrefix (fm_mountpoint fm) (mountBaseDir @ ''/'') then True
      else fm_source fm = fuseMountSource)"

text \<open>\<open>listOurFuseMounts\<close>: minor to mountpoints in table order; \<open>None\<close> when the host table
  cannot be opened or read to its end.\<close>

definition listOurFuseMounts :: "(string \<times> bool) option \<Rightarrow> (int \<Rightarrow> string list) option" where
  "listOurFuseMounts hostMountinfo =
     (case hostMountinfo of
        None \<Rightarrow> None
      | Some (input, readErr) \<Rightarrow>
         (case parseFuseMounts input readErr of
            None \<Rightarrow> None
          | Some mounts \<Rightarrow>
             Some (\<lambda>minor. map fm_mountpoint
                     (filter (\<lambda>fm. isOurFuseMount fm \<and> fm_minor fm = minor) mounts))))"

text \<open>
  The reads of \<open>/proc\<close> and \<open>/sys\<close> during one sweep. A sweep reads each path at most once,
  so its answers are functions of the path.
\<close>

record hostFs =
  ReadDir :: "string \<Rightarrow> oserr + string list"
  Readlink :: "string \<Rightarrow> oserr + string"
  ReadFile :: "string \<Rightarrow> oserr + string"

definition fuseConnDir :: string where
  "fuseConnDir = ''/sys/fs/fuse/connections''"

definition procDir :: string where
  "procDir = ''/proc''"

definition devFuse :: string where
  "devFuse = ''/dev/fuse''"

definition isGone :: "oserr \<Rightarrow> bool" where
  "isGone e = (e = ENOENT)"

definition listFuseConnections :: "hostFs \<Rightarrow> int list option" where
  "listFuseConnections fs =
     (case ReadDir fs fuseConnDir of
        Inl e \<Rightarrow> if isGone e then Some [] else None
      | Inr entries \<Rightarrow> Some (List.map_filter Atoi entries))"

definition fuseConnWaiting :: "hostFs \<Rightarrow> int \<Rightarrow> int option" where
  "fuseConnWaiting fs minor =
     (case ReadFile fs (pathJoin [fuseConnDir, Itoa minor, ''waiting'']) of
        Inl e \<Rightarrow> None
      | Inr b \<Rightarrow> Atoi (TrimSpace b))"

text \<open>The scan of a process's descriptors: \<open>None\<close> is an error other than \<open>ENOENT\<close>.\<close>

fun scanFds :: "hostFs \<Rightarrow> string \<Rightarrow> string list \<Rightarrow> bool option" where
  "scanFds fs fdDir [] = Some False"
| "scanFds fs fdDir (e # es) =
     (case Readlink fs (pathJoin [fdDir, e]) of
        Inl err \<Rightarrow> if isGone err then scanFds fs fdDir es else None
      | Inr tgt \<Rightarrow> if tgt = devFuse then Some True else scanFds fs fdDir es)"

definition processHoldsDevFuse :: "hostFs \<Rightarrow> int \<Rightarrow> bool option" where
  "processHoldsDevFuse fs pid =
     (let fdDir = pathJoin [procDir, Itoa pid, ''fd''] in
      case ReadDir fs fdDir of
        Inl err \<Rightarrow> if isGone err then Some False else None
      | Inr entries \<Rightarrow> scanFds fs fdDir entries)"

text \<open>\<open>cmdlineToString\<close>: NUL-separated, NUL-terminated argv as a space-joined string.\<close>

definition cmdlineToString :: "string \<Rightarrow> string" where
  "cmdlineToString b = ReplaceAll (Trim b (CHR 0x00)) (CHR 0x00) '' ''"

fun scanProcs :: "hostFs \<Rightarrow> string list \<Rightarrow> fuseServerProc list option" where
  "scanProcs fs [] = Some []"
| "scanProcs fs (e # es) =
     (case Atoi e of
        None \<Rightarrow> scanProcs fs es
      | Some pid \<Rightarrow>
         (case processHoldsDevFuse fs pid of
            None \<Rightarrow> None
          | Some False \<Rightarrow> scanProcs fs es
          | Some True \<Rightarrow>
             (case ReadFile fs (pathJoin [procDir, e, ''cmdline'']) of
                Inl err \<Rightarrow> if isGone err then scanProcs fs es else None
              | Inr cmdline \<Rightarrow>
                 (case ReadFile fs (pathJoin [procDir, e, ''cgroup'']) of
                    Inl err \<Rightarrow> if isGone err then scanProcs fs es else None
                  | Inr cgroup \<Rightarrow>
                     map_option ((#) \<lparr>srv_pid = pid, srv_cmdline = cmdlineToString cmdline, srv_cgroup = cgroup\<rparr>)
                       (scanProcs fs es)))))"

definition listFuseServers :: "hostFs \<Rightarrow> fuseServerProc list option" where
  "listFuseServers fs =
     (case ReadDir fs procDir of Inl e \<Rightarrow> None | Inr entries \<Rightarrow> scanProcs fs entries)"

section \<open>The sweep\<close>

definition orphanConfirmSweeps :: int where
  "orphanConfirmSweeps = 2"

record sweepInput =
  in_connections :: "int list option"
  in_ourMounts :: "(int \<Rightarrow> string list) option"
  in_servers :: "fuseServerProc list option"
  in_waiting :: "int \<Rightarrow> int option"
  in_pending :: "int \<Rightarrow> bool"
  in_abortOk :: "int \<Rightarrow> bool"

record fuseSweeper =
  orphanStreak :: "int \<rightharpoonup> int"
  aborted :: "int \<rightharpoonup> bool"

definition newFuseSweeper :: fuseSweeper where
  "newFuseSweeper = \<lparr>orphanStreak = Map.empty, aborted = Map.empty\<rparr>"

text \<open>State of the loop over the connections: the sweeper, the minors seen, the aborts
  issued so far.\<close>

type_synonym sweepLoop = "fuseSweeper \<times> int list \<times> int list"

definition forget :: "int \<Rightarrow> fuseSweeper \<Rightarrow> fuseSweeper" where
  "forget minor s =
     s\<lparr>orphanStreak := (orphanStreak s)(minor := None), aborted := (aborted s)(minor := None)\<rparr>"

definition sweepConn ::
  "sweepInput \<Rightarrow> (int \<Rightarrow> string list) \<Rightarrow> fuseServerProc list \<Rightarrow> sweepLoop \<Rightarrow> int \<Rightarrow> sweepLoop" where
  "sweepConn inp mounts servers loop minor =
     (let (s, seen, aborts) = loop; mps = mounts minor in
      if mps = [] then (s, seen, aborts)
      else case in_waiting inp minor of
          None \<Rightarrow> (forget minor s, minor # seen, aborts)
        | Some w \<Rightarrow>
           if w \<le> 0 \<or> in_pending inp minor \<or> mountHasLiveDaemon mps servers
           then (forget minor s, minor # seen, aborts)
           else
             let n = (case orphanStreak s minor of None \<Rightarrow> 0 | Some k \<Rightarrow> k) + 1;
                 s1 = s\<lparr>orphanStreak := (orphanStreak s)(minor \<mapsto> n)\<rparr>
             in if n < orphanConfirmSweeps then (s1, minor # seen, aborts)
                else if aborted s1 minor = Some True then (s1, minor # seen, aborts)
                else if in_abortOk inp minor
                then (s1\<lparr>aborted := (aborted s1)(minor \<mapsto> True)\<rparr>, minor # seen, aborts @ [minor])
                else (s1, minor # seen, aborts @ [minor]))"

definition prune :: "int list \<Rightarrow> fuseSweeper \<Rightarrow> fuseSweeper" where
  "prune seen s =
     s\<lparr>orphanStreak := orphanStreak s |` set seen, aborted := aborted s |` set seen\<rparr>"

text \<open>One sweep: the new state and the minors \<open>abort\<close> was called on, in order.\<close>

definition sweep :: "sweepInput \<Rightarrow> fuseSweeper \<Rightarrow> fuseSweeper \<times> int list" where
  "sweep inp s =
     (case in_connections inp of
        None \<Rightarrow> (s, [])
      | Some conns \<Rightarrow>
         (case in_ourMounts inp of
            None \<Rightarrow> (s, [])
          | Some mounts \<Rightarrow>
             (case in_servers inp of
                None \<Rightarrow> (s, [])
              | Some servers \<Rightarrow>
                 (let (s', seen, aborts) = foldl (sweepConn inp mounts servers) (s, [], []) conns
                  in (prune seen s', aborts)))))"

text \<open>\<open>run\<close>: one sweep per tick. The aborts of each sweep, oldest first.\<close>

fun sweepRun :: "sweepInput list \<Rightarrow> fuseSweeper \<Rightarrow> fuseSweeper \<times> int list list" where
  "sweepRun [] s = (s, [])"
| "sweepRun (i # is) s =
     (let (s1, a) = sweep i s; (s2, as) = sweepRun is s1 in (s2, a # as))"

text \<open>\<open>StartFuseSweeper\<close>: the sweep reads the host through the providers above.\<close>

definition hostSweepInput ::
  "hostFs \<Rightarrow> (string \<times> bool) option \<Rightarrow> (int \<Rightarrow> bool) \<Rightarrow> (int \<Rightarrow> bool) \<Rightarrow> sweepInput" where
  "hostSweepInput fs hostMountinfo pending abortOk =
     \<lparr>in_connections = listFuseConnections fs, in_ourMounts = listOurFuseMounts hostMountinfo,
      in_servers = listFuseServers fs, in_waiting = fuseConnWaiting fs,
      in_pending = pending, in_abortOk = abortOk\<rparr>"

section \<open>Specification over the history\<close>

text \<open>A sweep that could enumerate every input.\<close>

definition complete :: "sweepInput \<Rightarrow> bool" where
  "complete i = (in_connections i \<noteq> None \<and> in_ourMounts i \<noteq> None \<and> in_servers i \<noteq> None)"

text \<open>What a complete sweep saw of a minor: one of ours, requests waiting in the kernel, no
  handoff pending, and no live process serving one of its mountpoints.\<close>

definition orphaned :: "sweepInput \<Rightarrow> int \<Rightarrow> bool" where
  "orphaned i m =
     (case (in_connections i, in_ourMounts i, in_servers i) of
        (Some conns, Some mounts, Some servers) \<Rightarrow>
          m \<in> set conns \<and> mounts m \<noteq> [] \<and> (case in_waiting i m of None \<Rightarrow> False | Some w \<Rightarrow> 0 < w)
          \<and> \<not> in_pending i m \<and> \<not> mountHasLiveDaemon (mounts m) servers
      | _ \<Rightarrow> False)"

definition input_ok :: "sweepInput \<Rightarrow> bool" where
  "input_ok i = (case in_connections i of None \<Rightarrow> True | Some conns \<Rightarrow> distinct conns)"

text \<open>The sweeps of the current run of sightings, oldest first.\<close>

definition sightings :: "sweepInput list \<Rightarrow> int \<Rightarrow> sweepInput list" where
  "sightings hist m = rev (takeWhile (\<lambda>i. orphaned i m) (rev (filter complete hist)))"

text \<open>An abort has succeeded in the current run: from its second sighting on, an abort is
  issued until one succeeds.\<close>

definition abortedSince :: "sweepInput list \<Rightarrow> int \<Rightarrow> bool" where
  "abortedSince hist m = list_ex (\<lambda>i. in_abortOk i m) (drop 1 (sightings hist m))"

section \<open>One sweep, one minor\<close>

lemma sweepConn_other:
  assumes "m \<noteq> minor"
  shows "orphanStreak (fst (sweepConn inp mounts servers (s, seen, ab) minor)) m = orphanStreak s m"
    "aborted (fst (sweepConn inp mounts servers (s, seen, ab) minor)) m = aborted s m"
    "m \<in> set (fst (snd (sweepConn inp mounts servers (s, seen, ab) minor))) \<longleftrightarrow> m \<in> set seen"
    "m \<in> set (snd (snd (sweepConn inp mounts servers (s, seen, ab) minor))) \<longleftrightarrow> m \<in> set ab"
  using assms by (auto simp: sweepConn_def forget_def Let_def split: option.splits)

lemma foldl_sweepConn_other:
  assumes "m \<notin> set conns"
  shows "orphanStreak (fst (foldl (sweepConn inp mounts servers) (s, seen, ab) conns)) m = orphanStreak s m"
    "aborted (fst (foldl (sweepConn inp mounts servers) (s, seen, ab) conns)) m = aborted s m"
    "m \<in> set (fst (snd (foldl (sweepConn inp mounts servers) (s, seen, ab) conns))) \<longleftrightarrow> m \<in> set seen"
    "m \<in> set (snd (snd (foldl (sweepConn inp mounts servers) (s, seen, ab) conns))) \<longleftrightarrow> m \<in> set ab"
proof -
  let ?f = "\<lambda>l. foldl (sweepConn inp mounts servers) l conns"
  have "orphanStreak (fst (?f (s, seen, ab))) m = orphanStreak s m
    \<and> aborted (fst (?f (s, seen, ab))) m = aborted s m
    \<and> (m \<in> set (fst (snd (?f (s, seen, ab)))) \<longleftrightarrow> m \<in> set seen)
    \<and> (m \<in> set (snd (snd (?f (s, seen, ab)))) \<longleftrightarrow> m \<in> set ab)"
    using assms
  proof (induction conns arbitrary: s seen ab)
    case (Cons c cs)
    obtain s1 seen1 ab1 where step: "sweepConn inp mounts servers (s, seen, ab) c = (s1, seen1, ab1)"
      by (metis prod_cases3)
    from Cons.prems have "m \<noteq> c" by simp
    from sweepConn_other [OF this, of inp mounts servers s seen ab] Cons.IH [of s1 seen1 ab1] Cons.prems
    show ?case by (simp add: step)
  qed simp
  then show "orphanStreak (fst (?f (s, seen, ab))) m = orphanStreak s m"
    "aborted (fst (?f (s, seen, ab))) m = aborted s m"
    "m \<in> set (fst (snd (?f (s, seen, ab)))) \<longleftrightarrow> m \<in> set seen"
    "m \<in> set (snd (snd (?f (s, seen, ab)))) \<longleftrightarrow> m \<in> set ab"
    by blast+
qed

text \<open>What the loop over distinct connections does to one minor is its own step.\<close>

lemma foldl_sweepConn_mem:
  assumes "distinct conns" "m \<in> set conns"
  obtains s0 seen0 ab0 where
    "orphanStreak s0 m = orphanStreak s m" "aborted s0 m = aborted s m" "m \<notin> set seen0" "m \<notin> set ab0"
    "\<And>P. P (orphanStreak (fst (sweepConn inp mounts servers (s0, seen0, ab0) m)) m)
           (aborted (fst (sweepConn inp mounts servers (s0, seen0, ab0) m)) m)
           (m \<in> set (fst (snd (sweepConn inp mounts servers (s0, seen0, ab0) m))))
           (m \<in> set (snd (snd (sweepConn inp mounts servers (s0, seen0, ab0) m)))) \<Longrightarrow>
       P (orphanStreak (fst (foldl (sweepConn inp mounts servers) (s, [], []) conns)) m)
         (aborted (fst (foldl (sweepConn inp mounts servers) (s, [], []) conns)) m)
         (m \<in> set (fst (snd (foldl (sweepConn inp mounts servers) (s, [], []) conns))))
         (m \<in> set (snd (snd (foldl (sweepConn inp mounts servers) (s, [], []) conns))))"
proof -
  from assms obtain as bs where conns: "conns = as @ m # bs" "m \<notin> set as" "m \<notin> set bs"
    by (metis distinct.simps(2) distinct_append not_distinct_conv_prefix split_list Int_iff empty_iff
        list.set_intros(1))
  obtain s0 seen0 ab0 where pre: "foldl (sweepConn inp mounts servers) (s, [], []) as = (s0, seen0, ab0)"
    by (metis prod_cases3)
  obtain s1 seen1 ab1 where mid: "sweepConn inp mounts servers (s0, seen0, ab0) m = (s1, seen1, ab1)"
    by (metis prod_cases3)
  show thesis
    using that [of s0 seen0 ab0] foldl_sweepConn_other [OF conns(2), of inp mounts servers s "[]" "[]"]
      foldl_sweepConn_other [OF conns(3), of inp mounts servers s1 seen1 ab1]
    by (simp add: conns(1) pre mid)
qed

lemma completeE:
  assumes "complete i"
  obtains conns mounts servers where
    "in_connections i = Some conns" "in_ourMounts i = Some mounts" "in_servers i = Some servers"
  using assms by (auto simp: complete_def)

lemma incomplete_not_orphaned: "\<not> complete i \<Longrightarrow> \<not> orphaned i m"
  by (auto simp: complete_def orphaned_def split: option.splits)

lemma sweep_incomplete: "\<not> complete i \<Longrightarrow> sweep i s = (s, [])"
  by (auto simp: complete_def sweep_def split: option.splits)

definition streakOf :: "fuseSweeper \<Rightarrow> int \<Rightarrow> int" where
  "streakOf s m = (case orphanStreak s m of None \<Rightarrow> 0 | Some k \<Rightarrow> k)"

lemma sweepConn_not_orphaned:
  assumes "in_connections i = Some conns" "in_ourMounts i = Some mounts" "in_servers i = Some servers"
    "m \<in> set conns" "\<not> orphaned i m" "m \<notin> set seen0" "m \<notin> set ab0"
  shows "(m \<in> set (fst (snd (sweepConn i mounts servers (s0, seen0, ab0) m))) \<longrightarrow>
          orphanStreak (fst (sweepConn i mounts servers (s0, seen0, ab0) m)) m = None
          \<and> aborted (fst (sweepConn i mounts servers (s0, seen0, ab0) m)) m = None)
    \<and> m \<notin> set (snd (snd (sweepConn i mounts servers (s0, seen0, ab0) m)))"
  using assms by (auto simp: sweepConn_def forget_def orphaned_def Let_def split: option.splits)

lemma sweepConn_orphaned:
  assumes "in_connections i = Some conns" "in_ourMounts i = Some mounts" "in_servers i = Some servers"
    "orphaned i m" "m \<notin> set ab0"
  shows "m \<in> set (fst (snd (sweepConn i mounts servers (s0, seen0, ab0) m)))
    \<and> orphanStreak (fst (sweepConn i mounts servers (s0, seen0, ab0) m)) m = Some (streakOf s0 m + 1)
    \<and> aborted (fst (sweepConn i mounts servers (s0, seen0, ab0) m)) m
       = (if 1 \<le> streakOf s0 m \<and> in_abortOk i m then Some True else aborted s0 m)
    \<and> (m \<in> set (snd (snd (sweepConn i mounts servers (s0, seen0, ab0) m)))
        \<longleftrightarrow> 1 \<le> streakOf s0 m \<and> aborted s0 m \<noteq> Some True)"
  using assms
  by (auto simp: sweepConn_def orphaned_def orphanConfirmSweeps_def streakOf_def Let_def split: option.splits)

lemma sweep_not_orphaned:
  assumes "complete i" "input_ok i" "\<not> orphaned i m"
  shows "orphanStreak (fst (sweep i s)) m = None" "aborted (fst (sweep i s)) m = None"
    "m \<notin> set (snd (sweep i s))"
proof -
  obtain conns mounts servers where i: "in_connections i = Some conns"
      "in_ourMounts i = Some mounts" "in_servers i = Some servers"
    using assms(1) by (rule completeE)
  obtain s' seen ab where f: "foldl (sweepConn i mounts servers) (s, [], []) conns = (s', seen, ab)"
    by (metis prod_cases3)
  have "(m \<in> set seen \<longrightarrow> orphanStreak s' m = None \<and> aborted s' m = None) \<and> m \<notin> set ab"
  proof (cases "m \<in> set conns")
    case True
    have "distinct conns" using assms(2) i by (simp add: input_ok_def)
    then show ?thesis
    proof (rule foldl_sweepConn_mem [OF _ True, where s = s and inp = i and mounts = mounts and servers = servers])
      fix s0 seen0 ab0
      assume *: "m \<notin> set seen0" "m \<notin> set ab0"
        and lift: "\<And>P. P (orphanStreak (fst (sweepConn i mounts servers (s0, seen0, ab0) m)) m)
           (aborted (fst (sweepConn i mounts servers (s0, seen0, ab0) m)) m)
           (m \<in> set (fst (snd (sweepConn i mounts servers (s0, seen0, ab0) m))))
           (m \<in> set (snd (snd (sweepConn i mounts servers (s0, seen0, ab0) m)))) \<Longrightarrow>
         P (orphanStreak (fst (foldl (sweepConn i mounts servers) (s, [], []) conns)) m)
         (aborted (fst (foldl (sweepConn i mounts servers) (s, [], []) conns)) m)
         (m \<in> set (fst (snd (foldl (sweepConn i mounts servers) (s, [], []) conns))))
         (m \<in> set (snd (snd (foldl (sweepConn i mounts servers) (s, [], []) conns))))"
      show ?thesis
        using lift [of "\<lambda>o1 a1 sn at. (sn \<longrightarrow> o1 = None \<and> a1 = None) \<and> \<not> at",
            OF sweepConn_not_orphaned [OF i True assms(3) *]]
        by (simp add: f)
    qed
  next
    case False
    from foldl_sweepConn_other [OF False, of i mounts servers s "[]" "[]"] show ?thesis by (simp add: f)
  qed
  then show "orphanStreak (fst (sweep i s)) m = None" "aborted (fst (sweep i s)) m = None"
    "m \<notin> set (snd (sweep i s))"
    by (auto simp: sweep_def i f prune_def restrict_map_def)
qed

lemma sweep_orphaned:
  assumes "input_ok i" "orphaned i m"
  shows "orphanStreak (fst (sweep i s)) m = Some (streakOf s m + 1)"
    "aborted (fst (sweep i s)) m
       = (if 1 \<le> streakOf s m \<and> in_abortOk i m then Some True else aborted s m)"
    "m \<in> set (snd (sweep i s)) \<longleftrightarrow> 1 \<le> streakOf s m \<and> aborted s m \<noteq> Some True"
proof -
  have "complete i" using assms(2) incomplete_not_orphaned by blast
  then obtain conns mounts servers where i: "in_connections i = Some conns"
      "in_ourMounts i = Some mounts" "in_servers i = Some servers"
    by (rule completeE)
  have True: "m \<in> set conns" using assms(2) i by (simp add: orphaned_def)
  have d: "distinct conns" using assms(1) i by (simp add: input_ok_def)
  obtain s' seen ab where f: "foldl (sweepConn i mounts servers) (s, [], []) conns = (s', seen, ab)"
    by (metis prod_cases3)
  have "m \<in> set seen \<and> orphanStreak s' m = Some (streakOf s m + 1)
    \<and> aborted s' m = (if 1 \<le> streakOf s m \<and> in_abortOk i m then Some True else aborted s m)
    \<and> (m \<in> set ab \<longleftrightarrow> 1 \<le> streakOf s m \<and> aborted s m \<noteq> Some True)"
  proof (rule foldl_sweepConn_mem [OF d True, where s = s and inp = i and mounts = mounts and servers = servers])
    fix s0 seen0 ab0
    assume *: "m \<notin> set seen0" "m \<notin> set ab0" "orphanStreak s0 m = orphanStreak s m" "aborted s0 m = aborted s m"
      and lift: "\<And>P. P (orphanStreak (fst (sweepConn i mounts servers (s0, seen0, ab0) m)) m)
           (aborted (fst (sweepConn i mounts servers (s0, seen0, ab0) m)) m)
           (m \<in> set (fst (snd (sweepConn i mounts servers (s0, seen0, ab0) m))))
           (m \<in> set (snd (snd (sweepConn i mounts servers (s0, seen0, ab0) m)))) \<Longrightarrow>
         P (orphanStreak (fst (foldl (sweepConn i mounts servers) (s, [], []) conns)) m)
         (aborted (fst (foldl (sweepConn i mounts servers) (s, [], []) conns)) m)
         (m \<in> set (fst (snd (foldl (sweepConn i mounts servers) (s, [], []) conns))))
         (m \<in> set (snd (snd (foldl (sweepConn i mounts servers) (s, [], []) conns))))"
    have same: "streakOf s0 m = streakOf s m" by (simp add: streakOf_def *)
    show ?thesis
      using lift [of "\<lambda>o1 a1 sn at. sn \<and> o1 = Some (streakOf s0 m + 1)
          \<and> a1 = (if 1 \<le> streakOf s0 m \<and> in_abortOk i m then Some True else aborted s0 m)
          \<and> (at \<longleftrightarrow> 1 \<le> streakOf s0 m \<and> aborted s0 m \<noteq> Some True)",
          OF sweepConn_orphaned [OF i assms(2) *(2)]]
      by (simp add: f same *(4))
  qed
  then show "orphanStreak (fst (sweep i s)) m = Some (streakOf s m + 1)"
    "aborted (fst (sweep i s)) m
       = (if 1 \<le> streakOf s m \<and> in_abortOk i m then Some True else aborted s m)"
    "m \<in> set (snd (sweep i s)) \<longleftrightarrow> 1 \<le> streakOf s m \<and> aborted s m \<noteq> Some True"
    by (auto simp: sweep_def i f prune_def restrict_map_def)
qed

section \<open>The sweeper implements the specification\<close>

lemma sightings_snoc:
  "sightings (hist @ [i]) m =
     (if \<not> complete i then sightings hist m
      else if orphaned i m then sightings hist m @ [i] else [])"
  by (simp add: sightings_def)

lemma sweepRun_append:
  "sweepRun (is @ js) s =
     (let (s1, as) = sweepRun is s; (s2, bs) = sweepRun js s1 in (s2, as @ bs))"
  by (induction "is" arbitrary: s) (auto simp: Let_def split: prod.splits)

lemma fst_sweepRun_snoc: "fst (sweepRun (hist @ [i]) s) = fst (sweep i (fst (sweepRun hist s)))"
  by (simp add: sweepRun_append Let_def split: prod.splits)

text \<open>The abstraction: streaks are lengths of the current run of sightings, the aborted marks
  say whether an abort succeeded in it.\<close>

definition implements :: "sweepInput list \<Rightarrow> fuseSweeper \<Rightarrow> bool" where
  "implements hist s \<longleftrightarrow> (\<forall>m.
     orphanStreak s m = (if sightings hist m = [] then None else Some (int (length (sightings hist m))))
     \<and> aborted s m = (if abortedSince hist m then Some True else None))"

lemma streakOf_implements: "implements hist s \<Longrightarrow> streakOf s m = int (length (sightings hist m))"
  by (auto simp: implements_def streakOf_def)

lemma abortedSince_snoc:
  "abortedSince (hist @ [i]) m =
     (if \<not> complete i then abortedSince hist m
      else orphaned i m \<and> (abortedSince hist m \<or> sightings hist m \<noteq> [] \<and> in_abortOk i m))"
  by (cases "sightings hist m") (auto simp: abortedSince_def sightings_snoc)

lemma implements_step:
  assumes "implements hist s" "input_ok i"
  shows "implements (hist @ [i]) (fst (sweep i s))"
  unfolding implements_def
proof (rule allI)
  fix m
  show "orphanStreak (fst (sweep i s)) m =
      (if sightings (hist @ [i]) m = [] then None else Some (int (length (sightings (hist @ [i]) m))))
    \<and> aborted (fst (sweep i s)) m = (if abortedSince (hist @ [i]) m then Some True else None)"
  proof (cases "complete i")
    case False
    then show ?thesis
      using assms(1) by (simp add: sweep_incomplete sightings_snoc abortedSince_snoc implements_def)
  next
    case True
    show ?thesis
    proof (cases "orphaned i m")
      case True
      have "complete i" using True incomplete_not_orphaned by blast
      with True streakOf_implements [OF assms(1), of m] assms(1)
      show ?thesis
        by (auto simp: sweep_orphaned [OF assms(2) True] sightings_snoc abortedSince_snoc
            implements_def Suc_le_eq)
    next
      case False
      with \<open>complete i\<close> assms(2) show ?thesis
        by (simp add: sweep_not_orphaned sightings_snoc abortedSince_snoc)
    qed
  qed
qed

lemma implements_init: "implements [] newFuseSweeper"
  by (simp add: implements_def newFuseSweeper_def sightings_def abortedSince_def)

lemma implements_run: "list_all input_ok hist \<Longrightarrow> implements hist (fst (sweepRun hist newFuseSweeper))"
proof (induction hist rule: rev_induct)
  case (snoc i hist)
  then show ?case
    using implements_step [of hist "fst (sweepRun hist newFuseSweeper)" i]
    by (simp add: fst_sweepRun_snoc)
qed (simp add: implements_init)

section \<open>Live daemons are recognised\<close>

lemma scanFds_holds:
  assumes "e \<in> set es" "Readlink fs (pathJoin [d, e]) = Inr devFuse"
  shows "scanFds fs d es \<noteq> Some False"
  using assms by (induction es) (auto split: sum.splits)

text \<open>The process scan either fails or lists every readable process that holds \<open>/dev/fuse\<close>.\<close>

lemma scanProcs_complete:
  assumes "scanProcs fs es = Some servers" "e \<in> set es" "Atoi e = Some pid"
    "processHoldsDevFuse fs pid \<noteq> Some False"
    "ReadFile fs (pathJoin [procDir, e, ''cmdline'']) = Inr cmdline"
    "ReadFile fs (pathJoin [procDir, e, ''cgroup'']) = Inr cgroup"
  shows "\<lparr>srv_pid = pid, srv_cmdline = cmdlineToString cmdline, srv_cgroup = cgroup\<rparr> \<in> set servers"
  using assms
  by (induction es arbitrary: servers) (auto split: option.splits sum.splits bool.splits if_splits)

definition argvBytes :: "string list \<Rightarrow> string" where
  "argvBytes argv = concat (map (\<lambda>a. a @ [CHR 0x00]) argv)"

lemma dropWhile_append_keep:
  "x \<in> set xs \<Longrightarrow> \<not> P x \<Longrightarrow> dropWhile P (xs @ ys) = dropWhile P xs @ ys"
  by (induction xs) auto

lemma Trim_mid:
  assumes "w \<noteq> []" "b \<notin> set w"
  shows "\<exists>s' t'. Trim (s @ w @ t) b = s' @ w @ t'"
proof -
  have h: "hd w \<in> set w" "hd w \<noteq> b" using assms by auto
  have "dropWhile (\<lambda>c. c = b) w = w" using h by (intro dropWhile_idI) simp
  have "\<exists>s'. dropWhile (\<lambda>c. c = b) (s @ w @ t) = s' @ w @ t"
  proof (induction s)
    case Nil
    then show ?case
      using dropWhile_append_keep [of "hd w" w "\<lambda>c. c = b" t] h \<open>dropWhile _ w = w\<close> by (auto intro: exI [of _ "[]"])
  next
    case (Cons c s)
    then show ?case by (auto intro: exI [of _ "c # s"])
  qed
  then obtain s' where s': "dropWhile (\<lambda>c. c = b) (s @ w @ t) = s' @ w @ t" by blast
  have "\<exists>t'. dropWhile (\<lambda>c. c = b) (rev t @ rev w @ rev s') = t' @ rev w @ rev s'"
  proof (induction t rule: rev_induct)
    case Nil
    have "last w \<in> set w" "last w \<noteq> b" using assms by (auto dest: last_in_set)
    then have "dropWhile (\<lambda>c. c = b) (rev w) = rev w"
      using assms by (intro dropWhile_idI) (simp add: hd_rev)
    then show ?case
      using dropWhile_append_keep [of "hd w" "rev w" "\<lambda>c. c = b" "rev s'"] h by (auto intro: exI [of _ "[]"])
  next
    case (snoc c t)
    then show ?case by (auto intro: exI [of _ "c # rev t"])
  qed
  then obtain t' where t': "dropWhile (\<lambda>c. c = b) (rev t @ rev w @ rev s') = t' @ rev w @ rev s'" by blast
  have "Trim (s @ w @ t) b = s' @ w @ rev t'" by (simp add: Trim_def s' t')
  then show ?thesis by blast
qed

lemma cmdline_contains_arg:
  assumes "a \<in> set argv" "a \<noteq> []" "CHR 0x00 \<notin> set a"
  shows "Contains (cmdlineToString (argvBytes argv)) a"
proof -
  obtain xs ys where "argv = xs @ a # ys" using assms(1) by (meson split_list)
  then have "argvBytes argv = argvBytes xs @ a @ (CHR 0x00 # argvBytes ys)"
    by (simp add: argvBytes_def)
  then obtain s t where "Trim (argvBytes argv) (CHR 0x00) = s @ a @ t"
    using Trim_mid [OF assms(2,3)] by metis
  then show ?thesis using assms(3) by (simp add: cmdlineToString_def ContainsI)
qed

lemma mountHasLiveDaemonI:
  assumes "srv \<in> set servers" "mp \<in> set mps"
    "(\<exists>v. volumeIDForMount mp = Some v \<and> v \<noteq> [] \<and> Contains (srv_cmdline srv) (containerMountPathPrefix @ v))
     \<or> (\<exists>u. podUIDForMount mp = Some u \<and> u \<noteq> [] \<and> cgroupHasPodUID (srv_cgroup srv) u)"
  shows "mountHasLiveDaemon mps servers"
  using assms unfolding mountHasLiveDaemon_def servesVolume_def list_ex_iff List.map_filter_def
  by force

text \<open>A live process: it is listed, has a descriptor on \<open>/dev/fuse\<close> and can be read.\<close>

definition holdsFuse :: "hostFs \<Rightarrow> int \<Rightarrow> string list \<Rightarrow> string \<Rightarrow> bool" where
  "holdsFuse fs pid argv cgroup \<longleftrightarrow> 0 \<le> pid \<and> pid < 2 ^ 63
     \<and> (\<exists>es. ReadDir fs procDir = Inr es \<and> Itoa pid \<in> set es)
     \<and> (\<exists>fds. ReadDir fs (pathJoin [procDir, Itoa pid, ''fd'']) = Inr fds
          \<and> (\<exists>fd \<in> set fds. Readlink fs (pathJoin [pathJoin [procDir, Itoa pid, ''fd''], fd]) = Inr devFuse))
     \<and> ReadFile fs (pathJoin [procDir, Itoa pid, ''cmdline'']) = Inr (argvBytes argv)
     \<and> ReadFile fs (pathJoin [procDir, Itoa pid, ''cgroup'']) = Inr cgroup"

lemma holdsFuse_listed:
  assumes "holdsFuse fs pid argv cgroup" "listFuseServers fs = Some servers"
  shows "\<lparr>srv_pid = pid, srv_cmdline = cmdlineToString (argvBytes argv), srv_cgroup = cgroup\<rparr> \<in> set servers"
proof -
  have "Atoi (Itoa pid) = Some pid" using assms(1) by (intro Atoi_Itoa) (auto simp: holdsFuse_def)
  moreover have "processHoldsDevFuse fs pid \<noteq> Some False"
    using assms(1) scanFds_holds by (auto simp: holdsFuse_def processHoldsDevFuse_def Let_def)
  ultimately show ?thesis
    using assms by (auto simp: holdsFuse_def listFuseServers_def intro!: scanProcs_complete)
qed

lemma served_not_aborted:
  assumes "input_ok (hostSweepInput fs mi pending abortOk)" "holdsFuse fs pid argv cgroup"
    "listOurFuseMounts mi = Some mounts" "mp \<in> set (mounts m)"
    "(\<exists>v. volumeIDForMount mp = Some v \<and> v \<noteq> []
        \<and> Contains (cmdlineToString (argvBytes argv)) (containerMountPathPrefix @ v))
     \<or> (\<exists>u. podUIDForMount mp = Some u \<and> u \<noteq> [] \<and> cgroupHasPodUID cgroup u)"
  shows "m \<notin> set (snd (sweep (hostSweepInput fs mi pending abortOk) s))"
proof (cases "complete (hostSweepInput fs mi pending abortOk)")
  case True
  then obtain servers where sv: "listFuseServers fs = Some servers"
    by (auto simp: complete_def hostSweepInput_def)
  have "mountHasLiveDaemon (mounts m) servers"
    using mountHasLiveDaemonI [OF holdsFuse_listed [OF assms(2) sv] assms(4)] assms(5) by simp
  then have "\<not> orphaned (hostSweepInput fs mi pending abortOk) m"
    by (auto simp: orphaned_def hostSweepInput_def assms(3) sv split: option.splits)
  with True assms(1) show ?thesis by (rule sweep_not_orphaned(3))
qed (simp add: sweep_incomplete)

lemma normUID_filter: "normUID s = filter (\<lambda>c. c \<noteq> CHR ''_'' \<and> c \<noteq> CHR ''-'') (ToLower s)"
  by (simp add: normUID_def ReplaceAll_empty_filter conj_commute)

lemma normUID_append: "normUID (s @ t) = normUID s @ normUID t"
  by (simp add: normUID_filter)

lemma toLowerByte_dash: "toLowerByte (CHR ''-'') = CHR ''-''" "toLowerByte (CHR ''_'') = CHR ''_''"
  by (simp_all add: toLowerByte_def)

definition systemdMangle :: "string \<Rightarrow> string" where
  "systemdMangle uid = map (\<lambda>c. if c = CHR ''-'' then CHR ''_'' else c) uid"

lemma normUID_mangle: "normUID (systemdMangle uid) = normUID uid"
  by (induction uid) (auto simp: normUID_filter systemdMangle_def ToLower_def toLowerByte_dash)

text \<open>
  (C21) A mount whose daemon is alive is never aborted, mount-pod mode: when some process holds
  \<open>/dev/fuse\<close> and has the in-container path \<open>/mnt/hf/<mountID(target)>\<close> among its
  arguments, no sweep aborts a connection mounted at the source path of that target or bound
  at the target itself, whatever else the host reports and whatever the sweeper remembers.
\<close>

theorem live_mount_pod_never_aborted:
  assumes "input_ok (hostSweepInput fs mi pending abortOk)" "holdsFuse fs pid argv cgroup"
    "containerMountPathPrefix @ mountID target \<in> set argv"
    "listOurFuseMounts mi = Some mounts"
    "pathJoin [mountBaseDir, mountID target] \<in> set (mounts m)
     \<or> target \<in> set (mounts m) \<and> HasPrefix target podsPrefix \<and> Contains target kubeletCSIMarker"
  shows "m \<notin> set (snd (sweep (hostSweepInput fs mi pending abortOk) s))"
proof -
  have ne: "mountID target \<noteq> []" using length_mountID [of target] by (auto simp del: length_mountID)
  have "CHR 0x00 \<notin> set (mountID target)"
    using mountID_hex [of "CHR 0x00" target] by (auto simp: is_hex_def)
  then have c: "Contains (cmdlineToString (argvBytes argv)) (containerMountPathPrefix @ mountID target)"
    by (intro cmdline_contains_arg assms) (simp_all add: containerMountPathPrefix_def)
  from assms(5) obtain mp where mp: "mp \<in> set (mounts m)" "volumeIDForMount mp = Some (mountID target)"
  proof (elim disjE conjE)
    assume "pathJoin [mountBaseDir, mountID target] \<in> set (mounts m)"
    then show ?thesis
      using that [of "mountBaseDir @ slash # mountID target"] Base_sourcePath [of target]
      by (simp add: sourcePath_eq volumeIDForMount_def)
  next
    assume *: "target \<in> set (mounts m)" "HasPrefix target podsPrefix" "Contains target kubeletCSIMarker"
    then have "\<not> HasPrefix target (mountBaseDir @ ''/'')"
      by (auto simp: prefix_def podsPrefix_def mountBaseDir_def)
    with * show ?thesis using that [of target] by (simp add: volumeIDForMount_def)
  qed
  show ?thesis
    using served_not_aborted [OF assms(1,2,4) mp(1)] mp(2) ne c by simp
qed

text \<open>
  (C22) A mount whose daemon is alive is never aborted, sidecar mode: the daemon carries no path
  in its arguments, but when its cgroup names the pod UID, as such or with the dashes turned
  to underscores as systemd does, no sweep aborts a connection mounted at a publish target of
  that pod.
\<close>

theorem live_sidecar_never_aborted:
  assumes "input_ok (hostSweepInput fs mi pending abortOk)" "holdsFuse fs pid argv cgroup"
    "cgroup = before @ uid' @ after" "uid' = uid \<or> uid' = systemdMangle uid"
    "\<exists>c \<in> set uid. c \<notin> {CHR ''-'', CHR ''_''}" "slash \<notin> set uid"
    "listOurFuseMounts mi = Some mounts" "podsPrefix @ uid @ kubeletCSIMarker @ vol \<in> set (mounts m)"
  shows "m \<notin> set (snd (sweep (hostSweepInput fs mi pending abortOk) s))"
proof -
  have "normUID uid \<noteq> []"
  proof -
    obtain c where c: "c \<in> set uid" "c \<noteq> CHR ''-''" "c \<noteq> CHR ''_''" using assms(5) by auto
    have "toLowerByte c \<noteq> CHR ''-'' \<and> toLowerByte c \<noteq> CHR ''_''"
      using c(2,3) by (auto simp: toLowerByte_def dest: arg_cong [of _ _ "of_char :: char \<Rightarrow> nat"])
    then have "toLowerByte c \<in> set (normUID uid)" using c(1) by (simp add: normUID_filter ToLower_def)
    then show ?thesis by auto
  qed
  moreover have "normUID cgroup = normUID before @ normUID uid @ normUID after"
    using assms(3,4) normUID_mangle [of uid] by (auto simp: normUID_append)
  ultimately have "cgroupHasPodUID cgroup uid" by (simp add: cgroupHasPodUID_def ContainsI)
  moreover have "uid \<noteq> []" using assms(5) by auto
  moreover have "podUIDForMount (podsPrefix @ uid @ kubeletCSIMarker @ vol) = Some uid"
    using podUIDForMount_kubelet assms(6) \<open>uid \<noteq> []\<close> by blast
  ultimately show ?thesis using served_not_aborted [OF assms(1,2,7,8)] by blast
qed

section \<open>The abort decision\<close>

text \<open>
  (C38) Refinement: after any sequence of sweeps with arbitrary answers from the host, the
  sweeper's two maps are the specification's view of that history: the streak of a connection
  is the number of consecutive complete sweeps that saw it orphaned, and it is marked aborted
  exactly when an abort succeeded within that run.
\<close>

theorem sweeper_refines_history:
  assumes "list_all input_ok hist"
  shows "implements hist (fst (sweepRun hist newFuseSweeper))"
  using assms by (rule implements_run)

lemma sweep_aborts:
  assumes "list_all input_ok hist" "input_ok i"
  shows "m \<in> set (snd (sweep i (fst (sweepRun hist newFuseSweeper)))) \<longleftrightarrow>
     orphaned i m \<and> sightings hist m \<noteq> [] \<and> \<not> abortedSince hist m"
proof (cases "orphaned i m")
  case True
  have im: "implements hist (fst (sweepRun hist newFuseSweeper))" using assms(1) by (rule implements_run)
  have "aborted (fst (sweepRun hist newFuseSweeper)) m = (if abortedSince hist m then Some True else None)"
    using im by (simp add: implements_def)
  then show ?thesis
    using sweep_orphaned(3) [OF assms(2) True, of "fst (sweepRun hist newFuseSweeper)"] True
    by (simp add: streakOf_implements [OF im] Suc_le_eq)
next
  case False
  then show ?thesis
    using sweep_not_orphaned(3) [OF _ assms(2) False] by (cases "complete i") (auto simp: sweep_incomplete)
qed

lemma sightings_nonempty:
  "sightings hist m \<noteq> [] \<longleftrightarrow> filter complete hist \<noteq> [] \<and> orphaned (last (filter complete hist)) m"
  by (cases "filter complete hist" rule: rev_cases) (auto simp: sightings_def)

text \<open>
  (C1) The abort decision is exact: the next sweep aborts a connection if and only if it is
  orphaned now, the complete sweep before this one already saw it orphaned, and no abort has
  succeeded since the run of sightings began. In particular a foreign, pending, idle or served
  connection is never aborted, a single sighting never aborts, and a sweep that could not
  enumerate its inputs aborts nothing.
\<close>

theorem sweep_abort_iff:
  assumes "list_all input_ok hist" "input_ok i"
  shows "m \<in> set (snd (sweep i (fst (sweepRun hist newFuseSweeper)))) \<longleftrightarrow>
     orphaned i m \<and> filter complete hist \<noteq> [] \<and> orphaned (last (filter complete hist)) m
     \<and> \<not> abortedSince hist m"
  using sweep_aborts [OF assms] by (simp add: sightings_nonempty)

lemma sightings_gap:
  "list_all (\<lambda>i. \<not> complete i) gap \<Longrightarrow> sightings (hist @ gap) m = sightings hist m"
  by (simp add: sightings_def list_all_iff filter_empty_conv)

text \<open>
  Progress: a connection that becomes orphaned and stays so is aborted by the second
  complete sweep that sees it, however many sweeps fail to enumerate their inputs in between.
\<close>

theorem fresh_orphan_aborted:
  assumes "list_all input_ok (hist @ [i1] @ gap)" "input_ok i2"
    "sightings hist m = []" "orphaned i1 m" "list_all (\<lambda>i. \<not> complete i) gap" "orphaned i2 m"
  shows "m \<in> set (snd (sweep i2 (fst (sweepRun (hist @ [i1] @ gap) newFuseSweeper))))"
proof -
  have "complete i1" using assms(4) incomplete_not_orphaned by blast
  then have "sightings (hist @ [i1] @ gap) m = [i1]"
    using sightings_gap [OF assms(5), of "hist @ [i1]" m] assms(3,4) by (simp add: sightings_snoc)
  then show ?thesis
    using sweep_aborts [OF assms(1,2), of m] assms(6) by (simp add: abortedSince_def)
qed

section \<open>Instances\<close>

definition orphanInput :: sweepInput where
  "orphanInput =
     \<lparr>in_connections = Some [3, 4], in_ourMounts = Some (\<lambda>m. if m = 3 then [''/a''] else []),
      in_servers = Some [], in_waiting = (\<lambda>m. Some 1), in_pending = (\<lambda>m. False), in_abortOk = (\<lambda>m. True)\<rparr>"

definition blindInput :: sweepInput where
  "blindInput = orphanInput\<lparr>in_servers := None\<rparr>"

lemmas sample_sweep = orphanInput_def blindInput_def input_ok_def orphaned_def complete_def
  mountHasLiveDaemon_def sightings_def abortedSince_def

theorem sweeper_refines_history_witness:
  "implements [orphanInput, blindInput, orphanInput]
     (fst (sweepRun [orphanInput, blindInput, orphanInput] newFuseSweeper))"
  by (rule sweeper_refines_history) (simp add: sample_sweep)

theorem sweep_abort_iff_witness:
  "3 \<in> set (snd (sweep orphanInput (fst (sweepRun [orphanInput] newFuseSweeper))))
   \<and> 4 \<notin> set (snd (sweep orphanInput (fst (sweepRun [orphanInput] newFuseSweeper))))"
  using sweep_abort_iff [of "[orphanInput]" orphanInput 3] sweep_abort_iff [of "[orphanInput]" orphanInput 4]
  by (simp add: sample_sweep)

theorem fresh_orphan_aborted_witness:
  "3 \<in> set (snd (sweep orphanInput (fst (sweepRun [orphanInput, blindInput] newFuseSweeper))))"
  using fresh_orphan_aborted [of "[]" orphanInput "[blindInput]" orphanInput 3]
  by (simp add: sample_sweep)

text \<open>A host with one fuse connection, one publish target on it, and one process that holds
  \<open>/dev/fuse\<close>.\<close>

definition sampleTarget :: string where
  "sampleTarget = ''/var/lib/kubelet/pods/u-1/volumes/kubernetes.io~csi/v/mount''"

definition sampleMountinfo :: "(string \<times> bool) option" where
  "sampleMountinfo = Some (render [sampleEntry 3 sampleTarget ''fuse'' ''hf-mount''], False)"

definition sampleHost :: "string list \<Rightarrow> string \<Rightarrow> hostFs" where
  "sampleHost argv cgroup =
     \<lparr>ReadDir = (\<lambda>p. Inr (if p = ''/proc'' then [''7''] else [''3''])),
      Readlink = (\<lambda>p. Inr devFuse),
      ReadFile = (\<lambda>p. Inr (if p = ''/proc/7/cmdline'' then argvBytes argv
                         else if p = ''/proc/7/cgroup'' then cgroup else ''1''))\<rparr>"

lemma Itoa_7: "Itoa 7 = ''7''"
  by (auto simp: Itoa_def decString.simps intro!: char_of_eqI)

lemma sampleHost_holds: "holdsFuse (sampleHost argv cgroup) 7 argv cgroup"
  by (simp add: holdsFuse_def sampleHost_def procDir_def Itoa_7 path_simps pathJoin_def Clean_def
      pathComps_def rooted_def)

lemma sampleMountinfo_ours:
  "\<exists>mounts. listOurFuseMounts sampleMountinfo = Some mounts \<and> sampleTarget \<in> set (mounts 3)"
proof -
  have "list_all (entry_ok bigBuffer) [sampleEntry 3 sampleTarget ''fuse'' ''hf-mount'']"
    by (simp add: sample_defs bigBuffer_def sampleTarget_def)
  then show ?thesis
    by (simp add: listOurFuseMounts_def sampleMountinfo_def parseFuseMounts_rendered is_fuse_def
        fuse_of_def sampleEntry_def isOurFuseMount_def fuseMountSource_def)
qed

lemma sampleHost_input: "input_ok (hostSweepInput (sampleHost argv cgroup) mi pending abortOk)"
  by (simp add: input_ok_def hostSweepInput_def sampleHost_def listFuseConnections_def fuseConnDir_def
      List.map_filter_def Atoi_def isDigit_def)

theorem live_mount_pod_never_aborted_witness:
  "3 \<notin> set (snd (sweep
     (hostSweepInput (sampleHost [''hf-mount-fuse'', containerMountPathPrefix @ mountID sampleTarget] ''0::/x'')
        sampleMountinfo (\<lambda>_. False) (\<lambda>_. True)) \<lparr>orphanStreak = [3 \<mapsto> 5], aborted = Map.empty\<rparr>))"
proof -
  obtain mounts where "listOurFuseMounts sampleMountinfo = Some mounts" "sampleTarget \<in> set (mounts 3)"
    using sampleMountinfo_ours by blast
  moreover have "HasPrefix sampleTarget podsPrefix" "Contains sampleTarget kubeletCSIMarker"
    by (simp_all add: sampleTarget_def podsPrefix_def kubeletCSIMarker_def Contains_def)
  ultimately show ?thesis
    by (intro live_mount_pod_never_aborted [OF sampleHost_input sampleHost_holds, where target = sampleTarget])
       auto
qed

theorem live_sidecar_never_aborted_witness:
  "3 \<notin> set (snd (sweep
     (hostSweepInput (sampleHost [''hf-mount-fuse-sidecar''] ''0::/kubepods-podu_1.slice'')
        sampleMountinfo (\<lambda>_. False) (\<lambda>_. True)) \<lparr>orphanStreak = [3 \<mapsto> 5], aborted = Map.empty\<rparr>))"
proof -
  obtain mounts where "listOurFuseMounts sampleMountinfo = Some mounts" "sampleTarget \<in> set (mounts 3)"
    using sampleMountinfo_ours by blast
  moreover have "sampleTarget = podsPrefix @ ''u-1'' @ kubeletCSIMarker @ ''v/mount''"
    by (simp add: sampleTarget_def podsPrefix_def kubeletCSIMarker_def)
  ultimately show ?thesis
    by (intro live_sidecar_never_aborted [OF sampleHost_input sampleHost_holds,
          where uid = "''u-1''" and uid' = "''u_1''" and before = "''0::/kubepods-pod''"
            and after = "''.slice''" and vol = "''v/mount''"])
       (auto simp: systemdMangle_def)
qed

end
