(* ===== verification/Resources.thy ===== *)
theory Resources
  imports Go_Strings
begin

text \<open>
  Resource requests and limits of the FUSE daemon container (\<open>pkg/driver/resources.go\<close>) and
  the merge of per-volume hints (\<open>pkg/webhook/handler.go\<close>).

  The quantity type of apimachinery is not part of the repository: it is the type variable
  \<open>'q\<close> with its operations in the record \<open>quantityOps\<close>. What the code relies on is stated
  by \<open>cmp_law\<close> (\<open>Cmp\<close> compares values: a total preorder) and \<open>print_law\<close> (\<open>String\<close>
  prints a non-empty text that parses to an equal value). The values of an unstructured
  Kubernetes object are the datatype \<open>json\<close>.
\<close>

section \<open>Quantities and unstructured values\<close>

record 'q quantityOps =
  ParseQuantity :: "string \<Rightarrow> 'q option"
  Cmp :: "'q \<Rightarrow> 'q \<Rightarrow> int"
  QString :: "'q \<Rightarrow> string"

definition cmp_law :: "'q quantityOps \<Rightarrow> bool" where
  "cmp_law ops \<longleftrightarrow>
     (\<forall>a b. Cmp ops b a = - Cmp ops a b)
     \<and> (\<forall>a b c. Cmp ops a b \<le> 0 \<longrightarrow> Cmp ops b c \<le> 0 \<longrightarrow> Cmp ops a c \<le> 0)"

definition print_law :: "'q quantityOps \<Rightarrow> bool" where
  "print_law ops \<longleftrightarrow>
     (\<forall>q. QString ops q \<noteq> [] \<and> (\<exists>q'. ParseQuantity ops (QString ops q) = Some q' \<and> Cmp ops q' q = 0))"

datatype json = JString string | JInt int | JList "json list" | JMap "(string \<times> json) list" | JNull

text \<open>Go's checked type assertions on a value that may be absent: the zero value otherwise.\<close>

fun asString :: "json option \<Rightarrow> string" where
  "asString (Some (JString s)) = s"
| "asString _ = []"

fun asList :: "json option \<Rightarrow> json list" where
  "asList (Some (JList l)) = l"
| "asList _ = []"

fun asMap :: "json option \<Rightarrow> (string, json) gomap" where
  "asMap (Some (JMap m)) = m"
| "asMap _ = []"

section \<open>Overrides\<close>

definition volumeCtxCPULimit :: string where
  "volumeCtxCPULimit = ''cpuLimit''"

definition volumeCtxCPURequest :: string where
  "volumeCtxCPURequest = ''cpuRequest''"

definition volumeCtxMemoryLimit :: string where
  "volumeCtxMemoryLimit = ''memoryLimit''"

definition volumeCtxMemoryRequest :: string where
  "volumeCtxMemoryRequest = ''memoryRequest''"

lemmas volumeCtx_defs = volumeCtxCPULimit_def volumeCtxCPURequest_def volumeCtxMemoryLimit_def
  volumeCtxMemoryRequest_def

record 'q MountResources =
  CPULimit :: "'q option"
  CPURequest :: "'q option"
  MemoryLimit :: "'q option"
  MemoryRequest :: "'q option"

definition noResources :: "'q MountResources" where
  "noResources = \<lparr>CPULimit = None, CPURequest = None, MemoryLimit = None, MemoryRequest = None\<rparr>"

definition parseQuantityAttr :: "'q quantityOps \<Rightarrow> string \<Rightarrow> 'q option" where
  "parseQuantityAttr ops raw = (if raw = [] then None else ParseQuantity ops raw)"

text \<open>\<open>attrs[key]\<close> is the empty string for an absent key.\<close>

definition attr :: "(string \<rightharpoonup> string) \<Rightarrow> string \<Rightarrow> string" where
  "attr m k = (case m k of None \<Rightarrow> [] | Some v \<Rightarrow> v)"

definition ParseMountResources :: "'q quantityOps \<Rightarrow> (string \<rightharpoonup> string) \<Rightarrow> 'q MountResources" where
  "ParseMountResources ops attrs =
     \<lparr>CPULimit = parseQuantityAttr ops (attr attrs volumeCtxCPULimit),
      CPURequest = parseQuantityAttr ops (attr attrs volumeCtxCPURequest),
      MemoryLimit = parseQuantityAttr ops (attr attrs volumeCtxMemoryLimit),
      MemoryRequest = parseQuantityAttr ops (attr attrs volumeCtxMemoryRequest)\<rparr>"

definition putField ::
  "'q quantityOps \<Rightarrow> string \<Rightarrow> 'q option \<Rightarrow> (string, string) gomap \<Rightarrow> (string, string) gomap" where
  "putField ops key f m = (case f of None \<Rightarrow> m | Some q \<Rightarrow> put_key key (QString ops q) m)"

definition ToStringMap :: "'q quantityOps \<Rightarrow> 'q MountResources \<Rightarrow> (string, string) gomap" where
  "ToStringMap ops r =
     (let m0 = [];
          m1 = putField ops volumeCtxCPULimit (CPULimit r) m0;
          m2 = putField ops volumeCtxCPURequest (CPURequest r) m1;
          m3 = putField ops volumeCtxMemoryLimit (MemoryLimit r) m2
      in putField ops volumeCtxMemoryRequest (MemoryRequest r) m3)"

text \<open>\<open>ToUnstructured\<close>: \<open>None\<close> is the nil map.\<close>

definition ToUnstructured :: "'q quantityOps \<Rightarrow> 'q MountResources \<Rightarrow> (string, json) gomap option" where
  "ToUnstructured ops r =
     (let src = ToStringMap ops r in
      if src = [] then None else Some (map (\<lambda>(k, v). (k, JString v)) src))"

definition stringEntries :: "(string, json) gomap \<Rightarrow> (string \<rightharpoonup> string)" where
  "stringEntries raw = map_of (List.map_filter (\<lambda>(k, v). case v of JString s \<Rightarrow> Some (k, s) | _ \<Rightarrow> None) raw)"

definition MountResourcesFromUnstructured :: "'q quantityOps \<Rightarrow> (string, json) gomap \<Rightarrow> 'q MountResources" where
  "MountResourcesFromUnstructured ops raw = ParseMountResources ops (stringEntries raw)"

section \<open>Defaults\<close>

record 'q resourceDefaults =
  DefaultMountCPURequest :: 'q
  DefaultMountMemoryRequest :: 'q
  DefaultMountMemoryRequestReadOnly :: 'q

datatype flagError = InvalidDefault string | InvalidReadOnlyDefault string

definition SetDefaultMemoryRequests ::
  "'q quantityOps \<Rightarrow> string \<Rightarrow> string \<Rightarrow> 'q resourceDefaults \<Rightarrow> flagError option \<times> 'q resourceDefaults" where
  "SetDefaultMemoryRequests ops writable readOnly d =
     (case ParseQuantity ops writable of
        None \<Rightarrow> (Some (InvalidDefault writable), d)
      | Some w \<Rightarrow>
         (case ParseQuantity ops readOnly of
            None \<Rightarrow> (Some (InvalidReadOnlyDefault readOnly), d)
          | Some r \<Rightarrow>
             (None, d\<lparr>DefaultMountMemoryRequest := w, DefaultMountMemoryRequestReadOnly := r\<rparr>)))"

definition DefaultMemoryRequestFor :: "'q resourceDefaults \<Rightarrow> bool \<Rightarrow> 'q" where
  "DefaultMemoryRequestFor d readOnly =
     (if readOnly then DefaultMountMemoryRequestReadOnly d else DefaultMountMemoryRequest d)"

definition ReadOnlyFromArgs :: "string list \<Rightarrow> bool" where
  "ReadOnlyFromArgs args = list_ex (\<lambda>a. a = ''--read-only'' \<or> a = ''repo'') args"

section \<open>Requirements\<close>

datatype resourceName = ResourceCPU | ResourceMemory

type_synonym 'q resourceList = "resourceName \<rightharpoonup> 'q"

text \<open>\<open>Limits\<close> is \<open>None\<close> for the nil map.\<close>

record 'q resourceRequirements =
  Requests :: "'q resourceList"
  Limits :: "'q resourceList option"

definition setLimit ::
  "resourceName \<Rightarrow> 'q option \<Rightarrow> 'q resourceRequirements \<Rightarrow> 'q resourceRequirements" where
  "setLimit name lim req =
     (case lim of
        None \<Rightarrow> req
      | Some l \<Rightarrow>
         req\<lparr>Limits := Some ((case Limits req of None \<Rightarrow> Map.empty | Some m \<Rightarrow> m)(name \<mapsto> l))\<rparr>)"

definition setRequest ::
  "resourceName \<Rightarrow> 'q option \<Rightarrow> 'q resourceRequirements \<Rightarrow> 'q resourceRequirements" where
  "setRequest name r req =
     (case r of None \<Rightarrow> req | Some q \<Rightarrow> req\<lparr>Requests := (Requests req)(name \<mapsto> q)\<rparr>)"

definition clampRequestToLimit ::
  "'q quantityOps \<Rightarrow> resourceName \<Rightarrow> 'q resourceRequirements \<Rightarrow> 'q resourceRequirements" where
  "clampRequestToLimit ops name req =
     (case Limits req of
        None \<Rightarrow> req
      | Some lims \<Rightarrow>
         (case lims name of
            None \<Rightarrow> req
          | Some lim \<Rightarrow>
             (case Requests req name of
                None \<Rightarrow> req
              | Some rq \<Rightarrow>
                 if Cmp ops rq lim > 0 then req\<lparr>Requests := (Requests req)(name \<mapsto> lim)\<rparr> else req)))"

definition BuildResourceRequirements ::
  "'q quantityOps \<Rightarrow> 'q MountResources \<Rightarrow> 'q \<Rightarrow> 'q \<Rightarrow> 'q resourceRequirements" where
  "BuildResourceRequirements ops overrides defaultCPURequest defaultMemoryRequest =
     (let req0 = \<lparr>Requests = [ResourceCPU \<mapsto> defaultCPURequest, ResourceMemory \<mapsto> defaultMemoryRequest],
                  Limits = None\<rparr>;
          req1 = setRequest ResourceCPU (CPURequest overrides) req0;
          req2 = setRequest ResourceMemory (MemoryRequest overrides) req1;
          req3 = setLimit ResourceCPU (CPULimit overrides) req2;
          req4 = setLimit ResourceMemory (MemoryLimit overrides) req3;
          req5 = clampRequestToLimit ops ResourceCPU req4
      in clampRequestToLimit ops ResourceMemory req5)"

section \<open>Merging hints of several volumes\<close>

definition maxQuantity :: "'q quantityOps \<Rightarrow> 'q option \<Rightarrow> 'q option \<Rightarrow> 'q option" where
  "maxQuantity ops a b =
     (case a of
        None \<Rightarrow> b
      | Some x \<Rightarrow> (case b of None \<Rightarrow> a | Some y \<Rightarrow> if Cmp ops x y < 0 then b else a))"

definition mergeMaxResources ::
  "'q quantityOps \<Rightarrow> 'q MountResources \<Rightarrow> 'q MountResources \<Rightarrow> 'q MountResources" where
  "mergeMaxResources ops dst other =
     \<lparr>CPULimit = maxQuantity ops (CPULimit dst) (CPULimit other),
      CPURequest = maxQuantity ops (CPURequest dst) (CPURequest other),
      MemoryLimit = maxQuantity ops (MemoryLimit dst) (MemoryLimit other),
      MemoryRequest = maxQuantity ops (MemoryRequest dst) (MemoryRequest other)\<rparr>"

section \<open>Built requirements are consistent\<close>

text \<open>The request the user or the default asks for, the limit the user asks for.\<close>

definition wantedRequest :: "'q MountResources \<Rightarrow> 'q \<Rightarrow> 'q \<Rightarrow> resourceName \<Rightarrow> 'q" where
  "wantedRequest ov dc dm n =
     (case n of
        ResourceCPU \<Rightarrow> (case CPURequest ov of None \<Rightarrow> dc | Some q \<Rightarrow> q)
      | ResourceMemory \<Rightarrow> (case MemoryRequest ov of None \<Rightarrow> dm | Some q \<Rightarrow> q))"

definition wantedLimit :: "'q MountResources \<Rightarrow> resourceName \<Rightarrow> 'q option" where
  "wantedLimit ov n = (case n of ResourceCPU \<Rightarrow> CPULimit ov | ResourceMemory \<Rightarrow> MemoryLimit ov)"

definition limitOf :: "'q resourceRequirements \<Rightarrow> resourceName \<Rightarrow> 'q option" where
  "limitOf req n = (case Limits req of None \<Rightarrow> None | Some m \<Rightarrow> m n)"

lemma BuildResourceRequirements_request:
  "Requests (BuildResourceRequirements ops ov dc dm) n =
     Some (case wantedLimit ov n of
         None \<Rightarrow> wantedRequest ov dc dm n
       | Some lim \<Rightarrow> if Cmp ops (wantedRequest ov dc dm n) lim > 0 then lim else wantedRequest ov dc dm n)"
  by (cases n; cases "CPURequest ov"; cases "MemoryRequest ov"; cases "CPULimit ov"; cases "MemoryLimit ov")
     (simp_all add: BuildResourceRequirements_def setRequest_def setLimit_def clampRequestToLimit_def
      wantedRequest_def wantedLimit_def Let_def)

lemma BuildResourceRequirements_limit:
  "limitOf (BuildResourceRequirements ops ov dc dm) n = wantedLimit ov n"
  by (cases n; cases "CPURequest ov"; cases "MemoryRequest ov"; cases "CPULimit ov"; cases "MemoryLimit ov")
     (simp_all add: BuildResourceRequirements_def setRequest_def setLimit_def clampRequestToLimit_def
      wantedLimit_def limitOf_def Let_def)

lemma cmp_anti: "cmp_law ops \<Longrightarrow> Cmp ops b a = - Cmp ops a b"
  unfolding cmp_law_def by blast

lemma cmp_trans: "cmp_law ops \<Longrightarrow> Cmp ops a b \<le> 0 \<Longrightarrow> Cmp ops b c \<le> 0 \<Longrightarrow> Cmp ops a c \<le> 0"
  unfolding cmp_law_def by blast

lemma cmp_refl: "cmp_law ops \<Longrightarrow> Cmp ops a a = 0"
  using cmp_anti [of ops a a] by linarith

text \<open>
  (C39) The requirements built for a daemon are accepted by the API server: both requests are
  always set, the limits are exactly the user's, no request exceeds its limit, and a request
  differs from the wanted one only when that exceeds the limit, in which case it is the limit.
\<close>

theorem BuildResourceRequirements_correct:
  assumes "cmp_law ops"
  shows "\<exists>rq. Requests (BuildResourceRequirements ops ov dc dm) n = Some rq
    \<and> limitOf (BuildResourceRequirements ops ov dc dm) n = wantedLimit ov n
    \<and> (case wantedLimit ov n of
         None \<Rightarrow> rq = wantedRequest ov dc dm n
       | Some lim \<Rightarrow> Cmp ops rq lim \<le> 0
           \<and> rq = (if Cmp ops (wantedRequest ov dc dm n) lim \<le> 0 then wantedRequest ov dc dm n else lim))"
  using cmp_refl [OF assms]
  by (simp add: BuildResourceRequirements_request BuildResourceRequirements_limit split: option.splits)

section \<open>Round trip through the CRD\<close>

definition q_equiv :: "'q quantityOps \<Rightarrow> 'q option \<Rightarrow> 'q option \<Rightarrow> bool" where
  "q_equiv ops a b = (case (a, b) of (None, None) \<Rightarrow> True | (Some x, Some y) \<Rightarrow> Cmp ops x y = 0 | _ \<Rightarrow> False)"

definition res_equiv :: "'q quantityOps \<Rightarrow> 'q MountResources \<Rightarrow> 'q MountResources \<Rightarrow> bool" where
  "res_equiv ops a b \<longleftrightarrow> q_equiv ops (CPULimit a) (CPULimit b) \<and> q_equiv ops (CPURequest a) (CPURequest b)
     \<and> q_equiv ops (MemoryLimit a) (MemoryLimit b) \<and> q_equiv ops (MemoryRequest a) (MemoryRequest b)"

lemma stringEntries_JString: "stringEntries (map (\<lambda>(k, v). (k, JString v)) src) = map_of src"
proof -
  have "List.map_filter (\<lambda>(k, v). case v of JString s \<Rightarrow> Some (k, s) | _ \<Rightarrow> None) (map (\<lambda>(k, v). (k, JString v)) src) = src"
    by (induction src) (auto simp: List.map_filter_def)
  then show ?thesis by (simp add: stringEntries_def)
qed

lemma map_of_putField:
  "map_of (putField ops key f m) = (case f of None \<Rightarrow> map_of m | Some q \<Rightarrow> (map_of m)(key \<mapsto> QString ops q))"
  by (simp add: putField_def split: option.splits)

lemma volumeCtx_distinct:
  "distinct [volumeCtxCPULimit, volumeCtxCPURequest, volumeCtxMemoryLimit, volumeCtxMemoryRequest]"
  by (simp add: volumeCtx_defs)

lemma map_of_ToStringMap:
  "map_of (ToStringMap ops r) volumeCtxCPULimit = map_option (QString ops) (CPULimit r)"
  "map_of (ToStringMap ops r) volumeCtxCPURequest = map_option (QString ops) (CPURequest r)"
  "map_of (ToStringMap ops r) volumeCtxMemoryLimit = map_option (QString ops) (MemoryLimit r)"
  "map_of (ToStringMap ops r) volumeCtxMemoryRequest = map_option (QString ops) (MemoryRequest r)"
  using volumeCtx_distinct
  by (auto simp: ToStringMap_def map_of_putField Let_def split: option.splits)

lemma parse_printed:
  assumes "print_law ops"
  shows "q_equiv ops (parseQuantityAttr ops (case map_option (QString ops) f of None \<Rightarrow> [] | Some s \<Rightarrow> s)) f"
proof (cases f)
  case (Some q)
  then obtain q' where "ParseQuantity ops (QString ops q) = Some q'" "Cmp ops q' q = 0" "QString ops q \<noteq> []"
    using assms by (auto simp: print_law_def)
  with Some show ?thesis by (simp add: parseQuantityAttr_def q_equiv_def)
qed (simp add: parseQuantityAttr_def q_equiv_def)

lemma res_equiv_printed:
  assumes "print_law ops"
  shows "res_equiv ops (ParseMountResources ops (map_of (ToStringMap ops r))) r"
  using parse_printed [OF assms]
  by (simp add: res_equiv_def ParseMountResources_def attr_def map_of_ToStringMap)

text \<open>
  Round trip through the CRD: the overrides that \<open>tryHealSource\<close> reads back from the
  unstructured object equal, field by field, those \<open>Mount\<close> stored, and the \<open>resources\<close> key is
  left out exactly when no override is set.
\<close>

theorem MountResources_roundtrip:
  assumes "print_law ops"
  shows "case ToUnstructured ops r of
      None \<Rightarrow> CPULimit r = None \<and> CPURequest r = None \<and> MemoryLimit r = None \<and> MemoryRequest r = None
    | Some raw \<Rightarrow> res_equiv ops (MountResourcesFromUnstructured ops raw) r"
proof (cases "ToStringMap ops r = []")
  case True
  with map_of_ToStringMap [of ops r] show ?thesis
    by (simp add: ToUnstructured_def)
next
  case False
  with res_equiv_printed [OF assms] show ?thesis
    by (simp add: ToUnstructured_def MountResourcesFromUnstructured_def stringEntries_JString)
qed

section \<open>The merge is a maximum\<close>

definition q_le :: "'q quantityOps \<Rightarrow> 'q option \<Rightarrow> 'q option \<Rightarrow> bool" where
  "q_le ops a b = (case a of None \<Rightarrow> True | Some x \<Rightarrow> (case b of None \<Rightarrow> False | Some y \<Rightarrow> Cmp ops x y \<le> 0))"

lemma q_le_trans: "cmp_law ops \<Longrightarrow> q_le ops a b \<Longrightarrow> q_le ops b c \<Longrightarrow> q_le ops a c"
  using cmp_trans [of ops] by (auto simp: q_le_def split: option.splits)

lemma q_le_refl: "cmp_law ops \<Longrightarrow> q_le ops a a"
  by (auto simp: q_le_def cmp_refl split: option.splits)

lemma maxQuantity_ub:
  assumes "cmp_law ops"
  shows "q_le ops a (maxQuantity ops a b)" "q_le ops b (maxQuantity ops a b)"
proof -
  have "q_le ops a (maxQuantity ops a b) \<and> q_le ops b (maxQuantity ops a b)"
  proof (cases a)
    case (Some x)
    show ?thesis
    proof (cases b)
      case (Some y)
      with \<open>a = Some x\<close> cmp_refl [OF assms, of x] cmp_refl [OF assms, of y] cmp_anti [OF assms, of y x]
      show ?thesis by (auto simp: q_le_def maxQuantity_def)
    qed (simp add: \<open>a = Some x\<close> q_le_def maxQuantity_def cmp_refl [OF assms])
  qed (simp add: q_le_def maxQuantity_def cmp_refl [OF assms] split: option.split)
  then show "q_le ops a (maxQuantity ops a b)" "q_le ops b (maxQuantity ops a b)" by blast+
qed

lemma maxQuantity_mem: "maxQuantity ops a b = a \<or> maxQuantity ops a b = b"
  by (auto simp: maxQuantity_def split: option.splits)

text \<open>A field of the merged hints is one of the hints and bounds them all.\<close>

lemma foldl_maxQuantity:
  assumes "cmp_law ops"
  shows "foldl (maxQuantity ops) a bs \<in> set (a # bs)
    \<and> (\<forall>b \<in> set (a # bs). q_le ops b (foldl (maxQuantity ops) a bs))"
proof (induction bs arbitrary: a)
  case Nil
  show ?case by (simp add: q_le_refl [OF assms])
next
  case (Cons b bs)
  let ?m = "maxQuantity ops a b"
  from Cons [of ?m] have ih: "foldl (maxQuantity ops) ?m bs \<in> set (?m # bs)"
      "q_le ops ?m (foldl (maxQuantity ops) ?m bs)"
      "\<forall>c \<in> set bs. q_le ops c (foldl (maxQuantity ops) ?m bs)"
    by auto
  from maxQuantity_ub [OF assms, of a b] maxQuantity_ub [OF assms, of b a] ih(2)
  have "q_le ops a (foldl (maxQuantity ops) ?m bs)" "q_le ops b (foldl (maxQuantity ops) ?m bs)"
    using q_le_trans [OF assms] by blast+
  with ih maxQuantity_mem [of ops a b] show ?case by auto
qed

lemma fields_mergeMax:
  "CPULimit (foldl (mergeMaxResources ops) r hs) = foldl (maxQuantity ops) (CPULimit r) (map CPULimit hs)"
  "CPURequest (foldl (mergeMaxResources ops) r hs) = foldl (maxQuantity ops) (CPURequest r) (map CPURequest hs)"
  "MemoryLimit (foldl (mergeMaxResources ops) r hs) = foldl (maxQuantity ops) (MemoryLimit r) (map MemoryLimit hs)"
  "MemoryRequest (foldl (mergeMaxResources ops) r hs) = foldl (maxQuantity ops) (MemoryRequest r) (map MemoryRequest hs)"
  by (induction hs arbitrary: r) (simp_all add: mergeMaxResources_def)

lemma q_le_antisym:
  assumes "cmp_law ops" "q_le ops a b" "q_le ops b a"
  shows "q_equiv ops a b"
proof (cases a)
  case (Some x)
  with assms(2) obtain y where y: "b = Some y" by (auto simp: q_le_def split: option.splits)
  with Some assms cmp_anti [OF assms(1), of y x] show ?thesis by (simp add: q_le_def q_equiv_def)
next
  case None
  with assms(3) show ?thesis by (auto simp: q_le_def q_equiv_def split: option.splits)
qed

lemma foldl_maxQuantity_cong:
  assumes "cmp_law ops" "set bs = set cs"
  shows "q_equiv ops (foldl (maxQuantity ops) a bs) (foldl (maxQuantity ops) a cs)"
proof -
  have "q_le ops (foldl (maxQuantity ops) a xs) (foldl (maxQuantity ops) a ys)" if "set xs = set ys" for xs ys
    using foldl_maxQuantity [OF assms(1), of a xs] foldl_maxQuantity [OF assms(1), of a ys] that
    by (metis list.simps(15))
  with assms show ?thesis by (intro q_le_antisym) simp_all
qed

text \<open>
  The hints for the one sidecar of a pod do not depend on the order of its volumes, nor on
  repeated hints: merging two collections with the same hints gives equal quantities in every
  field, and every field is the largest of the given ones.
\<close>

theorem mergeMaxResources_order_independent:
  assumes "cmp_law ops" "set hs = set hs'"
  shows "res_equiv ops (foldl (mergeMaxResources ops) noResources hs) (foldl (mergeMaxResources ops) noResources hs')
    \<and> (\<forall>h \<in> set hs. q_le ops (MemoryRequest h) (MemoryRequest (foldl (mergeMaxResources ops) noResources hs))
         \<and> q_le ops (MemoryLimit h) (MemoryLimit (foldl (mergeMaxResources ops) noResources hs))
         \<and> q_le ops (CPURequest h) (CPURequest (foldl (mergeMaxResources ops) noResources hs))
         \<and> q_le ops (CPULimit h) (CPULimit (foldl (mergeMaxResources ops) noResources hs)))"
proof -
  have img: "set (map f hs) = set (map f hs')" for f :: "'a MountResources \<Rightarrow> 'a option"
    using assms(2) by simp
  have ub: "q_le ops (f h) (foldl (maxQuantity ops) a (map f hs))" if "h \<in> set hs"
    for f :: "'a MountResources \<Rightarrow> 'a option" and h a
    using foldl_maxQuantity [OF assms(1), of a "map f hs"] that by auto
  show ?thesis
    by (auto simp: res_equiv_def fields_mergeMax ub foldl_maxQuantity_cong [OF assms(1) img])
qed

section \<open>Instances\<close>

text \<open>Quantities written in unary.\<close>

definition sampleOps :: "nat quantityOps" where
  "sampleOps =
     \<lparr>ParseQuantity = (\<lambda>s. if s = [] then None else Some (length s - 1)),
      Cmp = (\<lambda>a b. int a - int b), QString = (\<lambda>q. replicate (Suc q) (CHR ''1''))\<rparr>"

lemma sampleOps_laws: "cmp_law sampleOps" "print_law sampleOps"
  by (auto simp: sampleOps_def cmp_law_def print_law_def)

definition sampleRes :: "nat MountResources" where
  "sampleRes = \<lparr>CPULimit = Some 3, CPURequest = Some 5, MemoryLimit = None, MemoryRequest = Some 7\<rparr>"

theorem BuildResourceRequirements_correct_witness:
  "Requests (BuildResourceRequirements sampleOps sampleRes 1 2) ResourceCPU = Some 3
   \<and> Requests (BuildResourceRequirements sampleOps sampleRes 1 2) ResourceMemory = Some 7"
  using BuildResourceRequirements_correct [OF sampleOps_laws(1), of sampleRes 1 2 ResourceCPU]
    BuildResourceRequirements_correct [OF sampleOps_laws(1), of sampleRes 1 2 ResourceMemory]
  by (simp add: sampleRes_def wantedLimit_def wantedRequest_def sampleOps_def)

theorem MountResources_roundtrip_witness:
  "\<exists>raw. ToUnstructured sampleOps sampleRes = Some raw
     \<and> res_equiv sampleOps (MountResourcesFromUnstructured sampleOps raw) sampleRes"
proof -
  have "ToUnstructured sampleOps sampleRes \<noteq> None"
    by (simp add: ToUnstructured_def ToStringMap_def putField_def sampleRes_def volumeCtx_defs)
  with MountResources_roundtrip [OF sampleOps_laws(2), of sampleRes] show ?thesis by auto
qed

theorem mergeMaxResources_order_independent_witness:
  "res_equiv sampleOps (foldl (mergeMaxResources sampleOps) noResources [sampleRes, noResources])
     (foldl (mergeMaxResources sampleOps) noResources [noResources, sampleRes, sampleRes])"
  using mergeMaxResources_order_independent [OF sampleOps_laws(1), of "[sampleRes, noResources]"
      "[noResources, sampleRes, sampleRes]"]
  by (simp add: insert_commute)

end
