(* ===== verification/Kube_Types.thy ===== *)
theory Kube_Types
  imports Resources
begin

text \<open>
  The Kubernetes objects the program builds and reads, restricted to the fields it uses. A pod
  record is extensible: the fields of a pod that the webhook does not know are the rest of the
  record and are carried along. Pointers are options; a nil and an empty annotation map are
  the same map.
\<close>

text \<open>Errors of the API server, as \<open>errors.IsNotFound\<close> and its siblings tell them apart.\<close>

datatype kerr = NotFound | AlreadyExists | Conflict | KubeErr string

record volumeMount =
  vmName :: string
  vmMountPath :: string
  vmMountPropagation :: "string option"

record envVar =
  envName :: string
  envValue :: string

record securityContext =
  scPrivileged :: "bool option"
  scRunAsNonRoot :: "bool option"
  scRunAsUser :: "int option"
  scRunAsGroup :: "int option"
  scReadOnlyRootFilesystem :: "bool option"
  scAllowPrivilegeEscalation :: "bool option"
  scCapabilitiesDrop :: "string list"
  scSeccompProfile :: "string option"

record probe =
  probeExecCommand :: "string list"
  probePeriodSeconds :: int
  probeFailureThreshold :: int

record 'q container =
  cName :: string
  cImage :: string
  cImagePullPolicy :: string
  cRestartPolicy :: "string option"
  cCommand :: "string list"
  cArgs :: "string list"
  cEnv :: "envVar list"
  cSecurityContext :: "securityContext option"
  cVolumeMounts :: "volumeMount list"
  cStartupProbe :: "probe option"
  cResources :: "'q resourceRequirements"

record csiVolumeSource =
  csiDriver :: string
  csiReadOnly :: "bool option"
  csiVolumeAttributes :: "string \<rightharpoonup> string"

record pvcVolumeSource =
  pvcClaimName :: string
  pvcReadOnly :: bool

record hostPathVolumeSource =
  hpPath :: string
  hpType :: "string option"

text \<open>An \<open>emptyDir\<close> is given by its medium.\<close>

record volume =
  volName :: string
  volCSI :: "csiVolumeSource option"
  volPVC :: "pvcVolumeSource option"
  volEmptyDir :: "string option"
  volHostPath :: "hostPathVolumeSource option"

datatype podPhase = PodPending | PodRunning | PodSucceeded | PodFailed | PodUnknown

type_synonym int32 = "32 word"

record containerStatus =
  csRestartCount :: int32
  csWaitingReason :: "string option"
  csLastTerminatedMessage :: "string option"

record 'q pod =
  podName :: string
  podNamespace :: string
  podUID :: string
  podLabels :: "string \<rightharpoonup> string"
  podAnnotations :: "string \<rightharpoonup> string"
  podDeletionTimestamp :: bool
  podVolumes :: "volume list"
  podInitContainers :: "'q container list"
  podContainers :: "'q container list"
  podTerminationGracePeriodSeconds :: "int option"
  podStatusPhase :: podPhase
  podContainerStatuses :: "containerStatus list"

definition emptyDirVolume :: "string \<Rightarrow> string \<Rightarrow> volume" where
  "emptyDirVolume name medium =
     \<lparr>volName = name, volCSI = None, volPVC = None, volEmptyDir = Some medium, volHostPath = None\<rparr>"

definition hostPathVolume :: "string \<Rightarrow> string \<Rightarrow> string \<Rightarrow> volume" where
  "hostPathVolume name path ty =
     \<lparr>volName = name, volCSI = None, volPVC = None, volEmptyDir = None,
      volHostPath = Some \<lparr>hpPath = path, hpType = Some ty\<rparr>\<rparr>"

end
