(* ===== verification/Webhook.thy ===== *)
theory Webhook
  imports Kube_Types Go_Paths
begin

text \<open>
  The mutating admission webhook (\<open>pkg/webhook/handler.go\<close>, \<open>pkg/webhook/sidecar.go\<close>): which
  volumes of a pod are ours, the hints merged from them, the sidecar container that is
  injected and the grace period that is enforced.

  The decoder and the API reader are parameters: the request carries the decoded pod, the
  reader is a pair of lookups. Marshalling the changed pod is a parameter that may fail.
\<close>

section \<open>Constants\<close>

definition CSIDriverName :: string where
  "CSIDriverName = ''hf.csi.huggingface.co''"

definition SidecarContainerName :: string where
  "SidecarContainerName = ''hf-mount''"

definition TmpVolumeName :: string where
  "TmpVolumeName = ''hf-csi-tmp''"

definition TmpVolumeMountPath :: string where
  "TmpVolumeMountPath = ''/hf-csi-tmp''"

definition volumeAttrMountMode :: string where
  "volumeAttrMountMode = ''mountMode''"

definition volumeAttrLogFormat :: string where
  "volumeAttrLogFormat = ''logFormat''"

definition volumeAttrSourceType :: string where
  "volumeAttrSourceType = ''sourceType''"

definition volumeAttrMountFlags :: string where
  "volumeAttrMountFlags = ''mountFlags''"

definition mountModeMountPod :: string where
  "mountModeMountPod = ''mountpod''"

definition MinTerminationGracePeriodSeconds :: int where
  "MinTerminationGracePeriodSeconds = 60"

definition AnnotationOriginalGracePeriod :: string where
  "AnnotationOriginalGracePeriod = ''hf.csi.huggingface.co/original-termination-grace-period-seconds''"

section \<open>Volumes of a pod\<close>

record csiPersistentVolume =
  pvDriver :: string
  pvReadOnly :: bool
  pvVolumeAttributes :: "string \<rightharpoonup> string"

record persistentVolume =
  pvCSI :: "csiPersistentVolume option"
  pvMountOptions :: "string list"

text \<open>The reader of the API server: a claim by namespace and name gives its volume name, a
  volume by name gives the object; \<open>None\<close> is an error.\<close>

record apiReader =
  getPVC :: "string \<Rightarrow> string \<Rightarrow> string option"
  getPV :: "string \<Rightarrow> persistentVolume option"

definition volumeIsReadOnly :: "bool option \<Rightarrow> (string \<rightharpoonup> string) \<Rightarrow> bool" where
  "volumeIsReadOnly readOnly attrs =
     (if readOnly = Some True then True
      else if attr attrs volumeAttrSourceType = ''repo'' then True
      else list_ex (\<lambda>flag. TrimSpace flag = ''read-only'')
             (Split (attr attrs volumeAttrMountFlags) (CHR '','')))"

definition pvMountOptionsReadOnly :: "persistentVolume \<Rightarrow> bool" where
  "pvMountOptionsReadOnly pv = list_ex (\<lambda>opt. opt = ''read-only'') (pvMountOptions pv)"

definition resolvePVFromPVC ::
  "apiReader \<Rightarrow> string \<Rightarrow> string \<Rightarrow> (persistentVolume \<times> csiPersistentVolume) option" where
  "resolvePVFromPVC api pvcName namespace =
     (case getPVC api namespace pvcName of
        None \<Rightarrow> None
      | Some pvName \<Rightarrow>
         if pvName = [] then None
         else case getPV api pvName of
             None \<Rightarrow> None
           | Some pv \<Rightarrow>
              (case pvCSI pv of
                 None \<Rightarrow> None
               | Some c \<Rightarrow> if pvDriver c \<noteq> CSIDriverName then None else Some (pv, c)))"

definition hasSidecar :: "('q, 'x) pod_scheme \<Rightarrow> bool" where
  "hasSidecar pod =
     (list_ex (\<lambda>c. cName c = SidecarContainerName) (podInitContainers pod)
      \<or> list_ex (\<lambda>c. cName c = SidecarContainerName) (podContainers pod))"

text \<open>The accumulators of \<open>scanHFCSIVolumes\<close>.\<close>

record 'q scan =
  scCount :: int
  scResources :: "'q MountResources"
  scLogFormat :: string
  scAllReadOnly :: bool

definition scanInit :: "'q scan" where
  "scanInit = \<lparr>scCount = 0, scResources = noResources, scLogFormat = [], scAllReadOnly = True\<rparr>"

definition scanAttrs ::
  "'q quantityOps \<Rightarrow> bool option \<Rightarrow> (string \<rightharpoonup> string) \<Rightarrow> 'q scan \<Rightarrow> 'q scan" where
  "scanAttrs ops ro attrs s =
     (if attr attrs volumeAttrMountMode = mountModeMountPod then s
      else
        let s1 = s\<lparr>scCount := scCount s + 1\<rparr>;
            s2 = (if \<not> volumeIsReadOnly ro attrs then s1\<lparr>scAllReadOnly := False\<rparr> else s1);
            s3 = s2\<lparr>scResources := mergeMaxResources ops (scResources s2) (ParseMountResources ops attrs)\<rparr>
        in if scLogFormat s3 = [] then s3\<lparr>scLogFormat := attr attrs volumeAttrLogFormat\<rparr> else s3)"

definition scanVolume ::
  "'q quantityOps \<Rightarrow> apiReader \<Rightarrow> string \<Rightarrow> 'q scan \<Rightarrow> volume \<Rightarrow> 'q scan" where
  "scanVolume ops api namespace s vol =
     (case volCSI vol of
        Some c \<Rightarrow>
          if csiDriver c = CSIDriverName then scanAttrs ops (csiReadOnly c) (csiVolumeAttributes c) s
          else (case volPVC vol of
              None \<Rightarrow> s
            | Some p \<Rightarrow>
               (case resolvePVFromPVC api (pvcClaimName p) namespace of
                  None \<Rightarrow> s
                | Some (pv, c) \<Rightarrow>
                   scanAttrs ops (Some (pvcReadOnly p \<or> pvReadOnly c \<or> pvMountOptionsReadOnly pv))
                     (pvVolumeAttributes c) s))
      | None \<Rightarrow>
          (case volPVC vol of
              None \<Rightarrow> s
            | Some p \<Rightarrow>
               (case resolvePVFromPVC api (pvcClaimName p) namespace of
                  None \<Rightarrow> s
                | Some (pv, c) \<Rightarrow>
                   scanAttrs ops (Some (pvcReadOnly p \<or> pvReadOnly c \<or> pvMountOptionsReadOnly pv))
                     (pvVolumeAttributes c) s)))"

definition scanHFCSIVolumes ::
  "'q quantityOps \<Rightarrow> apiReader \<Rightarrow> ('q, 'x) pod_scheme \<Rightarrow> string \<Rightarrow> 'q scan" where
  "scanHFCSIVolumes ops api pod namespace =
     foldl (scanVolume ops api namespace) scanInit (podVolumes pod)"

section \<open>Injection\<close>

record webhookConfig =
  SidecarImage :: string
  SidecarLogFormat :: string

definition ensureTerminationGracePeriod :: "('q, 'x) pod_scheme \<Rightarrow> ('q, 'x) pod_scheme" where
  "ensureTerminationGracePeriod pod =
     (let current = podTerminationGracePeriodSeconds pod;
          original = (case current of None \<Rightarrow> ''unset'' | Some c \<Rightarrow> Itoa c);
          raised = pod\<lparr>podTerminationGracePeriodSeconds := Some MinTerminationGracePeriodSeconds,
                       podAnnotations := (podAnnotations pod)(AnnotationOriginalGracePeriod \<mapsto> original)\<rparr>
      in case current of
           None \<Rightarrow> raised
         | Some c \<Rightarrow> if MinTerminationGracePeriodSeconds \<le> c then pod else raised)"

definition sidecarEnv :: "webhookConfig \<Rightarrow> int \<Rightarrow> envVar list" where
  "sidecarEnv config graceSeconds =
     [\<lparr>envName = ''HOME'', envValue = ''/tmp''\<rparr>,
      \<lparr>envName = ''HF_CSI_TERMINATION_GRACE_SECONDS'', envValue = Itoa graceSeconds\<rparr>,
      \<lparr>envName = ''MALLOC_ARENA_MAX'', envValue = ''2''\<rparr>]
     @ (if SidecarLogFormat config \<noteq> []
        then [\<lparr>envName = ''RUST_LOG_FORMAT'', envValue = SidecarLogFormat config\<rparr>] else [])"

definition sidecarContainer ::
  "'q quantityOps \<Rightarrow> 'q resourceDefaults \<Rightarrow> webhookConfig \<Rightarrow> int \<Rightarrow> int \<Rightarrow> 'q MountResources \<Rightarrow> bool \<Rightarrow> 'q container" where
  "sidecarContainer ops dflt config graceSeconds volumeCount resources allReadOnly =
     \<lparr>cName = SidecarContainerName,
      cImage = SidecarImage config,
      cImagePullPolicy = ''IfNotPresent'',
      cRestartPolicy = Some ''Always'',
      cCommand = [''hf-mount-fuse-sidecar''],
      cArgs = [''--tmp-dir='' @ TmpVolumeMountPath, ''--expected-mounts='' @ Itoa volumeCount],
      cEnv = sidecarEnv config graceSeconds,
      cSecurityContext = Some
        \<lparr>scPrivileged = None, scRunAsNonRoot = Some True, scRunAsUser = Some 65534, scRunAsGroup = Some 65534,
         scReadOnlyRootFilesystem = Some True, scAllowPrivilegeEscalation = Some False,
         scCapabilitiesDrop = [''ALL''], scSeccompProfile = Some ''RuntimeDefault''\<rparr>,
      cVolumeMounts =
        [\<lparr>vmName = TmpVolumeName, vmMountPath = TmpVolumeMountPath, vmMountPropagation = None\<rparr>,
         \<lparr>vmName = ''sidecar-tmp'', vmMountPath = ''/tmp'', vmMountPropagation = None\<rparr>],
      cStartupProbe = Some
        \<lparr>probeExecCommand = [''test'', ''-f'', TmpVolumeMountPath @ ''/.ready''],
         probePeriodSeconds = 1, probeFailureThreshold = 120\<rparr>,
      cResources = BuildResourceRequirements ops resources (DefaultMountCPURequest dflt)
                     (DefaultMemoryRequestFor dflt allReadOnly)\<rparr>"

definition injectSidecar ::
  "'q quantityOps \<Rightarrow> 'q resourceDefaults \<Rightarrow> ('q, 'x) pod_scheme \<Rightarrow> webhookConfig \<Rightarrow> int \<Rightarrow> 'q MountResources
    \<Rightarrow> bool \<Rightarrow> ('q, 'x) pod_scheme" where
  "injectSidecar ops dflt pod config volumeCount resources allReadOnly =
     (let pod1 = pod\<lparr>podVolumes := podVolumes pod @ [emptyDirVolume TmpVolumeName ''Memory'']\<rparr>;
          pod2 = pod1\<lparr>podVolumes := podVolumes pod1 @ [emptyDirVolume ''sidecar-tmp'' []]\<rparr>;
          pod3 = ensureTerminationGracePeriod pod2;
          graceSeconds = the (podTerminationGracePeriodSeconds pod3);
          sidecar = sidecarContainer ops dflt config graceSeconds volumeCount resources allReadOnly
      in pod3\<lparr>podInitContainers := [sidecar] @ podInitContainers pod3\<rparr>)"

section \<open>The handler\<close>

record 'p admissionRequest =
  reqOperation :: string
  reqNamespace :: string
  reqObject :: "'p option"

datatype 'p admissionResponse =
    Errored int
  | Allowed string
  | Patched 'p

definition Handle ::
  "'q quantityOps \<Rightarrow> 'q resourceDefaults \<Rightarrow> apiReader \<Rightarrow> webhookConfig \<Rightarrow> (('q, 'x) pod_scheme \<Rightarrow> bool)
    \<Rightarrow> ('q, 'x) pod_scheme admissionRequest \<Rightarrow> ('q, 'x) pod_scheme admissionResponse" where
  "Handle ops dflt api config marshals req =
     (case reqObject req of
        None \<Rightarrow> Errored 400
      | Some pod \<Rightarrow>
         if reqOperation req \<noteq> ''CREATE'' then Allowed ''not a create''
         else
           let s = scanHFCSIVolumes ops api pod (reqNamespace req) in
           if scCount s = 0 then Allowed ''no HF CSI volumes''
           else if hasSidecar pod then Allowed ''sidecar already injected''
           else
             let config1 = (if SidecarLogFormat config = [] then config\<lparr>SidecarLogFormat := scLogFormat s\<rparr> else config);
                 pod' = injectSidecar ops dflt pod config1 (scCount s) (scResources s) (scAllReadOnly s)
             in if marshals pod' then Patched pod' else Errored 500)"

section \<open>What the scan computes\<close>

text \<open>The volumes that need the sidecar: access mode and attributes of each, in order.\<close>

definition hfAttrs :: "apiReader \<Rightarrow> string \<Rightarrow> volume \<Rightarrow> (bool option \<times> (string \<rightharpoonup> string)) option" where
  "hfAttrs api ns vol =
     (if \<exists>c. volCSI vol = Some c \<and> csiDriver c = CSIDriverName
      then map_option (\<lambda>c. (csiReadOnly c, csiVolumeAttributes c)) (volCSI vol)
      else case volPVC vol of
          None \<Rightarrow> None
        | Some p \<Rightarrow>
           map_option (\<lambda>(pv, c). (Some (pvcReadOnly p \<or> pvReadOnly c \<or> pvMountOptionsReadOnly pv), pvVolumeAttributes c))
             (resolvePVFromPVC api (pvcClaimName p) ns))"

definition sidecarVolumesOf ::
  "apiReader \<Rightarrow> string \<Rightarrow> volume list \<Rightarrow> (bool option \<times> (string \<rightharpoonup> string)) list" where
  "sidecarVolumesOf api ns vols =
     filter (\<lambda>(ro, a). attr a volumeAttrMountMode \<noteq> mountModeMountPod) (List.map_filter (hfAttrs api ns) vols)"

lemma sidecarVolumesOf_Nil [simp]: "sidecarVolumesOf api ns [] = []"
  by (simp add: sidecarVolumesOf_def List.map_filter_def)

lemma sidecarVolumesOf_append:
  "sidecarVolumesOf api ns (vs @ ws) = sidecarVolumesOf api ns vs @ sidecarVolumesOf api ns ws"
  by (simp add: sidecarVolumesOf_def List.map_filter_def)

lemma sidecarVolumesOf_emptyDir [simp]: "sidecarVolumesOf api ns [emptyDirVolume n m] = []"
  by (simp add: sidecarVolumesOf_def List.map_filter_def hfAttrs_def emptyDirVolume_def)

lemma scanVolume_hfAttrs:
  "scanVolume ops api ns s vol =
     (case hfAttrs api ns vol of None \<Rightarrow> s | Some (ro, a) \<Rightarrow> scanAttrs ops ro a s)"
  by (auto simp: scanVolume_def hfAttrs_def split: option.splits)

lemma sidecarVolumesOf_snoc:
  "sidecarVolumesOf api ns (vs @ [v]) = sidecarVolumesOf api ns vs @
     (case hfAttrs api ns v of None \<Rightarrow> []
      | Some (ro, a) \<Rightarrow> if attr a volumeAttrMountMode = mountModeMountPod then [] else [(ro, a)])"
  by (simp add: sidecarVolumesOf_def List.map_filter_def split: option.splits)

text \<open>The first non-empty log format.\<close>

fun firstLogFormat :: "(bool option \<times> (string \<rightharpoonup> string)) list \<Rightarrow> string" where
  "firstLogFormat [] = []"
| "firstLogFormat ((ro, a) # vs) =
     (if attr a volumeAttrLogFormat \<noteq> [] then attr a volumeAttrLogFormat else firstLogFormat vs)"

lemma firstLogFormat_snoc:
  "firstLogFormat (vs @ [(ro, a)]) =
     (if firstLogFormat vs = [] then attr a volumeAttrLogFormat else firstLogFormat vs)"
  by (induction vs) auto

definition scanSpec :: "'q quantityOps \<Rightarrow> (bool option \<times> (string \<rightharpoonup> string)) list \<Rightarrow> 'q scan" where
  "scanSpec ops vs =
     \<lparr>scCount = int (length vs),
      scResources = foldl (mergeMaxResources ops) noResources (map (ParseMountResources ops \<circ> snd) vs),
      scLogFormat = firstLogFormat vs,
      scAllReadOnly = list_all (\<lambda>(ro, a). volumeIsReadOnly ro a) vs\<rparr>"

lemma scanAttrs_spec:
  "attr a volumeAttrMountMode \<noteq> mountModeMountPod \<Longrightarrow>
     scanAttrs ops ro a (scanSpec ops vs) = scanSpec ops (vs @ [(ro, a)])"
  by (auto simp: scanAttrs_def scanSpec_def Let_def firstLogFormat_snoc)

lemma scan_foldl:
  "foldl (scanVolume ops api ns) scanInit vols = scanSpec ops (sidecarVolumesOf api ns vols)"
proof (induction vols rule: rev_induct)
  case Nil
  show ?case by (simp add: scanInit_def scanSpec_def)
next
  case (snoc v vols)
  show ?case
  proof (cases "hfAttrs api ns v")
    case (Some p)
    obtain ro a where p: "p = (ro, a)" by (cases p)
    show ?thesis
    proof (cases "attr a volumeAttrMountMode = mountModeMountPod")
      case True
      with snoc Some p show ?thesis
        by (simp add: scanVolume_hfAttrs sidecarVolumesOf_snoc scanAttrs_def)
    next
      case False
      with snoc Some p show ?thesis
        by (simp add: scanVolume_hfAttrs sidecarVolumesOf_snoc scanAttrs_spec)
    qed
  qed (use snoc in \<open>simp add: scanVolume_hfAttrs sidecarVolumesOf_snoc\<close>)
qed

lemma scan_eq: "scanHFCSIVolumes ops api pod ns = scanSpec ops (sidecarVolumesOf api ns (podVolumes pod))"
  unfolding scanHFCSIVolumes_def by (rule scan_foldl)


section \<open>What the handler decides and changes\<close>

lemma grace_after:
  "podTerminationGracePeriodSeconds (ensureTerminationGracePeriod pod) =
     Some (case podTerminationGracePeriodSeconds pod of None \<Rightarrow> 60 | Some c \<Rightarrow> max c 60)"
  by (auto simp: ensureTerminationGracePeriod_def MinTerminationGracePeriodSeconds_def Let_def split: option.splits)

lemma ensure_keeps:
  "podVolumes (ensureTerminationGracePeriod pod) = podVolumes pod"
  "podInitContainers (ensureTerminationGracePeriod pod) = podInitContainers pod"
  "podContainers (ensureTerminationGracePeriod pod) = podContainers pod"
  "pod.more (ensureTerminationGracePeriod pod) = pod.more pod"
  by (simp_all add: ensureTerminationGracePeriod_def Let_def split: option.splits)

lemma annotations_after:
  "podAnnotations (ensureTerminationGracePeriod pod) =
     (case podTerminationGracePeriodSeconds pod of
        None \<Rightarrow> (podAnnotations pod)(AnnotationOriginalGracePeriod \<mapsto> ''unset'')
      | Some c \<Rightarrow> if c < 60 then (podAnnotations pod)(AnnotationOriginalGracePeriod \<mapsto> Itoa c)
                  else podAnnotations pod)"
  by (auto simp: ensureTerminationGracePeriod_def MinTerminationGracePeriodSeconds_def Let_def split: option.splits)

definition graceAfter :: "('q, 'x) pod_scheme \<Rightarrow> int" where
  "graceAfter pod = (case podTerminationGracePeriodSeconds pod of None \<Rightarrow> 60 | Some c \<Rightarrow> max c 60)"

lemma injectSidecar_shape:
  "podVolumes (injectSidecar ops dflt pod c n r ro) = podVolumes pod @ [emptyDirVolume TmpVolumeName ''Memory'', emptyDirVolume ''sidecar-tmp'' []]"
  "podContainers (injectSidecar ops dflt pod c n r ro) = podContainers pod"
  "pod.more (injectSidecar ops dflt pod c n r ro) = pod.more pod"
  "podInitContainers (injectSidecar ops dflt pod c n r ro) = sidecarContainer ops dflt c (graceAfter pod) n r ro # podInitContainers pod"
  "podTerminationGracePeriodSeconds (injectSidecar ops dflt pod c n r ro) = Some (graceAfter pod)"
  "podAnnotations (injectSidecar ops dflt pod c n r ro) = podAnnotations (ensureTerminationGracePeriod pod)"
  by (simp_all add: injectSidecar_def Let_def ensure_keeps grace_after annotations_after graceAfter_def
      split: option.split)

lemma sidecarContainer_shape:
  "cName (sidecarContainer ops dflt c g n r ro) = SidecarContainerName"
  "\<lparr>envName = ''HF_CSI_TERMINATION_GRACE_SECONDS'', envValue = Itoa g\<rparr> \<in> set (cEnv (sidecarContainer ops dflt c g n r ro))"
  "''--expected-mounts='' @ Itoa n \<in> set (cArgs (sidecarContainer ops dflt c g n r ro))"
  "\<exists>ctx. cSecurityContext (sidecarContainer ops dflt c g n r ro) = Some ctx \<and> scRunAsNonRoot ctx = Some True
     \<and> scAllowPrivilegeEscalation ctx = Some False \<and> scPrivileged ctx = None"
  "cResources (sidecarContainer ops dflt c g n r ro) =
     BuildResourceRequirements ops r (DefaultMountCPURequest dflt) (DefaultMemoryRequestFor dflt ro)"
  by (simp_all add: sidecarContainer_def sidecarEnv_def)

lemma Handle_Patched_iff:
  "Handle ops dflt api config marshals req = Patched pod' \<longleftrightarrow>
     (\<exists>pod. reqObject req = Some pod \<and> reqOperation req = ''CREATE''
        \<and> sidecarVolumesOf api (reqNamespace req) (podVolumes pod) \<noteq> [] \<and> \<not> hasSidecar pod
        \<and> marshals pod'
        \<and> (let s = scanSpec ops (sidecarVolumesOf api (reqNamespace req) (podVolumes pod)) in
           pod' = injectSidecar ops dflt pod
             (if SidecarLogFormat config = [] then config\<lparr>SidecarLogFormat := scLogFormat s\<rparr> else config)
             (scCount s) (scResources s) (scAllReadOnly s)))"
  by (auto simp: Handle_def scan_eq Let_def scanSpec_def split: option.splits)

text \<open>
  (C3) What a patched pod looks like. Injection happens only for a created pod with at least
  one volume in sidecar mode and no sidecar yet. The patch keeps every volume and container of
  the pod, in order, and its unknown fields; the sidecar comes before every other init
  container, runs as non-root without privilege escalation, expects as many mounts as the pod
  has sidecar volumes, and its memory default is the read-only one exactly when all of them
  are read-only. The grace period of the pod is at least sixty seconds and never shortened,
  the sidecar is told the effective value, and the original value is annotated exactly when
  it was changed.
\<close>

theorem Handle_patch:
  assumes "Handle ops dflt api config marshals req = Patched pod'" "reqObject req = Some pod"
  defines "vs \<equiv> sidecarVolumesOf api (reqNamespace req) (podVolumes pod)"
    and "g \<equiv> (case podTerminationGracePeriodSeconds pod of None \<Rightarrow> 60 | Some c \<Rightarrow> max c 60)"
  shows "reqOperation req = ''CREATE'' \<and> vs \<noteq> [] \<and> \<not> hasSidecar pod
     \<and> podVolumes pod' = podVolumes pod @ [emptyDirVolume TmpVolumeName ''Memory'', emptyDirVolume ''sidecar-tmp'' []]
     \<and> podContainers pod' = podContainers pod \<and> pod.more pod' = pod.more pod
     \<and> podTerminationGracePeriodSeconds pod' = Some g
     \<and> podAnnotations pod' =
         (case podTerminationGracePeriodSeconds pod of
            None \<Rightarrow> (podAnnotations pod)(AnnotationOriginalGracePeriod \<mapsto> ''unset'')
          | Some c \<Rightarrow> if c < 60 then (podAnnotations pod)(AnnotationOriginalGracePeriod \<mapsto> Itoa c)
                      else podAnnotations pod)
     \<and> (\<exists>sc. podInitContainers pod' = sc # podInitContainers pod \<and> cName sc = SidecarContainerName
          \<and> \<lparr>envName = ''HF_CSI_TERMINATION_GRACE_SECONDS'', envValue = Itoa g\<rparr> \<in> set (cEnv sc)
          \<and> ''--expected-mounts='' @ Itoa (int (length vs)) \<in> set (cArgs sc)
          \<and> (\<exists>ctx. cSecurityContext sc = Some ctx \<and> scRunAsNonRoot ctx = Some True
               \<and> scAllowPrivilegeEscalation ctx = Some False \<and> scPrivileged ctx = None)
          \<and> cResources sc = BuildResourceRequirements ops
               (foldl (mergeMaxResources ops) noResources (map (ParseMountResources ops \<circ> snd) vs))
               (DefaultMountCPURequest dflt)
               (DefaultMemoryRequestFor dflt (list_all (\<lambda>(ro, a). volumeIsReadOnly ro a) vs)))"
proof -
  obtain config' where *: "reqOperation req = ''CREATE''" "vs \<noteq> []" "\<not> hasSidecar pod"
      "pod' = injectSidecar ops dflt pod config' (int (length vs))
         (foldl (mergeMaxResources ops) noResources (map (ParseMountResources ops \<circ> snd) vs))
         (list_all (\<lambda>(ro, a). volumeIsReadOnly ro a) vs)"
    using assms(1,2) unfolding Handle_Patched_iff Let_def scanSpec_def vs_def by auto
  have "graceAfter pod = g" by (simp add: graceAfter_def g_def)
  with *(1-3) show ?thesis
    unfolding *(4) injectSidecar_shape annotations_after
    by (simp add: sidecarContainer_shape(1,2,4,5) sidecarContainer_shape(3) [simplified])
qed

text \<open>
  Admission is idempotent: when the patched pod is submitted again (re-invocation of the
  webhook) with the same answers of the API reader, it is allowed unchanged.
\<close>

theorem Handle_idempotent:
  assumes "Handle ops dflt api config marshals req = Patched pod'"
  shows "Handle ops dflt api config marshals (req\<lparr>reqObject := Some pod'\<rparr>) = Allowed ''sidecar already injected''"
proof -
  obtain pod config' n r ro where *: "sidecarVolumesOf api (reqNamespace req) (podVolumes pod) \<noteq> []"
      "reqOperation req = ''CREATE''" "pod' = injectSidecar ops dflt pod config' n r ro"
    using assms by (auto simp: Handle_Patched_iff Let_def)
  have v: "podVolumes pod' = podVolumes pod @ [emptyDirVolume TmpVolumeName ''Memory''] @ [emptyDirVolume ''sidecar-tmp'' []]"
    and "hasSidecar pod'"
    by (simp_all add: *(3) injectSidecar_shape hasSidecar_def sidecarContainer_shape)
  moreover have "sidecarVolumesOf api (reqNamespace req) (podVolumes pod') \<noteq> []"
    unfolding v sidecarVolumesOf_append using *(1) by simp
  ultimately show ?thesis using *(2) by (simp add: Handle_def scan_eq scanSpec_def Let_def)
qed

section \<open>Instances\<close>

definition samplePod :: "nat pod" where
  "samplePod =
     \<lparr>podName = ''w'', podNamespace = ''ns'', podUID = ''u-1'', podLabels = Map.empty, podAnnotations = Map.empty,
      podDeletionTimestamp = False,
      podVolumes = [\<lparr>volName = ''data'',
        volCSI = Some \<lparr>csiDriver = CSIDriverName, csiReadOnly = None, csiVolumeAttributes = [''sourceType'' \<mapsto> ''repo'']\<rparr>,
        volPVC = None, volEmptyDir = None, volHostPath = None\<rparr>],
      podInitContainers = [], podContainers = [], podTerminationGracePeriodSeconds = Some 5,
      podStatusPhase = PodPending, podContainerStatuses = []\<rparr>"

definition sampleRequest :: "nat pod admissionRequest" where
  "sampleRequest = \<lparr>reqOperation = ''CREATE'', reqNamespace = ''ns'', reqObject = Some samplePod\<rparr>"

definition sampleDefaults :: "nat resourceDefaults" where
  "sampleDefaults = \<lparr>DefaultMountCPURequest = 1, DefaultMountMemoryRequest = 20, DefaultMountMemoryRequestReadOnly = 2\<rparr>"

definition sampleApi :: apiReader where
  "sampleApi = \<lparr>getPVC = (\<lambda>ns n. None), getPV = (\<lambda>n. None)\<rparr>"

definition sampleConfig :: webhookConfig where
  "sampleConfig = \<lparr>SidecarImage = ''img'', SidecarLogFormat = []\<rparr>"

lemma sample_patched:
  "\<exists>pod'. Handle sampleOps sampleDefaults sampleApi sampleConfig (\<lambda>_. True) sampleRequest = Patched pod'"
  by (simp add: Handle_Patched_iff sampleRequest_def samplePod_def sidecarVolumesOf_def hfAttrs_def
      List.map_filter_def attr_def volumeAttrMountMode_def mountModeMountPod_def hasSidecar_def Let_def)

theorem Handle_patch_witness:
  "\<exists>pod'. Handle sampleOps sampleDefaults sampleApi sampleConfig (\<lambda>_. True) sampleRequest = Patched pod'
     \<and> podTerminationGracePeriodSeconds pod' = Some 60
     \<and> podAnnotations pod' = [AnnotationOriginalGracePeriod \<mapsto> Itoa 5]"
proof -
  obtain pod' where p: "Handle sampleOps sampleDefaults sampleApi sampleConfig (\<lambda>_. True) sampleRequest = Patched pod'"
    using sample_patched by blast
  from Handle_patch [OF p, of samplePod] p show ?thesis
    by (simp add: sampleRequest_def Let_def samplePod_def)
qed

theorem Handle_idempotent_witness:
  "\<exists>pod'. Handle sampleOps sampleDefaults sampleApi sampleConfig (\<lambda>_. True) (sampleRequest\<lparr>reqObject := Some pod'\<rparr>)
     = Allowed ''sidecar already injected''"
  using sample_patched Handle_idempotent [of sampleOps sampleDefaults sampleApi sampleConfig "\<lambda>_. True" sampleRequest]
  by blast

end
