(* ===== verification/Source_Locks.thy ===== *)
theory Source_Locks
  imports Prelude
begin

text \<open>
  The per-source reference-counted mutexes of \<open>PodMounter\<close> (\<open>podmounter.go\<close>:
  \<open>acquireSourceLock\<close>, \<open>releaseSourceLock\<close> and the \<open>Lock\<close>/\<open>Unlock\<close> pair around every
  mount, unmount, cleanup and rebind), with any number of goroutines.

  A mutex object is a number; the two functions run under \<open>m.mu\<close> and are atomic, so a step of
  a goroutine is one of them or an operation on the mutex. The theorems are that operations on
  one source never overlap although mutexes are deleted and recreated, that a goroutine waits
  only for another one on its own source, and that no mutex is left behind.
\<close>

record 'src lockState =
  sourceLocks :: "'src \<rightharpoonup> nat"
  refs :: "nat \<Rightarrow> int"
  owner :: "nat \<Rightarrow> nat option"
  fresh :: nat

text \<open>\<open>lk, ok := m.sourceLocks[source]\<close>, creation of a new \<open>refMutex\<close>, \<open>lk.refs++\<close>.\<close>

definition acquireSourceLock :: "'src \<Rightarrow> 'src lockState \<Rightarrow> nat \<times> 'src lockState" where
  "acquireSourceLock src s =
     (case sourceLocks s src of
        Some lk \<Rightarrow> (lk, s\<lparr>refs := (refs s)(lk := refs s lk + 1)\<rparr>)
      | None \<Rightarrow>
         (let lk = fresh s in
          (lk, s\<lparr>sourceLocks := (sourceLocks s)(src \<mapsto> lk), refs := (refs s)(lk := 0 + 1),
                 owner := (owner s)(lk := None), fresh := fresh s + 1\<rparr>)))"

definition releaseSourceLock :: "'src \<Rightarrow> nat \<Rightarrow> 'src lockState \<Rightarrow> 'src lockState" where
  "releaseSourceLock src lk s =
     (let s1 = s\<lparr>refs := (refs s)(lk := refs s lk - 1)\<rparr> in
      if refs s1 lk = 0 then s1\<lparr>sourceLocks := (sourceLocks s1)(src := None)\<rparr> else s1)"

section \<open>Goroutines\<close>

text \<open>Where a goroutine is: it has a reference and waits for the mutex, holds it, or has
  unlocked it and still has its reference.\<close>

datatype 'src pc = Idle | Waiting 'src nat | Critical 'src nat | Unlocked 'src nat

type_synonym 'src sys = "'src lockState \<times> (nat \<Rightarrow> 'src pc)"

definition initLocks :: "'src lockState" where
  "initLocks = \<lparr>sourceLocks = Map.empty, refs = (\<lambda>_. 0), owner = (\<lambda>_. None), fresh = 0\<rparr>"

inductive lockStep :: "'src sys \<Rightarrow> 'src sys \<Rightarrow> bool" where
  acquire: "pcs t = Idle \<Longrightarrow> acquireSourceLock src s = (lk, s') \<Longrightarrow>
     lockStep (s, pcs) (s', pcs(t := Waiting src lk))"
| lock: "pcs t = Waiting src lk \<Longrightarrow> owner s lk = None \<Longrightarrow>
     lockStep (s, pcs) (s\<lparr>owner := (owner s)(lk := Some t)\<rparr>, pcs(t := Critical src lk))"
| unlock: "pcs t = Critical src lk \<Longrightarrow>
     lockStep (s, pcs) (s\<lparr>owner := (owner s)(lk := None)\<rparr>, pcs(t := Unlocked src lk))"
| release: "pcs t = Unlocked src lk \<Longrightarrow>
     lockStep (s, pcs) (releaseSourceLock src lk s, pcs(t := Idle))"

inductive reachable :: "'src sys \<Rightarrow> bool" where
  start: "reachable (initLocks, \<lambda>_. Idle)"
| step: "reachable c \<Longrightarrow> lockStep c c' \<Longrightarrow> reachable c'"

inductive_cases lockStepE: "lockStep (s, pcs) c'"

section \<open>Invariant\<close>

fun uses :: "'src pc \<Rightarrow> ('src \<times> nat) option" where
  "uses Idle = None"
| "uses (Waiting src lk) = Some (src, lk)"
| "uses (Critical src lk) = Some (src, lk)"
| "uses (Unlocked src lk) = Some (src, lk)"

definition users :: "(nat \<Rightarrow> 'src pc) \<Rightarrow> nat \<Rightarrow> nat set" where
  "users pcs lk = {t. \<exists>src. uses (pcs t) = Some (src, lk)}"

definition lock_inv :: "'src sys \<Rightarrow> bool" where
  "lock_inv c \<longleftrightarrow> (case c of (s, pcs) \<Rightarrow>
     finite {t. pcs t \<noteq> Idle}
     \<and> (\<forall>t src lk. uses (pcs t) = Some (src, lk) \<longrightarrow> sourceLocks s src = Some lk)
     \<and> (\<forall>src lk. sourceLocks s src = Some lk \<longrightarrow> lk < fresh s)
     \<and> (\<forall>src src' lk. sourceLocks s src = Some lk \<longrightarrow> sourceLocks s src' = Some lk \<longrightarrow> src = src')
     \<and> (\<forall>src lk. sourceLocks s src = Some lk \<longrightarrow> users pcs lk \<noteq> {} \<and> refs s lk = int (card (users pcs lk)))
     \<and> (\<forall>t src lk. pcs t = Critical src lk \<longrightarrow> owner s lk = Some t)
     \<and> (\<forall>src lk t. sourceLocks s src = Some lk \<longrightarrow> owner s lk = Some t \<longrightarrow> pcs t = Critical src lk))"

lemma lock_invI:
  assumes "finite {t. pcs t \<noteq> Idle}"
    "\<And>t src lk. uses (pcs t) = Some (src, lk) \<Longrightarrow> sourceLocks s src = Some lk"
    "\<And>src lk. sourceLocks s src = Some lk \<Longrightarrow> lk < fresh s"
    "\<And>src src' lk. sourceLocks s src = Some lk \<Longrightarrow> sourceLocks s src' = Some lk \<Longrightarrow> src = src'"
    "\<And>src lk. sourceLocks s src = Some lk \<Longrightarrow> users pcs lk \<noteq> {} \<and> refs s lk = int (card (users pcs lk))"
    "\<And>t src lk. pcs t = Critical src lk \<Longrightarrow> owner s lk = Some t"
    "\<And>src lk t. sourceLocks s src = Some lk \<Longrightarrow> owner s lk = Some t \<Longrightarrow> pcs t = Critical src lk"
  shows "lock_inv (s, pcs)"
  unfolding lock_inv_def prod.case
  apply (intro conjI allI impI)
         apply (rule assms(1))
        apply (erule assms(2))
       apply (erule assms(3))
      apply (erule (1) assms(4))
     apply (erule assms(5) [THEN conjunct1])
    apply (erule assms(5) [THEN conjunct2])
   apply (erule assms(6))
  apply (erule (1) assms(7))
  done

lemma lock_invD:
  assumes "lock_inv (s, pcs)"
  shows "finite {t. pcs t \<noteq> Idle}"
    "uses (pcs t) = Some (src, lk) \<Longrightarrow> sourceLocks s src = Some lk"
    "sourceLocks s src = Some lk \<Longrightarrow> lk < fresh s"
    "sourceLocks s src = Some lk \<Longrightarrow> sourceLocks s src' = Some lk \<Longrightarrow> src = src'"
    "sourceLocks s src = Some lk \<Longrightarrow> users pcs lk \<noteq> {} \<and> refs s lk = int (card (users pcs lk))"
    "pcs t = Critical src lk \<Longrightarrow> owner s lk = Some t"
    "sourceLocks s src = Some lk \<Longrightarrow> owner s lk = Some t \<Longrightarrow> pcs t = Critical src lk"
  using assms unfolding lock_inv_def prod.case by blast+

lemma uses_None [simp]: "uses p = None \<longleftrightarrow> p = Idle"
  by (cases p) auto

lemma users_upd:
  "users (pcs(t := p)) lk =
     (if (\<exists>src. uses p = Some (src, lk)) then insert t (users pcs lk) else users pcs lk - {t})"
  by (auto simp: users_def)

lemma users_finite: "finite {t. pcs t \<noteq> Idle} \<Longrightarrow> finite (users pcs lk)"
  by (rule finite_subset [rotated]) (auto simp: users_def)

lemma nonidle_upd: "finite {t. pcs t \<noteq> Idle} \<Longrightarrow> finite {u. (pcs(t := p)) u \<noteq> Idle}"
  by (rule finite_subset [of _ "insert t {u. pcs u \<noteq> Idle}"]) auto

lemma users_idle: "pcs t = Idle \<Longrightarrow> t \<notin> users pcs lk"
  by (simp add: users_def)

lemma users_same:
  "uses p = uses (pcs t) \<Longrightarrow> users (pcs(t := p)) lk = users pcs lk"
  by (auto simp: users_def)

lemma lock_inv_acquire:
  assumes inv: "lock_inv (s, pcs)" and idle: "pcs t = Idle" and acq: "acquireSourceLock src s = (lk, s')"
  shows "lock_inv (s', pcs(t := Waiting src lk))"
proof (cases "sourceLocks s src")
  case (Some lk0)
  note D = lock_invD [OF inv]
  from acq Some have s': "lk = lk0" "s' = s\<lparr>refs := (refs s)(lk := refs s lk + 1)\<rparr>"
    by (auto simp: acquireSourceLock_def)
  have u: "users (pcs(t := Waiting src lk)) k = (if k = lk then insert t (users pcs k) else users pcs k)" for k
    using users_idle [of pcs t, OF idle] by (auto simp: users_upd)
  have new: "t \<notin> users pcs lk" "finite (users pcs lk)" using users_idle [of pcs t, OF idle] users_finite [OF D(1)] by auto
  show ?thesis
  proof (rule lock_invI, goal_cases)
    case 1 show ?case by (rule nonidle_upd [OF D(1)])
  next
    case (2 t' src' k) then show ?case using D(2) [of t' src' k] Some s' by (auto split: if_splits)
  next
    case (3 src' k) then show ?case using D(3) s' by auto
  next
    case (4 src1 src2 k) then show ?case using D(4) s' by auto
  next
    case (5 src' k) then show ?case using D(5) [of src' k] new unfolding u s'(2) by auto
  next
    case (6 t' src' k) then show ?case using D(6) s' by (auto split: if_splits)
  next
    case (7 src' k t') then show ?case using D(7) [of src' k t'] s' idle by (auto split: if_splits)
  qed
next
  case None
  note D = lock_invD [OF inv]
  define lk0 where "lk0 = fresh s"
  from acq None have s': "lk = lk0" "s' = s\<lparr>sourceLocks := (sourceLocks s)(src \<mapsto> lk0), refs := (refs s)(lk0 := 1),
       owner := (owner s)(lk0 := None), fresh := fresh s + 1\<rparr>"
    by (auto simp: acquireSourceLock_def lk0_def Let_def)
  have nolk: "sourceLocks s src' \<noteq> Some lk0" for src' using D(3) by (auto simp: lk0_def)
  then have "users pcs lk0 = {}" using D(2) by (force simp: users_def)
  then have u: "users (pcs(t := Waiting src lk)) k = (if k = lk0 then {t} else users pcs k)" for k
    using users_idle [of pcs t, OF idle] s'(1) by (auto simp: users_upd)
  have ncrit: "pcs t' \<noteq> Critical src' lk0" for t' src' using nolk D(2) [of t' src' lk0] by auto
  show ?thesis
  proof (rule lock_invI, goal_cases)
    case 1 show ?case by (rule nonidle_upd [OF D(1)])
  next
    case (2 t' src' k) then show ?case using D(2) [of t' src' k] None s' by (auto split: if_splits)
  next
    case (3 src' k) then show ?case using D(3) [of src' k] unfolding s'(2) lk0_def by (auto split: if_splits)
  next
    case (4 src1 src2 k)
    then show ?case using D(4) [of src1 k src2] nolk [of src1] nolk [of src2] s' by (auto split: if_splits)
  next
    case (5 src' k) then show ?case using D(5) [of src' k] nolk [of src'] unfolding u s'(2) by (auto split: if_splits)
  next
    case (6 t' src' k) then show ?case using D(6) [of t' src' k] ncrit [of t' src'] s' by (auto split: if_splits)
  next
    case (7 src' k t') then show ?case using D(7) [of src' k t'] s' idle by (auto split: if_splits)
  qed
qed

lemma lock_inv_lock:
  assumes inv: "lock_inv (s, pcs)" and w: "pcs t = Waiting src lk" and free: "owner s lk = None"
  shows "lock_inv (s\<lparr>owner := (owner s)(lk := Some t)\<rparr>, pcs(t := Critical src lk))"
proof -
  note D = lock_invD [OF inv]
  have u: "users (pcs(t := Critical src lk)) k = users pcs k" for k using w by (intro users_same) simp
  have src: "sourceLocks s src = Some lk" using D(2) [of t src lk] w by simp
  show ?thesis
  proof (rule lock_invI, goal_cases)
    case 1 show ?case by (rule nonidle_upd [OF D(1)])
  next
    case (2 t' src' k) then show ?case using src D(2) by (auto split: if_splits)
  next
    case (3 src' k) then show ?case using D(3) by auto
  next
    case (4 src1 src2 k) then show ?case using D(4) by auto
  next
    case (5 src' k) then show ?case using D(5) by (simp add: u)
  next
    case (6 t' src' k)
    then show ?case using D(6) [of t' src' k] free by (auto split: if_splits)
  next
    case (7 src' k t')
    then show ?case using D(4) [of src' lk src] D(7) [of src' k t'] src w by (auto split: if_splits)
  qed
qed

lemma lock_inv_unlock:
  assumes inv: "lock_inv (s, pcs)" and w: "pcs t = Critical src lk"
  shows "lock_inv (s\<lparr>owner := (owner s)(lk := None)\<rparr>, pcs(t := Unlocked src lk))"
proof -
  note D = lock_invD [OF inv]
  have u: "users (pcs(t := Unlocked src lk)) k = users pcs k" for k using w by (intro users_same) simp
  have src: "sourceLocks s src = Some lk" using D(2) [of t src lk] w by simp
  have own: "owner s lk = Some t" using D(6) [of t src lk] w by simp
  show ?thesis
  proof (rule lock_invI, goal_cases)
    case 1 show ?case by (rule nonidle_upd [OF D(1)])
  next
    case (2 t' src' k) then show ?case using src D(2) by (auto split: if_splits)
  next
    case (3 src' k) then show ?case using D(3) by auto
  next
    case (4 src1 src2 k) then show ?case using D(4) by auto
  next
    case (5 src' k) then show ?case using D(5) by (simp add: u)
  next
    case (6 t' src' k)
    then show ?case using D(6) [of t' src' k] own by (auto split: if_splits)
  next
    case (7 src' k t')
    then show ?case using D(7) [of src' k t'] w by (auto split: if_splits)
  qed
qed

lemma lock_inv_release:
  assumes inv: "lock_inv (s, pcs)" and w: "pcs t = Unlocked src lk"
  shows "lock_inv (releaseSourceLock src lk s, pcs(t := Idle))"
proof -
  note D = lock_invD [OF inv]
  have src: "sourceLocks s src = Some lk" using D(2) [of t src lk] w by simp
  have t: "t \<in> users pcs lk" and fin: "finite (users pcs lk)"
    using w users_finite [OF D(1)] by (auto simp: users_def)
  have nt: "t \<notin> users pcs k" if "k \<noteq> lk" for k using that w by (auto simp: users_def)
  have u: "users (pcs(t := Idle)) k = (if k = lk then users pcs lk - {t} else users pcs k)" for k
    using nt by (auto simp: users_upd)
  have rf: "refs s lk - 1 = int (card (users pcs lk - {t}))"
    using D(5) [OF src] card_Suc_Diff1 [OF fin t] by simp
  show ?thesis
  proof (cases "refs s lk - 1 = 0")
    case True
    with rf fin have e: "users pcs lk - {t} = {}" by simp
    have only: "uses (pcs t') = Some (src', k) \<Longrightarrow> t' \<noteq> t \<Longrightarrow> src' \<noteq> src" for t' src' k
    proof
      assume "uses (pcs t') = Some (src', k)" "t' \<noteq> t" "src' = src"
      then have "k = lk" using D(2) src by auto
      with \<open>uses (pcs t') = Some (src', k)\<close> have "t' \<in> users pcs lk" by (auto simp: users_def)
      with e \<open>t' \<noteq> t\<close> show False by auto
    qed
    have "releaseSourceLock src lk s = s\<lparr>refs := (refs s)(lk := refs s lk - 1), sourceLocks := (sourceLocks s)(src := None)\<rparr>"
      using True by (simp add: releaseSourceLock_def)
    moreover have "lock_inv (s\<lparr>refs := (refs s)(lk := refs s lk - 1), sourceLocks := (sourceLocks s)(src := None)\<rparr>, pcs(t := Idle))"
    proof (rule lock_invI, goal_cases)
      case 1 show ?case by (rule nonidle_upd [OF D(1)])
    next
      case (2 t' src' k) then show ?case using only [of t' src' k] D(2) [of t' src' k] by (auto split: if_splits)
    next
      case (3 src' k) then show ?case using D(3) by (auto split: if_splits)
    next
      case (4 src1 src2 k) then show ?case using D(4) by (auto split: if_splits)
    next
      case (5 src' k)
      then have "k \<noteq> lk" "sourceLocks s src' = Some k" using D(4) [of src' k src] src by (auto split: if_splits)
      then show ?case using D(5) [of src' k] by (simp add: u)
    next
      case (6 t' src' k) then show ?case using D(6) by (auto split: if_splits)
    next
      case (7 src' k t') then show ?case using D(7) [of src' k t'] w by (auto split: if_splits)
    qed
    ultimately show ?thesis by simp
  next
    case False
    then have "releaseSourceLock src lk s = s\<lparr>refs := (refs s)(lk := refs s lk - 1)\<rparr>"
      by (simp add: releaseSourceLock_def)
    moreover have ne: "users pcs lk - {t} \<noteq> {}" using False rf by (metis card.empty of_nat_0)
    have "lock_inv (s\<lparr>refs := (refs s)(lk := refs s lk - 1)\<rparr>, pcs(t := Idle))"
    proof (rule lock_invI, goal_cases)
      case 1 show ?case by (rule nonidle_upd [OF D(1)])
    next
      case (2 t' src' k) then show ?case using D(2) [of t' src' k] by (auto split: if_splits)
    next
      case (3 src' k) then show ?case using D(3) by auto
    next
      case (4 src1 src2 k) then show ?case using D(4) by auto
    next
      case (5 src' k) then show ?case using D(5) [of src' k] ne rf by (simp add: u)
    next
      case (6 t' src' k) then show ?case using D(6) by (auto split: if_splits)
    next
      case (7 src' k t') then show ?case using D(7) [of src' k t'] w by (auto split: if_splits)
    qed
    ultimately show ?thesis by simp
  qed
qed

lemma lock_inv_step: "lockStep c c' \<Longrightarrow> lock_inv c \<Longrightarrow> lock_inv c'"
  by (induction rule: lockStep.induct)
     (auto intro: lock_inv_acquire lock_inv_lock lock_inv_unlock lock_inv_release)

lemma lock_inv_reachable: "reachable c \<Longrightarrow> lock_inv c"
proof (induction rule: reachable.induct)
  case start
  show ?case by (auto simp: lock_inv_def initLocks_def)
qed (auto intro: lock_inv_step)

section \<open>Exclusion, progress, no leak\<close>

text \<open>
  (C36) Operations on one source never overlap: in every reachable state at most one goroutine is
  between \<open>Lock\<close> and \<open>Unlock\<close> for a given source, whatever mutexes were created and deleted
  for it before.
\<close>

theorem source_lock_exclusion:
  assumes "reachable (s, pcs)" "pcs t1 = Critical src lk1" "pcs t2 = Critical src lk2"
  shows "t1 = t2 \<and> lk1 = lk2"
proof -
  note D = lock_invD [OF lock_inv_reachable [OF assms(1)]]
  have "lk1 = lk2" using D(2) [of t1 src lk1] D(2) [of t2 src lk2] assms(2,3) by simp
  then show ?thesis using D(6) [OF assms(2)] D(6) [OF assms(3)] by simp
qed

text \<open>
  A goroutine that waits for a source can take its mutex as soon as no goroutine is
  working on the same source: operations on other sources never block it, and a mutex that was
  deleted cannot be left locked.
\<close>

theorem source_lock_progress:
  assumes "reachable (s, pcs)" "pcs t = Waiting src lk" "\<And>t' lk'. pcs t' \<noteq> Critical src lk'"
  shows "lockStep (s, pcs) (s\<lparr>owner := (owner s)(lk := Some t)\<rparr>, pcs(t := Critical src lk))"
proof -
  note D = lock_invD [OF lock_inv_reachable [OF assms(1)]]
  have "sourceLocks s src = Some lk" using D(2) [of t src lk] assms(2) by simp
  then have "owner s lk = None" using D(7) [of src lk] assms(3) by (cases "owner s lk") auto
  with assms(2) show ?thesis by (rule lockStep.lock)
qed

text \<open>
  Mutexes are cleaned up: the map holds a mutex for a source exactly while some goroutine
  has a reference to it, and its count is the number of those goroutines; when all are done
  the map is empty.
\<close>

theorem source_locks_no_leak:
  assumes "reachable (s, pcs)"
  shows "(sourceLocks s src \<noteq> None \<longleftrightarrow> (\<exists>t lk. uses (pcs t) = Some (src, lk)))
    \<and> (sourceLocks s src = Some lk \<longrightarrow> refs s lk = int (card {t. uses (pcs t) = Some (src, lk)}))"
proof -
  note D = lock_invD [OF lock_inv_reachable [OF assms]]
  have u: "users pcs lk = {t. uses (pcs t) = Some (src, lk)}" if "sourceLocks s src = Some lk" for lk
  proof -
    have "uses (pcs t) = Some (src', lk) \<Longrightarrow> src' = src" for t src'
      using D(2) [of t src' lk] D(4) [of src' lk src] that by simp
    then show ?thesis by (auto simp: users_def)
  qed
  have "(\<exists>t lk. uses (pcs t) = Some (src, lk))" if "sourceLocks s src = Some lk" for lk
    using D(5) [OF that] unfolding u [OF that] by blast
  then show ?thesis using D(2) D(5) u by fastforce
qed

section \<open>Instances\<close>

text \<open>Two goroutines meet on one source, the first in its critical section.\<close>

definition oneLock :: "nat lockState" where
  "oneLock = initLocks\<lparr>sourceLocks := [7 \<mapsto> 0], refs := (\<lambda>_. 0)(0 := 1), fresh := 1\<rparr>"

lemma sample_waiting: "reachable (oneLock, (\<lambda>_. Idle)(1 := Waiting 7 0))"
proof -
  have "acquireSourceLock 7 initLocks = (0, oneLock)"
    by (simp add: acquireSourceLock_def initLocks_def oneLock_def Let_def)
  from lockStep.acquire [of "\<lambda>_. Idle" 1, OF _ this] show ?thesis
    using reachable.step [OF reachable.start] by blast
qed

lemma sample_critical:
  "reachable (oneLock\<lparr>owner := (owner oneLock)(0 := Some 1)\<rparr>, ((\<lambda>_. Idle)(1 := Waiting 7 0))(1 := Critical 7 0))"
  by (rule reachable.step [OF sample_waiting], rule lockStep.lock) (simp_all add: oneLock_def initLocks_def)

theorem source_lock_exclusion_witness:
  "(1 :: nat) = 1 \<and> (0 :: nat) = 0 \<and> reachable (oneLock\<lparr>owner := (owner oneLock)(0 := Some 1)\<rparr>, (\<lambda>_. Idle)(1 := Critical 7 0))"
  using source_lock_exclusion [OF sample_critical, of 1 7 0 1 0] sample_critical by simp

theorem source_lock_progress_witness:
  "lockStep (oneLock, (\<lambda>_. Idle)(1 := Waiting 7 0))
     (oneLock\<lparr>owner := (owner oneLock)(0 := Some 1)\<rparr>, ((\<lambda>_. Idle)(1 := Waiting 7 0))(1 := Critical 7 0))"
  by (rule source_lock_progress [OF sample_waiting]) auto

theorem source_locks_no_leak_witness:
  "refs oneLock 0 = int (card {t. uses (((\<lambda>_. Idle)(1 := Waiting 7 0)) t) = Some (7 :: nat, 0)})"
  using source_locks_no_leak [OF sample_waiting, of 7 0] by (simp add: oneLock_def)

end
