(* ===== verification/Effects.thy ===== *)
theory Effects
  imports Prelude
begin

text \<open>
  Programs with effects. The components that drive mounts, pods and files are written in the
  state monad over a record of three parts: the program's own variables, the state of
  everything outside it (whose calls are parameters with arbitrary answers), and a log of the
  calls made, which is not part of the program but lets a theorem speak about the order of
  effects. \<open>eff\<close> is a backward calculus for statements that hold for every outside.
\<close>

section \<open>Programs\<close>

record ('d, 'w, 'e) sys =
  vars :: 'd
  world :: 'w
  log :: "'e list"

text \<open>A call outside, an entry in the log, and a call that is logged with its result.\<close>

definition ask :: "('w, 'a) state \<Rightarrow> (('d, 'w, 'e) sys, 'a) state" where
  "ask m = State (\<lambda>s. case run_state m (world s) of (r, w) \<Rightarrow> (r, s\<lparr>world := w\<rparr>))"

definition note_ev :: "'e \<Rightarrow> (('d, 'w, 'e) sys, unit) state" where
  "note_ev ev = State (\<lambda>s. ((), s\<lparr>log := log s @ [ev]\<rparr>))"

definition call :: "('w, 'a) state \<Rightarrow> ('a \<Rightarrow> 'e) \<Rightarrow> (('d, 'w, 'e) sys, 'a) state" where
  "call m ev = do { r \<leftarrow> ask m; note_ev (ev r); State_Monad.return r }"

definition getVars :: "(('d, 'w, 'e) sys, 'd) state" where
  "getVars = State (\<lambda>s. (vars s, s))"

definition setVars :: "'d \<Rightarrow> (('d, 'w, 'e) sys, unit) state" where
  "setVars d = State (\<lambda>s. ((), s\<lparr>vars := d\<rparr>))"

text \<open>A conditional call without a result.\<close>

definition whenM :: "bool \<Rightarrow> ('s, 'a) state \<Rightarrow> ('s, unit) state" where
  "whenM c m = (if c then do { _ \<leftarrow> m; State_Monad.return () } else State_Monad.return ())"

lemma run_bind: "run_state (State_Monad.bind m f) w = (case run_state m w of (x, w1) \<Rightarrow> run_state (f x) w1)"
  by (simp add: State_Monad.bind_def split: prod.splits)

lemma run_return [simp]: "run_state (State_Monad.return x) w = (x, w)"
  by (simp add: State_Monad.return_def)

section \<open>Weakest preconditions of effects\<close>

text \<open>
  \<open>eff m Q b\<close>: from a state whose variables are \<open>b\<close>, and for every state and every answer of the
  outside, \<open>m\<close> only appends to the log, and its result, the variables it leaves and the events it
  appended satisfy \<open>Q\<close>.
\<close>

definition eff ::
  "(('d, 'w, 'e) sys, 'a) state \<Rightarrow> ('a \<Rightarrow> 'd \<Rightarrow> 'e list \<Rightarrow> bool) \<Rightarrow> 'd \<Rightarrow> bool" where
  "eff m Q b \<longleftrightarrow> (\<forall>s. vars s = b \<longrightarrow>
     (case run_state m s of (r, s') \<Rightarrow> \<exists>evs. log s' = log s @ evs \<and> Q r (vars s') evs))"

named_theorems eff_intros \<open>backward rules for effects\<close>

lemma effD:
  assumes "eff m Q (vars s)" "run_state m s = (r, s')"
  obtains evs where "log s' = log s @ evs" "Q r (vars s') evs"
proof -
  have "\<exists>evs. log s' = log s @ evs \<and> Q r (vars s') evs"
    using assms(1) [unfolded eff_def, rule_format, of s] assms(2) by simp
  with that show thesis by blast
qed

text \<open>The events a run has added to the log.\<close>

definition newEvents :: "('d, 'w, 'e) sys \<Rightarrow> ('d, 'w, 'e) sys \<Rightarrow> 'e list" where
  "newEvents s s' = drop (length (log s)) (log s')"

lemma eff_newEvents:
  assumes "eff m Q (vars s)" "run_state m s = (r, s')"
  shows "Q r (vars s') (newEvents s s')"
  by (rule effD [OF assms]) (simp add: newEvents_def)

lemma eff_mono: "eff m Q b \<Longrightarrow> (\<And>r b' evs. Q r b' evs \<Longrightarrow> R r b' evs) \<Longrightarrow> eff m R b"
  by (fastforce simp: eff_def split: prod.splits)

lemma eff_return [eff_intros]: "Q x b [] \<Longrightarrow> eff (State_Monad.return x) Q b"
  by (simp add: eff_def)

lemma eff_bind [eff_intros]:
  fixes m :: "(('d, 'w, 'e) sys, 'a) state"
  assumes "eff m (\<lambda>r b' evs. eff (f r) (\<lambda>r' b'' evs'. Q r' b'' (evs @ evs')) b') b"
  shows "eff (State_Monad.bind m f) Q b"
  unfolding eff_def
proof (intro allI impI)
  fix s :: "('d, 'w, 'e) sys"
  assume "vars s = b"
  obtain r s1 where m: "run_state m s = (r, s1)" by (metis surj_pair)
  then obtain evs where e: "log s1 = log s @ evs" "eff (f r) (\<lambda>r' b'' evs'. Q r' b'' (evs @ evs')) (vars s1)"
    using effD [OF _ m] assms \<open>vars s = b\<close> by blast
  obtain r' s2 where f: "run_state (f r) s1 = (r', s2)" by (metis surj_pair)
  obtain evs' where "log s2 = log s1 @ evs'" "Q r' (vars s2) (evs @ evs')"
    using effD [OF e(2) f] by blast
  with e(1) m f show "case run_state (State_Monad.bind m f) s of
      (r, s') \<Rightarrow> \<exists>evs. log s' = log s @ evs \<and> Q r (vars s') evs"
    by (auto simp: run_bind)
qed

lemma eff_ask [eff_intros]: "(\<And>r. Q r b []) \<Longrightarrow> eff (ask m) Q b"
  by (auto simp: eff_def ask_def split: prod.splits)

lemma eff_note [eff_intros]: "Q () b [ev] \<Longrightarrow> eff (note_ev ev) Q b"
  by (auto simp: eff_def note_ev_def)

lemma eff_call [eff_intros]: "(\<And>r. Q r b [ev r]) \<Longrightarrow> eff (call m ev) Q b"
  unfolding call_def by (intro eff_bind eff_ask eff_note eff_return) simp

lemma eff_getVars [eff_intros]: "Q b b [] \<Longrightarrow> eff getVars Q b"
  by (simp add: eff_def getVars_def)

lemma eff_setVars [eff_intros]: "Q () b' [] \<Longrightarrow> eff (setVars b') Q b"
  by (simp add: eff_def setVars_def)

lemma eff_if [eff_intros]: "(c \<Longrightarrow> eff m Q b) \<Longrightarrow> (\<not> c \<Longrightarrow> eff n Q b) \<Longrightarrow> eff (if c then m else n) Q b"
  by simp

lemma eff_case_option [eff_intros]:
  "(x = None \<Longrightarrow> eff m Q b) \<Longrightarrow> (\<And>y. x = Some y \<Longrightarrow> eff (n y) Q b) \<Longrightarrow>
     eff (case x of None \<Rightarrow> m | Some y \<Rightarrow> n y) Q b"
  by (cases x) auto

lemma eff_case_sum [eff_intros]:
  "(\<And>e. x = Inl e \<Longrightarrow> eff (m e) Q b) \<Longrightarrow> (\<And>y. x = Inr y \<Longrightarrow> eff (n y) Q b) \<Longrightarrow>
     eff (case x of Inl e \<Rightarrow> m e | Inr y \<Rightarrow> n y) Q b"
  by (cases x) auto

lemma eff_case_prod [eff_intros]:
  "(\<And>u v. x = (u, v) \<Longrightarrow> eff (m u v) Q b) \<Longrightarrow> eff (case x of (u, v) \<Rightarrow> m u v) Q b"
  by (cases x) auto

lemma eff_case_nat [eff_intros]:
  "(x = 0 \<Longrightarrow> eff m Q b) \<Longrightarrow> (\<And>k. x = Suc k \<Longrightarrow> eff (n k) Q b) \<Longrightarrow>
     eff (case x of 0 \<Rightarrow> m | Suc k \<Rightarrow> n k) Q b"
  by (cases x) auto

lemma eff_whenM [eff_intros]:
  assumes "c \<Longrightarrow> eff m (\<lambda>_ d evs. Q () d evs) b" "\<not> c \<Longrightarrow> Q () b []"
  shows "eff (whenM c m) Q b"
proof (cases c)
  case True
  from assms(1) [OF True] have "eff m (\<lambda>r d evs. eff (State_Monad.return ()) (\<lambda>r' d' evs'. Q r' d' (evs @ evs')) d) b"
    by (rule eff_mono) (auto intro: eff_return)
  then show ?thesis unfolding whenM_def if_P [OF True] by (rule eff_bind)
qed (use assms(2) in \<open>simp add: whenM_def eff_return\<close>)

end
