(* ===== verification/Mount_Args.thy ===== *)
theory Mount_Args
  imports Resources Naming
begin

text \<open>
  \<open>MountOptions\<close> and the command line of the FUSE daemon (\<open>pkg/driver/mounter.go\<close>). The
  theorems fix the layout of the arguments that both modes depend on: the sweeper finds the
  mount path in them, and the resource defaults are chosen from them when a pod is rebuilt.
\<close>

record 'q MountOptions =
  Revision :: string
  HubEndpoint :: string
  CacheDir :: string
  CacheSize :: string
  PollIntervalSecs :: string
  PollListingConcurrency :: string
  MetadataTtlMs :: string
  InodeSoftLimit :: string
  LruSweepIntervalMs :: string
  FuseFdCount :: string
  ReadOnly :: bool
  ExtraArgs :: "string list"
  TokenFile :: string
  WorkloadPodUID :: string
  VolumeMountGroup :: string
  Resources :: "'q MountResources"

datatype argsError = UnsupportedSourceType string

definition optArg :: "string \<Rightarrow> string \<Rightarrow> string list" where
  "optArg flag v = (if v \<noteq> [] then [flag, v] else [])"

definition flagArgs :: "'q MountOptions \<Rightarrow> string list" where
  "flagArgs opts =
     optArg ''--hub-endpoint'' (HubEndpoint opts)
     @ optArg ''--cache-dir'' (CacheDir opts)
     @ optArg ''--cache-size'' (CacheSize opts)
     @ optArg ''--poll-interval-secs'' (PollIntervalSecs opts)
     @ optArg ''--poll-listing-concurrency'' (PollListingConcurrency opts)
     @ optArg ''--metadata-ttl-ms'' (MetadataTtlMs opts)
     @ optArg ''--inode-soft-limit'' (InodeSoftLimit opts)
     @ optArg ''--lru-sweep-interval-ms'' (LruSweepIntervalMs opts)
     @ (if ReadOnly opts then [''--read-only''] else [])
     @ optArg ''--token-file'' (TokenFile opts)"

definition buildArgs ::
  "string \<Rightarrow> string \<Rightarrow> string \<Rightarrow> 'q MountOptions \<Rightarrow> argsError + string list" where
  "buildArgs sourceType sourceID target opts =
     (if sourceType \<noteq> ''bucket'' \<and> sourceType \<noteq> ''repo'' then Inl (UnsupportedSourceType sourceType)
      else
        let args = flagArgs opts @ ExtraArgs opts @ [sourceType, sourceID, target]
        in if sourceType = ''repo'' \<and> Revision opts \<noteq> [] then Inr (args @ [''--revision'', Revision opts])
           else Inr args)"

section \<open>Layout of the command line\<close>

lemma buildArgs_error_iff:
  "buildArgs st sid tgt opts = Inl e \<longleftrightarrow> st \<notin> {''bucket'', ''repo''} \<and> e = UnsupportedSourceType st"
  by (auto simp: buildArgs_def Let_def)

lemma buildArgs_target: "buildArgs st sid tgt opts = Inr args \<Longrightarrow> {st, sid, tgt} \<subseteq> set args"
  by (auto simp: buildArgs_def Let_def split: if_splits)

lemma mem_optArg: "x \<in> set (optArg flag v) \<longleftrightarrow> v \<noteq> [] \<and> (x = flag \<or> x = v)"
  by (auto simp: optArg_def)

text \<open>The values of the options, which are the only arguments not fixed by the code.\<close>

definition optionValues :: "'q MountOptions \<Rightarrow> string list" where
  "optionValues opts = [HubEndpoint opts, CacheDir opts, CacheSize opts, PollIntervalSecs opts,
     PollListingConcurrency opts, MetadataTtlMs opts, InodeSoftLimit opts, LruSweepIntervalMs opts,
     TokenFile opts]"

lemma flagArgs_words:
  "''repo'' \<in> set (flagArgs opts) \<longleftrightarrow> ''repo'' \<in> set (optionValues opts)"
  "''--read-only'' \<in> set (flagArgs opts) \<longleftrightarrow> ReadOnly opts \<or> ''--read-only'' \<in> set (optionValues opts)"
proof -
  have *: "(x \<in> set (optArg f v)) = (x = v)" if "x \<noteq> f" "x \<noteq> []" for x f v
    using that by (auto simp: mem_optArg)
  show "''repo'' \<in> set (flagArgs opts) \<longleftrightarrow> ''repo'' \<in> set (optionValues opts)"
    by (simp add: flagArgs_def optionValues_def *)
  show "''--read-only'' \<in> set (flagArgs opts) \<longleftrightarrow> ReadOnly opts \<or> ''--read-only'' \<in> set (optionValues opts)"
    by (simp add: flagArgs_def optionValues_def *) blast
qed

lemma set_buildArgs:
  assumes "buildArgs st sid tgt opts = Inr args"
  shows "set args = set (flagArgs opts) \<union> set (ExtraArgs opts) \<union> {st, sid, tgt}
      \<union> (if st = ''repo'' \<and> Revision opts \<noteq> [] then {''--revision'', Revision opts} else {})"
    "st = ''bucket'' \<or> st = ''repo''"
  using assms by (auto simp: buildArgs_def Let_def split: if_splits)

text \<open>
  The access mode survives in the arguments: for a bucket or a repo, when no option value,
  source ID, target or revision is itself the word \<open>repo\<close> or \<open>--read-only\<close>, the argument
  list that is stored in the CRD is classified read-only exactly when the source is a repo,
  the options say read-only, or a passthrough flag does. The memory request of a rebuilt pod
  is therefore the one of the original pod.
\<close>

theorem ReadOnlyFromArgs_buildArgs:
  assumes "buildArgs st sid tgt opts = Inr args"
    "{''--read-only'', ''repo''} \<inter> (set (optionValues opts) \<union> {sid, tgt}) = {}"
  shows "ReadOnlyFromArgs args \<longleftrightarrow>
    st = ''repo'' \<or> ReadOnly opts \<or> {''--read-only'', ''repo''} \<inter> set (ExtraArgs opts) \<noteq> {}"
proof (cases "st = ''repo''")
  case True
  then show ?thesis
    using set_buildArgs(1) [OF assms(1)] by (auto simp: ReadOnlyFromArgs_def list_ex_iff)
next
  case False
  with set_buildArgs [OF assms(1)] have args: "st = ''bucket''"
      "set args = set (flagArgs opts) \<union> set (ExtraArgs opts) \<union> {st, sid, tgt}"
    by simp_all
  have "ReadOnlyFromArgs args \<longleftrightarrow> ''--read-only'' \<in> set args \<or> ''repo'' \<in> set args"
    by (auto simp: ReadOnlyFromArgs_def list_ex_iff)
  with args assms(2) False show ?thesis by (auto simp: flagArgs_words)
qed

definition sampleOptions :: "nat MountOptions" where
  "sampleOptions =
     \<lparr>Revision = ''main'', HubEndpoint = ''https://hub'', CacheDir = ''/cache'', CacheSize = [],
      PollIntervalSecs = ''30'', PollListingConcurrency = [], MetadataTtlMs = [], InodeSoftLimit = [],
      LruSweepIntervalMs = [], FuseFdCount = [], ReadOnly = False, ExtraArgs = [''--read-only''],
      TokenFile = ''/cache/v/token'', WorkloadPodUID = ''u-1'', VolumeMountGroup = [], Resources = noResources\<rparr>"

theorem ReadOnlyFromArgs_buildArgs_witness:
  "\<exists>args. buildArgs ''bucket'' ''org/data'' ''/mnt/hf/0'' sampleOptions = Inr args \<and> ReadOnlyFromArgs args"
proof -
  obtain args where "buildArgs ''bucket'' ''org/data'' ''/mnt/hf/0'' sampleOptions = Inr args"
    by (simp add: buildArgs_def Let_def)
  with ReadOnlyFromArgs_buildArgs [OF this] show ?thesis
    by (simp add: sampleOptions_def optionValues_def)
qed

end
