(* ===== verification/Sidecar.thy ===== *)
theory Sidecar
  imports Effects Mount_Args Mountinfo "HOL-Library.Multiset" "HOL-Library.Word"
begin

text \<open>
  Sidecar mode: the driver performs the kernel mount itself and hands the \<open>/dev/fuse\<close>
  descriptor to the daemon in the workload pod over a Unix socket
  (\<open>pkg/driver/sidecar_mounter_linux.go\<close>, \<open>pkg/driver/unmount_linux.go\<close>,
  \<open>pkg/util/fdchannel.go\<close>).

  The kernel and the file system are the record \<open>hostEnv\<close> of calls with arbitrary answers.
  The program's own variables are the two process-wide maps \<open>sidecarVolumes\<close> (\<open>driver.go\<close>)
  and \<open>pendingSidecarMinors\<close> (\<open>fuse_sweeper.go\<close>). The log has every call that changes
  something, in order. The theorems: no descriptor is leaked or closed twice on any path, a failed
  mount is undone, control files are never opened through a symbolic link, and the outcome of a
  handoff is recorded before the sweeper may act on the connection.
\<close>

section \<open>The outside\<close>

text \<open>An entry of \<open>mount.ParseMountInfo\<close>, the fields in use.\<close>

record mountInfo =
  miMountPoint :: string
  miFsType :: string
  miSource :: string
  miMinor :: int

datatype openMode = ReadOnlyMode | WriteCreateTruncMode

record openHow =
  howMode :: openMode
  howPerm :: nat
  howNoSymlinks :: bool
  howBeneath :: bool

record 'w hostEnv =
  parseMountInfo :: "('w, oserr + mountInfo list) state"
  procMountinfo :: "('w, (string \<times> bool) option) state"
  getenv :: "string \<Rightarrow> ('w, string) state"
  openFuse :: "('w, oserr + int) state"
  ioctlClone :: "int \<Rightarrow> 32 word \<Rightarrow> ('w, oserr option) state"
  closeFd :: "int \<Rightarrow> ('w, oserr option) state"
  mountFuse :: "string \<Rightarrow> string \<Rightarrow> string \<Rightarrow> ('w, oserr option) state"
  sysUnmount :: "string \<Rightarrow> ('w, oserr option) state"
  osMkdirAll :: "string \<Rightarrow> ('w, oserr option) state"
  osChown :: "string \<Rightarrow> ('w, oserr option) state"
  osLchown :: "string \<Rightarrow> ('w, oserr option) state"
  osRemove :: "string \<Rightarrow> ('w, oserr option) state"
  osReadFile :: "string \<Rightarrow> ('w, oserr + string) state"
  osWriteFile :: "string \<Rightarrow> string \<Rightarrow> ('w, oserr option) state"
  osSymlink :: "string \<Rightarrow> string \<Rightarrow> ('w, oserr option) state"
  osLstat :: "string \<Rightarrow> ('w, oserr + bool) state"
  openDir :: "string \<Rightarrow> ('w, oserr + int) state"
  openat2 :: "int \<Rightarrow> string \<Rightarrow> openHow \<Rightarrow> ('w, oserr + int) state"
  fdWrite :: "int \<Rightarrow> string \<Rightarrow> ('w, oserr option) state"
  fdReadAll :: "int \<Rightarrow> ('w, oserr + string) state"
  fdChown :: "int \<Rightarrow> ('w, oserr option) state"
  netListen :: "string \<Rightarrow> ('w, oserr + nat) state"
  netAccept :: "nat \<Rightarrow> nat \<Rightarrow> ('w, oserr + nat) state"
  closeListener :: "nat \<Rightarrow> ('w, oserr option) state"
  closeConn :: "nat \<Rightarrow> ('w, oserr option) state"
  connFile :: "nat \<Rightarrow> ('w, oserr + int) state"
  sendmsg :: "int \<Rightarrow> string \<Rightarrow> int list \<Rightarrow> ('w, oserr option) state"
  osCreateTemp :: "string \<Rightarrow> ('w, oserr + string \<times> int) state"
  osRename :: "string \<Rightarrow> string \<Rightarrow> ('w, oserr option) state"

text \<open>What the goroutine of the handoff captures.\<close>

record handoffJob =
  jobVolumeDir :: string
  jobSymlink :: string
  jobListener :: nat
  jobFd :: int
  jobMinor :: "int option"
  jobFdCount :: string

text \<open>The calls that change something, or may block on the target.\<close>

datatype hostEvent =
    FuseOpened "oserr + int"
  | DirOpened string "oserr + int"
  | FileOpened int string openHow "oserr + int"
  | SockDup nat "oserr + int"
  | FdClosed int
  | FdWritten int string
  | FdChowned int
  | KernelMounted string string string "oserr option"
  | KernelUnmounted string
  | DirMade string
  | PathChowned string
  | PathLchowned string
  | PathRemoved string "oserr option"
  | PathWritten string string
  | Symlinked string string
  | Listening string "oserr + nat"
  | ListenerClosed nat
  | ConnClosed nat
  | FdsSent "int list" "oserr option"
  | PendingMarked int
  | PendingCleared int
  | HandoffStarted handoffJob
  | Detached string "oserr option"
  | TargetStat string
  | MounterMount string string string bool
  | MounterUnmount string bool
  | TempCreated string "oserr + string \<times> int"
  | Renamed string string "oserr option"

record nodeVars =
  sidecarVolumes :: "string set"
  pendingSidecarMinors :: "int set"

type_synonym 'w host = "(nodeVars, 'w, hostEvent) sys"

section \<open>Pending handoffs\<close>

definition markSidecarHandoffPending :: "int \<Rightarrow> ('w host, unit) state" where
  "markSidecarHandoffPending minor =
     do { v \<leftarrow> getVars;
          setVars (v\<lparr>pendingSidecarMinors := insert minor (pendingSidecarMinors v)\<rparr>);
          note_ev (PendingMarked minor) }"

definition clearSidecarHandoffPending :: "int \<Rightarrow> ('w host, unit) state" where
  "clearSidecarHandoffPending minor =
     do { v \<leftarrow> getVars;
          setVars (v\<lparr>pendingSidecarMinors := pendingSidecarMinors v - {minor}\<rparr>);
          note_ev (PendingCleared minor) }"

definition sidecarHandoffPending :: "int \<Rightarrow> ('w host, bool) state" where
  "sidecarHandoffPending minor =
     do { v \<leftarrow> getVars; State_Monad.return (minor \<in> pendingSidecarMinors v) }"

section \<open>Descriptors\<close>

definition defaultSidecarFuseFdCount :: int where
  "defaultSidecarFuseFdCount = 4"

definition overrideCount :: "string \<Rightarrow> int \<Rightarrow> int" where
  "overrideCount v n =
     (if v \<noteq> [] then (case Atoi v of Some parsed \<Rightarrow> if 1 \<le> parsed then parsed else n | None \<Rightarrow> n) else n)"

definition sidecarFuseFdCount :: "string \<Rightarrow> string \<Rightarrow> int" where
  "sidecarFuseFdCount envVar volumeAttr =
     (let n = overrideCount volumeAttr (overrideCount envVar defaultSidecarFuseFdCount)
      in if 32 < n then 32 else n)"

definition sysClose :: "'w hostEnv \<Rightarrow> int \<Rightarrow> ('w host, oserr option) state" where
  "sysClose h fd = call (closeFd h fd) (\<lambda>_. FdClosed fd)"

definition cloneFuseFd :: "'w hostEnv \<Rightarrow> int \<Rightarrow> ('w host, oserr + int) state" where
  "cloneFuseFd h src =
     do { r \<leftarrow> call (openFuse h) FuseOpened;
          case r of
            Inl e \<Rightarrow> State_Monad.return (Inl e)
          | Inr dst \<Rightarrow>
              do { e \<leftarrow> ask (ioctlClone h dst (word_of_int src));
                   case e of
                     Some errno \<Rightarrow> do { _ \<leftarrow> sysClose h dst; State_Monad.return (Inl errno) }
                   | None \<Rightarrow> State_Monad.return (Inr dst) } }"

datatype sendErr = EmptyFdList | SocketFd oserr | SendFailed oserr

definition SendMsgFds :: "'w hostEnv \<Rightarrow> nat \<Rightarrow> int list \<Rightarrow> string \<Rightarrow> ('w host, sendErr option) state" where
  "SendMsgFds h conn fds msg =
     (if fds = [] then State_Monad.return (Some EmptyFdList)
      else
        do { f \<leftarrow> call (connFile h conn) (SockDup conn);
             case f of
               Inl e \<Rightarrow> State_Monad.return (Some (SocketFd e))
             | Inr sock \<Rightarrow>
                 do { e \<leftarrow> call (sendmsg h sock msg fds) (FdsSent fds);
                      _ \<leftarrow> sysClose h sock;
                      State_Monad.return (map_option SendFailed e) } })"

section \<open>Mount table\<close>

definition sidecarMountInfo :: "'w hostEnv \<Rightarrow> string \<Rightarrow> ('w host, oserr + mountInfo option) state" where
  "sidecarMountInfo h target =
     do { r \<leftarrow> ask (parseMountInfo h);
          State_Monad.return
            (case r of
               Inl e \<Rightarrow> Inl e
             | Inr infos \<Rightarrow> Inr (find (\<lambda>i. unescapeMountPath (miMountPoint i) = Clean target) (rev infos))) }"

datatype mountStateErr = MountInfoUnreadable oserr | UnexpectedMount string string

definition sidecarMountState :: "'w hostEnv \<Rightarrow> string \<Rightarrow> ('w host, mountStateErr + int \<times> bool) state" where
  "sidecarMountState h target =
     do { r \<leftarrow> sidecarMountInfo h target;
          State_Monad.return
            (case r of
               Inl e \<Rightarrow> Inl (MountInfoUnreadable e)
             | Inr None \<Rightarrow> Inr (0, False)
             | Inr (Some info) \<Rightarrow>
                 if (miFsType info \<noteq> ''fuse'' \<and> miFsType info \<noteq> ''fuse.hf-mount'') \<or> miSource info \<noteq> fuseMountSource
                 then Inl (UnexpectedMount (miFsType info) (miSource info))
                 else Inr (miMinor info, True)) }"

datatype tmpfsErr = CheckFailed oserr | NotTmpfs

definition requireSidecarTmpfs :: "'w hostEnv \<Rightarrow> string \<Rightarrow> ('w host, tmpfsErr option) state" where
  "requireSidecarTmpfs h tmpDir =
     do { r \<leftarrow> sidecarMountInfo h tmpDir;
          State_Monad.return
            (case r of
               Inl e \<Rightarrow> Some (CheckFailed e)
             | Inr None \<Rightarrow> Some NotTmpfs
             | Inr (Some info) \<Rightarrow> if miFsType info \<noteq> ''tmpfs'' then Some NotTmpfs else None) }"

definition fuseMinorForMount :: "'w hostEnv \<Rightarrow> string \<Rightarrow> ('w host, int option) state" where
  "fuseMinorForMount h mountPoint =
     do { r \<leftarrow> ask (procMountinfo h);
          State_Monad.return (case r of None \<Rightarrow> None | Some (content, ok) \<Rightarrow> parseFuseMinor content ok mountPoint) }"

definition abortPath :: "int \<Rightarrow> string" where
  "abortPath minor = ''/sys/fs/fuse/connections/'' @ Itoa minor @ ''/abort''"

definition abortFuseConnection :: "'w hostEnv \<Rightarrow> string \<Rightarrow> ('w host, unit) state" where
  "abortFuseConnection h target =
     do { m \<leftarrow> fuseMinorForMount h target;
          case m of
            None \<Rightarrow> State_Monad.return ()
          | Some minor \<Rightarrow>
              do { _ \<leftarrow> call (osWriteFile h (abortPath minor) ''1'') (\<lambda>_. PathWritten (abortPath minor) ''1'');
                   State_Monad.return () } }"

section \<open>Control files of the handoff\<close>

datatype handoffErr =
    HandoffDir oserr
  | HandoffOpen oserr
  | HandoffWrite oserr
  | HandoffChown oserr
  | HandoffClose oserr
  | HandoffRead oserr

definition openHandoffFile ::
  "'w hostEnv \<Rightarrow> string \<Rightarrow> string \<Rightarrow> openMode \<Rightarrow> nat \<Rightarrow> ('w host, handoffErr + int) state" where
  "openHandoffFile h dir name mode perm =
     do { d \<leftarrow> call (openDir h dir) (DirOpened dir);
          case d of
            Inl e \<Rightarrow> State_Monad.return (Inl (HandoffDir e))
          | Inr dirFd \<Rightarrow>
              (let how = \<lparr>howMode = mode, howPerm = perm, howNoSymlinks = True, howBeneath = True\<rparr> in
               do { r \<leftarrow> call (openat2 h dirFd name how) (FileOpened dirFd name how);
                    _ \<leftarrow> sysClose h dirFd;
                    State_Monad.return (case r of Inl e \<Rightarrow> Inl (HandoffOpen e) | Inr fd \<Rightarrow> Inr fd) }) }"

text \<open>The deferred \<open>f.Close()\<close> does nothing after the explicit one.\<close>

definition writeHandoffFile ::
  "'w hostEnv \<Rightarrow> string \<Rightarrow> string \<Rightarrow> string \<Rightarrow> nat \<Rightarrow> bool \<Rightarrow> ('w host, handoffErr option) state" where
  "writeHandoffFile h dir name data perm chownSidecar =
     do { f \<leftarrow> openHandoffFile h dir name WriteCreateTruncMode perm;
          case f of
            Inl e \<Rightarrow> State_Monad.return (Some e)
          | Inr fd \<Rightarrow>
              do { we \<leftarrow> call (fdWrite h fd data) (\<lambda>_. FdWritten fd data);
                   case we of
                     Some e \<Rightarrow> do { _ \<leftarrow> sysClose h fd; State_Monad.return (Some (HandoffWrite e)) }
                   | None \<Rightarrow>
                       do { ce \<leftarrow> (if chownSidecar then call (fdChown h fd) (\<lambda>_. FdChowned fd)
                                   else State_Monad.return None);
                            case ce of
                              Some e \<Rightarrow> do { _ \<leftarrow> sysClose h fd; State_Monad.return (Some (HandoffChown e)) }
                            | None \<Rightarrow> do { e \<leftarrow> sysClose h fd; State_Monad.return (map_option HandoffClose e) } } } }"

definition readHandoffFile :: "'w hostEnv \<Rightarrow> string \<Rightarrow> string \<Rightarrow> ('w host, handoffErr + string) state" where
  "readHandoffFile h dir name =
     do { f \<leftarrow> openHandoffFile h dir name ReadOnlyMode 0;
          case f of
            Inl e \<Rightarrow> State_Monad.return (Inl e)
          | Inr fd \<Rightarrow>
              do { r \<leftarrow> ask (fdReadAll h fd);
                   _ \<leftarrow> sysClose h fd;
                   State_Monad.return (case r of Inl e \<Rightarrow> Inl (HandoffRead e) | Inr data \<Rightarrow> Inr data) } }"

section \<open>Mounting\<close>

datatype sidecarErr =
    TmpfsNotReady tmpfsErr
  | OpenFuseFailed oserr
  | FuseMountFailed oserr
  | VolumeDirFailed oserr
  | ClearStatusFailed string oserr
  | TokenWriteFailed handoffErr
  | SidecarArgsFailed argsError
  | ArgsWriteFailed handoffErr
  | SymlinkBaseFailed oserr
  | SymlinkFailed oserr
  | ListenFailed oserr

definition fuseOwner :: "string \<Rightarrow> int" where
  "fuseOwner volumeMountGroup =
     (if volumeMountGroup \<noteq> [] then (case Atoi volumeMountGroup of Some v \<Rightarrow> if 0 < v then v else 0 | None \<Rightarrow> 0) else 0)"

definition fuseMountData :: "int \<Rightarrow> int \<Rightarrow> string" where
  "fuseMountData fd owner =
     ''fd='' @ Itoa fd @ '',rootmode=40755,user_id='' @ Itoa owner @ '',group_id='' @ Itoa owner
       @ '',allow_other,default_permissions''"

fun clearStatus :: "'w hostEnv \<Rightarrow> string \<Rightarrow> string list \<Rightarrow> ('w host, sidecarErr option) state" where
  "clearStatus h volumeDir [] = State_Monad.return None"
| "clearStatus h volumeDir (name # names) =
     do { e \<leftarrow> call (osRemove h (pathJoin [volumeDir, name])) (PathRemoved (pathJoin [volumeDir, name]));
          if e \<noteq> None \<and> e \<noteq> Some ENOENT then State_Monad.return (Some (ClearStatusFailed name (the e)))
          else clearStatus h volumeDir names }"

text \<open>Copying the token; the result has the options with the path the sidecar sees.\<close>

definition copyToken ::
  "'w hostEnv \<Rightarrow> string \<Rightarrow> 'q MountOptions \<Rightarrow> ('w host, sidecarErr + 'q MountOptions) state" where
  "copyToken h volumeDir opts =
     (if TokenFile opts \<noteq> [] then
        do { r \<leftarrow> ask (osReadFile h (TokenFile opts));
             we \<leftarrow> (case r of
                      Inl _ \<Rightarrow> State_Monad.return None
                    | Inr data \<Rightarrow> writeHandoffFile h volumeDir ''token'' data 384 True);
             case we of
               Some e \<Rightarrow> State_Monad.return (Inl (TokenWriteFailed e))
             | None \<Rightarrow> State_Monad.return (Inr (opts\<lparr>TokenFile := sidecarPath (pathJoin [volumeDir, ''token''])\<rparr>)) }
      else State_Monad.return (Inr opts))"

definition newline :: char where
  "newline = CHR 0x0A"

definition argsContent :: "string list \<Rightarrow> string" where
  "argsContent args = ''hf-mount-fuse-sidecar'' @ [newline] @ Join args [newline] @ [newline]"

text \<open>Step 2: the directory of the volume, its status files, token and arguments.\<close>

definition writeSidecarConfig ::
  "'w hostEnv \<Rightarrow> string \<Rightarrow> string \<Rightarrow> string \<Rightarrow> 'q MountOptions \<Rightarrow> ('w host, sidecarErr option) state" where
  "writeSidecarConfig h sourceType sourceID volumeDir opts =
     do { e1 \<leftarrow> call (osMkdirAll h volumeDir) (\<lambda>_. DirMade volumeDir);
          case e1 of
            Some e \<Rightarrow> State_Monad.return (Some (VolumeDirFailed e))
          | None \<Rightarrow>
              do { _ \<leftarrow> call (osChown h volumeDir) (\<lambda>_. PathChowned volumeDir);
                   e2 \<leftarrow> clearStatus h volumeDir [''ready'', ''error'', ''handoff-error''];
                   case e2 of
                     Some e \<Rightarrow> State_Monad.return (Some e)
                   | None \<Rightarrow>
                       do { tok \<leftarrow> copyToken h volumeDir opts;
                            case tok of
                              Inl e \<Rightarrow> State_Monad.return (Some e)
                            | Inr opts1 \<Rightarrow>
                                (case buildArgs sourceType sourceID ''/tmp'' (opts1\<lparr>CacheDir := []\<rparr>) of
                                   Inl e \<Rightarrow> State_Monad.return (Some (SidecarArgsFailed e))
                                 | Inr args \<Rightarrow>
                                     do { we \<leftarrow> writeHandoffFile h volumeDir ''args'' (argsContent args) 420 False;
                                          State_Monad.return (map_option ArgsWriteFailed we) }) } } }"

text \<open>Step 3: the socket behind a short symbolic link.\<close>

definition openSidecarSocket :: "'w hostEnv \<Rightarrow> string \<Rightarrow> string \<Rightarrow> ('w host, sidecarErr + nat) state" where
  "openSidecarSocket h volumeDir symlinkPath =
     do { e1 \<leftarrow> call (osMkdirAll h symlinkBase) (\<lambda>_. DirMade symlinkBase);
          case e1 of
            Some e \<Rightarrow> State_Monad.return (Inl (SymlinkBaseFailed e))
          | None \<Rightarrow>
              do { _ \<leftarrow> call (osRemove h symlinkPath) (PathRemoved symlinkPath);
                   e2 \<leftarrow> call (osSymlink h volumeDir symlinkPath) (\<lambda>_. Symlinked volumeDir symlinkPath);
                   case e2 of
                     Some e \<Rightarrow> State_Monad.return (Inl (SymlinkFailed e))
                   | None \<Rightarrow>
                       (let socketPath = pathJoin [symlinkPath, ''s'']; hostSocket = pathJoin [volumeDir, ''s''] in
                        do { _ \<leftarrow> call (osRemove h hostSocket) (PathRemoved hostSocket);
                             l \<leftarrow> call (netListen h socketPath) (Listening socketPath);
                             case l of
                               Inl e \<Rightarrow> State_Monad.return (Inl (ListenFailed e))
                             | Inr listener \<Rightarrow>
                                 do { _ \<leftarrow> call (osLchown h hostSocket) (\<lambda>_. PathLchowned hostSocket);
                                      State_Monad.return (Inr listener) } }) } }"

definition sidecarCleanup :: "'w hostEnv \<Rightarrow> string \<Rightarrow> int \<Rightarrow> ('w host, unit) state" where
  "sidecarCleanup h target fd =
     do { _ \<leftarrow> call (sysUnmount h target) (\<lambda>_. KernelUnmounted target);
          _ \<leftarrow> sysClose h fd;
          State_Monad.return () }"

definition markPendingMinor :: "int option \<Rightarrow> ('w host, unit) state" where
  "markPendingMinor m = (case m of None \<Rightarrow> State_Monad.return () | Some minor \<Rightarrow> markSidecarHandoffPending minor)"

definition sidecarMount ::
  "'w hostEnv \<Rightarrow> string \<Rightarrow> string \<Rightarrow> string \<Rightarrow> 'q MountOptions \<Rightarrow> string \<Rightarrow> ('w host, sidecarErr option) state" where
  "sidecarMount h sourceType sourceID target opts volumeName =
     (let podUID = WorkloadPodUID opts; tmpDir = sidecarEmptyDirPath podUID;
          volumeDir = handoffDir podUID volumeName; symlinkPath = pathJoin [symlinkBase, handoffHash volumeName] in
      do { t \<leftarrow> requireSidecarTmpfs h tmpDir;
           case t of
             Some e \<Rightarrow> State_Monad.return (Some (TmpfsNotReady e))
           | None \<Rightarrow>
               do { o1 \<leftarrow> call (openFuse h) FuseOpened;
                    case o1 of
                      Inl e \<Rightarrow> State_Monad.return (Some (OpenFuseFailed e))
                    | Inr fd \<Rightarrow>
                        (let mountData = fuseMountData fd (fuseOwner (VolumeMountGroup opts)) in
                         do { me \<leftarrow> call (mountFuse h fuseMountSource target mountData)
                                      (KernelMounted fuseMountSource target mountData);
                              case me of
                                Some e \<Rightarrow> do { _ \<leftarrow> sysClose h fd; State_Monad.return (Some (FuseMountFailed e)) }
                              | None \<Rightarrow>
                                  do { ce \<leftarrow> writeSidecarConfig h sourceType sourceID volumeDir opts;
                                       case ce of
                                         Some e \<Rightarrow> do { sidecarCleanup h target fd; State_Monad.return (Some e) }
                                       | None \<Rightarrow>
                                           do { l \<leftarrow> openSidecarSocket h volumeDir symlinkPath;
                                                case l of
                                                  Inl e \<Rightarrow> do { sidecarCleanup h target fd; State_Monad.return (Some e) }
                                                | Inr listener \<Rightarrow>
                                                    do { minor \<leftarrow> fuseMinorForMount h target;
                                                         markPendingMinor minor;
                                                         note_ev (HandoffStarted
                                                           \<lparr>jobVolumeDir = volumeDir, jobSymlink = symlinkPath,
                                                            jobListener = listener, jobFd = fd, jobMinor = minor,
                                                            jobFdCount = FuseFdCount opts\<rparr>);
                                                         State_Monad.return None } } } }) } })"

section \<open>The handoff goroutine\<close>

text \<open>In seconds.\<close>

definition socketAcceptTimeout :: nat where
  "socketAcceptTimeout = 300"

fun cloneLoop :: "'w hostEnv \<Rightarrow> int \<Rightarrow> nat \<Rightarrow> int list \<Rightarrow> ('w host, int list) state" where
  "cloneLoop h fd 0 fds = State_Monad.return fds"
| "cloneLoop h fd (Suc n) fds =
     do { c \<leftarrow> cloneFuseFd h fd;
          case c of Inl _ \<Rightarrow> State_Monad.return fds | Inr cloned \<Rightarrow> cloneLoop h fd n (fds @ [cloned]) }"

fun closeAll :: "'w hostEnv \<Rightarrow> int list \<Rightarrow> ('w host, unit) state" where
  "closeAll h [] = State_Monad.return ()"
| "closeAll h (fd # fds) = do { _ \<leftarrow> sysClose h fd; closeAll h fds }"

text \<open>Accepting, cloning and sending; the result is \<open>handoffSucceeded\<close>.\<close>

definition passFds :: "'w hostEnv \<Rightarrow> handoffJob \<Rightarrow> ('w host, bool) state" where
  "passFds h job =
     do { c \<leftarrow> ask (netAccept h (jobListener job) socketAcceptTimeout);
          case c of
            Inl _ \<Rightarrow> do { _ \<leftarrow> sysClose h (jobFd job); State_Monad.return False }
          | Inr conn \<Rightarrow>
              do { ev \<leftarrow> ask (getenv h ''HF_CSI_SIDECAR_FUSE_FD_COUNT'');
                   fds \<leftarrow> cloneLoop h (jobFd job) (nat (sidecarFuseFdCount ev (jobFdCount job) - 1)) [jobFd job];
                   e \<leftarrow> SendMsgFds h conn fds [];
                   closeAll h fds;
                   _ \<leftarrow> call (closeConn h conn) (\<lambda>_. ConnClosed conn);
                   State_Monad.return (e = None) } }"

definition clearPendingMinor :: "int option \<Rightarrow> ('w host, unit) state" where
  "clearPendingMinor m = (case m of None \<Rightarrow> State_Monad.return () | Some minor \<Rightarrow> clearSidecarHandoffPending minor)"

text \<open>The deferred calls run in the reverse order of their \<open>defer\<close> statements.\<close>

definition sidecarHandoff :: "'w hostEnv \<Rightarrow> handoffJob \<Rightarrow> ('w host, bool) state" where
  "sidecarHandoff h job =
     do { handoffSucceeded \<leftarrow> passFds h job;
          whenM (\<not> handoffSucceeded)
            (writeHandoffFile h (jobVolumeDir job) ''handoff-error'' ''FUSE fd handoff failed'' 420 False);
          _ \<leftarrow> call (osRemove h (jobSymlink job)) (PathRemoved (jobSymlink job));
          _ \<leftarrow> call (closeListener h (jobListener job)) (\<lambda>_. ListenerClosed (jobListener job));
          clearPendingMinor (jobMinor job);
          State_Monad.return handoffSucceeded }"

section \<open>Republish and unpublish\<close>

datatype sidecarHealthErr =
    HandoffDirUnavailable oserr
  | HandoffNotDir
  | StatusUnreadable string handoffErr
  | StatusReported string string

fun handoffNotExist :: "handoffErr \<Rightarrow> bool" where
  "handoffNotExist (HandoffDir e) = (e = ENOENT)"
| "handoffNotExist (HandoffOpen e) = (e = ENOENT)"
| "handoffNotExist (HandoffWrite e) = (e = ENOENT)"
| "handoffNotExist (HandoffChown e) = (e = ENOENT)"
| "handoffNotExist (HandoffClose e) = (e = ENOENT)"
| "handoffNotExist (HandoffRead e) = (e = ENOENT)"

fun checkStatusFiles :: "'w hostEnv \<Rightarrow> string \<Rightarrow> string list \<Rightarrow> ('w host, sidecarHealthErr option) state" where
  "checkStatusFiles h volumeDir [] = State_Monad.return None"
| "checkStatusFiles h volumeDir (name # names) =
     do { r \<leftarrow> readHandoffFile h volumeDir name;
          case r of
            Inl e \<Rightarrow> if handoffNotExist e then checkStatusFiles h volumeDir names
                      else State_Monad.return (Some (StatusUnreadable name e))
          | Inr data \<Rightarrow>
              (let msg = TrimSpace data in
               if msg \<noteq> [] then State_Monad.return (Some (StatusReported name msg))
               else checkStatusFiles h volumeDir names) }"

definition checkSidecarHealth :: "'w hostEnv \<Rightarrow> string \<Rightarrow> string \<Rightarrow> ('w host, sidecarHealthErr option) state" where
  "checkSidecarHealth h podUID volumeName =
     (let volumeDir = handoffDir podUID volumeName in
      do { info \<leftarrow> ask (osLstat h volumeDir);
           case info of
             Inl e \<Rightarrow> State_Monad.return (Some (HandoffDirUnavailable e))
           | Inr isDir \<Rightarrow>
               if \<not> isDir then State_Monad.return (Some HandoffNotDir)
               else checkStatusFiles h volumeDir [''handoff-error'', ''error''] })"

definition cleanupSidecarSocket :: "'w hostEnv \<Rightarrow> string \<Rightarrow> ('w host, unit) state" where
  "cleanupSidecarSocket h volumeName =
     (let symlinkPath = pathJoin [symlinkBase, handoffHash volumeName] in
      do { _ \<leftarrow> call (osRemove h symlinkPath) (PathRemoved symlinkPath); State_Monad.return () })"

definition refreshSidecarToken :: "'w hostEnv \<Rightarrow> string \<Rightarrow> string \<Rightarrow> string \<Rightarrow> ('w host, unit) state" where
  "refreshSidecarToken h podUID volumeName token =
     do { _ \<leftarrow> writeHandoffFile h (handoffDir podUID volumeName) ''token'' token 384 True; State_Monad.return () }"

section \<open>Descriptors and files in the log\<close>

fun openedBy :: "hostEvent \<Rightarrow> int multiset" where
  "openedBy (FuseOpened (Inr fd)) = {#fd#}"
| "openedBy (DirOpened _ (Inr fd)) = {#fd#}"
| "openedBy (FileOpened _ _ _ (Inr fd)) = {#fd#}"
| "openedBy (SockDup _ (Inr fd)) = {#fd#}"
| "openedBy (TempCreated _ (Inr (_, fd))) = {#fd#}"
| "openedBy _ = {#}"

fun closedBy :: "hostEvent \<Rightarrow> int multiset" where
  "closedBy (FdClosed fd) = {#fd#}"
| "closedBy _ = {#}"

definition opens :: "hostEvent list \<Rightarrow> int multiset" where
  "opens evs = sum_list (map openedBy evs)"

definition closes :: "hostEvent list \<Rightarrow> int multiset" where
  "closes evs = sum_list (map closedBy evs)"

lemma opens_simps [simp]: "opens [] = {#}" "opens (ev # evs) = openedBy ev + opens evs" "opens (xs @ ys) = opens xs + opens ys"
  by (simp_all add: opens_def)

lemma closes_simps [simp]:
  "closes [] = {#}" "closes (ev # evs) = closedBy ev + closes evs" "closes (xs @ ys) = closes xs + closes ys"
  by (simp_all add: closes_def)

lemma openedBy_Inl [simp]:
  "openedBy (FuseOpened (Inl e)) = {#}" "openedBy (DirOpened d (Inl e)) = {#}"
  "openedBy (FileOpened f n how (Inl e)) = {#}" "openedBy (SockDup c (Inl e)) = {#}" "openedBy (TempCreated d (Inl e)) = {#}"
  by simp_all

text \<open>
  Events that touch only the handoff directory \<open>dir\<close> and the directory of short links, and open
  or change nothing in the handoff directory through a symbolic link: files below it are opened
  relative to a descriptor with link resolution off, the socket is chowned without following
  links, and removal acts on a link itself.
\<close>

fun fileEvent :: "string \<Rightarrow> hostEvent \<Rightarrow> bool" where
  "fileEvent dir (DirOpened d _) = (d = dir)"
| "fileEvent dir (FileOpened _ name how _) =
     (howNoSymlinks how \<and> howBeneath how \<and> name \<in> {''token'', ''args'', ''handoff-error'', ''error''})"
| "fileEvent dir (FdClosed _) = True"
| "fileEvent dir (FdWritten _ _) = True"
| "fileEvent dir (FdChowned _) = True"
| "fileEvent dir (DirMade d) = (d = dir \<or> d = symlinkBase)"
| "fileEvent dir (PathChowned p) = (p = dir)"
| "fileEvent dir (PathLchowned p) = (p = pathJoin [dir, ''s''])"
| "fileEvent dir (PathRemoved p _) =
     (p \<in> (\<lambda>n. pathJoin [dir, n]) ` {''ready'', ''error'', ''handoff-error'', ''s''} \<or> (\<exists>n. p = pathJoin [symlinkBase, n]))"
| "fileEvent dir (Symlinked src _) = (src = dir)"
| "fileEvent dir (Listening _ _) = True"
| "fileEvent dir (ListenerClosed _) = True"
| "fileEvent dir _ = False"

definition fileLog :: "string \<Rightarrow> hostEvent list \<Rightarrow> bool" where
  "fileLog dir evs \<longleftrightarrow> opens evs = closes evs \<and> (\<forall>ev\<in>set evs. fileEvent dir ev)"

lemma fileLog_Nil [simp]: "fileLog dir []"
  by (simp add: fileLog_def)

lemma fileLog_append [intro]: "fileLog dir xs \<Longrightarrow> fileLog dir ys \<Longrightarrow> fileLog dir (xs @ ys)"
  by (auto simp: fileLog_def)

lemma fileLog_Cons [intro]: "fileEvent dir ev \<Longrightarrow> openedBy ev = {#} \<Longrightarrow> closedBy ev = {#} \<Longrightarrow> fileLog dir evs \<Longrightarrow> fileLog dir (ev # evs)"
  by (auto simp: fileLog_def)

section \<open>Effects of the parts\<close>

lemma eff_sysClose [eff_intros]: "(\<And>r. Q r b [FdClosed fd]) \<Longrightarrow> eff (sysClose h fd) Q b"
  unfolding sysClose_def by (intro eff_intros)

lemma eff_sidecarMountInfo [eff_intros]: "(\<And>r. Q r b []) \<Longrightarrow> eff (sidecarMountInfo h p) Q b"
  unfolding sidecarMountInfo_def by (intro eff_intros) auto

lemma eff_sidecarMountState [eff_intros]: "(\<And>r. Q r b []) \<Longrightarrow> eff (sidecarMountState h p) Q b"
  unfolding sidecarMountState_def by (intro eff_intros) auto

lemma eff_requireSidecarTmpfs [eff_intros]: "(\<And>r. Q r b []) \<Longrightarrow> eff (requireSidecarTmpfs h p) Q b"
  unfolding requireSidecarTmpfs_def by (intro eff_intros) auto

lemma eff_fuseMinorForMount [eff_intros]: "(\<And>r. Q r b []) \<Longrightarrow> eff (fuseMinorForMount h p) Q b"
  unfolding fuseMinorForMount_def by (intro eff_intros) auto

text \<open>An opened control file is held open; a failed open holds nothing.\<close>

lemma eff_openHandoffFile:
  assumes "name \<in> {''token'', ''args'', ''handoff-error'', ''error''}"
  shows "eff (openHandoffFile h dir name mode perm)
    (\<lambda>r b' evs. b' = b \<and> (\<forall>ev\<in>set evs. fileEvent dir ev)
       \<and> opens evs = closes evs + (case r of Inl _ \<Rightarrow> {#} | Inr fd \<Rightarrow> {#fd#})) b"
  unfolding openHandoffFile_def Let_def
  by (intro eff_intros) (use assms in \<open>auto split: sum.split\<close>)

text \<open>A write tries the directory first, and a write that succeeds has put the data into the file.\<close>

definition writeLog :: "string \<Rightarrow> string \<Rightarrow> string \<Rightarrow> handoffErr option \<Rightarrow> hostEvent list \<Rightarrow> bool" where
  "writeLog dir name data r evs \<longleftrightarrow> fileLog dir evs \<and> (\<exists>d. DirOpened dir d \<in> set evs)
     \<and> (r = None \<longrightarrow> (\<exists>dirFd how fd. FileOpened dirFd name how (Inr fd) \<in> set evs \<and> FdWritten fd data \<in> set evs))"

lemma eff_writeHandoffFile [eff_intros]:
  assumes "name \<in> {''token'', ''args'', ''handoff-error'', ''error''}" "\<And>r evs. writeLog dir name data r evs \<Longrightarrow> Q r b evs"
  shows "eff (writeHandoffFile h dir name data perm ch) Q b"
proof -
  have "eff (writeHandoffFile h dir name data perm ch) (\<lambda>r b' evs. b' = b \<and> writeLog dir name data r evs) b"
    unfolding writeHandoffFile_def openHandoffFile_def Let_def
    by (intro eff_intros) (use assms(1) in \<open>auto simp: fileLog_def writeLog_def split: sum.splits\<close>)
  then show ?thesis by (rule eff_mono) (auto intro: assms)
qed

lemma writeLog_fileLog: "writeLog dir name data r evs \<Longrightarrow> fileLog dir evs"
  by (simp add: writeLog_def)

lemma eff_readHandoffFile [eff_intros]:
  assumes "name \<in> {''token'', ''args'', ''handoff-error'', ''error''}" "\<And>r evs. fileLog dir evs \<Longrightarrow> Q r b evs"
  shows "eff (readHandoffFile h dir name) Q b"
proof -
  have "eff (readHandoffFile h dir name) (\<lambda>r b' evs. b' = b \<and> fileLog dir evs) b"
    unfolding readHandoffFile_def
    by (intro eff_bind [where m = "openHandoffFile h dir name ReadOnlyMode 0"]
        eff_mono [OF eff_openHandoffFile [OF assms(1)]] eff_intros) (auto simp: fileLog_def)
  then show ?thesis by (rule eff_mono) (auto intro: assms)
qed

lemma eff_clearStatus:
  "set names \<subseteq> {''ready'', ''error'', ''handoff-error''} \<Longrightarrow>
     eff (clearStatus h dir names) (\<lambda>r b' evs. b' = b \<and> fileLog dir evs) b"
proof (induction names)
  case Nil
  show ?case by (auto intro!: eff_intros)
next
  case (Cons n ns)
  then have "eff (clearStatus h dir ns) (\<lambda>r b' evs. b' = b \<and> fileLog dir evs) b" by simp
  then show ?case
    using Cons.prems by (auto intro!: eff_intros fileLog_Cons elim!: eff_mono)
qed

lemma eff_copyToken [eff_intros]:
  assumes "\<And>r evs. fileLog dir evs \<Longrightarrow>
    (\<And>opts1. r = Inr opts1 \<Longrightarrow> opts1 = (if TokenFile opts = [] then opts
       else opts\<lparr>TokenFile := sidecarPath (pathJoin [dir, ''token''])\<rparr>)) \<Longrightarrow> Q r b evs"
  shows "eff (copyToken h dir opts) Q b"
  unfolding copyToken_def by (intro eff_intros) (auto intro!: assms dest: writeLog_fileLog)

text \<open>The options the daemon in the pod gets: the token where it sees it, no cache directory.\<close>

definition sidecarOptions :: "string \<Rightarrow> 'q MountOptions \<Rightarrow> 'q MountOptions" where
  "sidecarOptions dir opts =
     (if TokenFile opts = [] then opts else opts\<lparr>TokenFile := sidecarPath (pathJoin [dir, ''token''])\<rparr>)\<lparr>CacheDir := []\<rparr>"

definition configLog ::
  "string \<Rightarrow> string \<Rightarrow> string \<Rightarrow> 'q MountOptions \<Rightarrow> sidecarErr option \<Rightarrow> hostEvent list \<Rightarrow> bool" where
  "configLog st sid dir opts r evs \<longleftrightarrow> fileLog dir evs
     \<and> (r = None \<longrightarrow> (\<exists>args dirFd how fd. buildArgs st sid ''/tmp'' (sidecarOptions dir opts) = Inr args
          \<and> FileOpened dirFd ''args'' how (Inr fd) \<in> set evs \<and> FdWritten fd (argsContent args) \<in> set evs))"

lemma eff_writeSidecarConfig [eff_intros]:
  assumes "\<And>r evs. configLog st sid dir opts r evs \<Longrightarrow> Q r b evs"
  shows "eff (writeSidecarConfig h st sid dir opts) Q b"
proof -
  have "eff (writeSidecarConfig h st sid dir opts) (\<lambda>r b' evs. b' = b \<and> configLog st sid dir opts r evs) b"
    unfolding writeSidecarConfig_def
    by (intro eff_bind [where m = "clearStatus h dir [''ready'', ''error'', ''handoff-error'']"] eff_mono [OF eff_clearStatus] eff_intros)
       (auto simp: configLog_def sidecarOptions_def writeLog_def intro!: fileLog_Cons fileLog_append)
  then show ?thesis by (rule eff_mono) (auto intro: assms)
qed

lemma eff_openSidecarSocket [eff_intros]:
  assumes "\<And>r evs. fileLog dir evs \<Longrightarrow> Q r b evs"
  shows "eff (openSidecarSocket h dir (pathJoin [symlinkBase, n])) Q b"
proof -
  have "eff (openSidecarSocket h dir (pathJoin [symlinkBase, n])) (\<lambda>r b' evs. b' = b \<and> fileLog dir evs) b"
    unfolding openSidecarSocket_def Let_def by (intro eff_intros) (auto intro!: fileLog_Cons)
  then show ?thesis by (rule eff_mono) (auto intro: assms)
qed

lemma eff_markPendingMinor [eff_intros]:
  "Q () (b\<lparr>pendingSidecarMinors := set_option m \<union> pendingSidecarMinors b\<rparr>)
       (case m of None \<Rightarrow> [] | Some minor \<Rightarrow> [PendingMarked minor]) \<Longrightarrow> eff (markPendingMinor m) Q b"
  unfolding markPendingMinor_def markSidecarHandoffPending_def by (intro eff_intros) auto

lemma eff_clearPendingMinor [eff_intros]:
  "Q () (b\<lparr>pendingSidecarMinors := pendingSidecarMinors b - set_option m\<rparr>)
       (case m of None \<Rightarrow> [] | Some minor \<Rightarrow> [PendingCleared minor]) \<Longrightarrow> eff (clearPendingMinor m) Q b"
  unfolding clearPendingMinor_def clearSidecarHandoffPending_def by (intro eff_intros) auto

lemma eff_sidecarCleanup [eff_intros]: "Q () b [KernelUnmounted target, FdClosed fd] \<Longrightarrow> eff (sidecarCleanup h target fd) Q b"
  unfolding sidecarCleanup_def by (intro eff_intros) auto

section \<open>Mounting\<close>

text \<open>
  Everything \<open>sidecarMount\<close> does, on every path: nothing before the shared directory is ready;
  a descriptor whose mount failed is closed; a mount whose preparation failed is unmounted and its
  descriptor closed; a mount that succeeded leaves the descriptor to the goroutine, with the
  connection marked as pending first.
\<close>

definition sidecarMountLog ::
  "string \<Rightarrow> string \<Rightarrow> string \<Rightarrow> 'q MountOptions \<Rightarrow> string \<Rightarrow> sidecarErr option \<Rightarrow> nodeVars \<Rightarrow> nodeVars \<Rightarrow> hostEvent list \<Rightarrow> bool" where
  "sidecarMountLog st sid target opts vol r v v' evs \<longleftrightarrow>
     (let dir = handoffDir (WorkloadPodUID opts) vol;
          mounted = (\<lambda>fd. KernelMounted fuseMountSource target (fuseMountData fd (fuseOwner (VolumeMountGroup opts)))) in
      (r \<noteq> None \<and> v' = v \<and> (evs = [] \<or> (\<exists>e. evs = [FuseOpened (Inl e)])
          \<or> (\<exists>fd e. evs = [FuseOpened (Inr fd), mounted fd (Some e), FdClosed fd])
          \<or> (\<exists>fd files. fileLog dir files
               \<and> evs = FuseOpened (Inr fd) # mounted fd None # files @ [KernelUnmounted target, FdClosed fd])))
      \<or> (r = None \<and> (\<exists>fd conf files listener minor. configLog st sid dir opts None conf \<and> fileLog dir files
          \<and> evs = FuseOpened (Inr fd) # mounted fd None # conf @ files @ (case minor of None \<Rightarrow> [] | Some m \<Rightarrow> [PendingMarked m])
              @ [HandoffStarted \<lparr>jobVolumeDir = dir, jobSymlink = pathJoin [symlinkBase, handoffHash vol],
                   jobListener = listener, jobFd = fd, jobMinor = minor, jobFdCount = FuseFdCount opts\<rparr>]
          \<and> v' = v\<lparr>pendingSidecarMinors := set_option minor \<union> pendingSidecarMinors v\<rparr>)))"

lemma configLog_fileLog: "configLog st sid dir opts r evs \<Longrightarrow> fileLog dir evs"
  by (simp add: configLog_def)

lemma sidecarMountLog_fail:
  assumes "fileLog (handoffDir (WorkloadPodUID opts) vol) files"
  shows "sidecarMountLog st sid target opts vol (Some e) v v
    (FuseOpened (Inr fd) # KernelMounted fuseMountSource target (fuseMountData fd (fuseOwner (VolumeMountGroup opts))) None
       # files @ [KernelUnmounted target, FdClosed fd])"
  unfolding sidecarMountLog_def Let_def using assms by blast

lemma sidecarMountLog_ok:
  assumes "configLog st sid (handoffDir (WorkloadPodUID opts) vol) opts None conf"
    "fileLog (handoffDir (WorkloadPodUID opts) vol) files"
  shows "sidecarMountLog st sid target opts vol None v
    (v\<lparr>pendingSidecarMinors := set_option minor \<union> pendingSidecarMinors v\<rparr>)
    (FuseOpened (Inr fd) # KernelMounted fuseMountSource target (fuseMountData fd (fuseOwner (VolumeMountGroup opts))) None
       # conf @ files @ (case minor of None \<Rightarrow> [] | Some m \<Rightarrow> [PendingMarked m])
       @ [HandoffStarted \<lparr>jobVolumeDir = handoffDir (WorkloadPodUID opts) vol,
            jobSymlink = pathJoin [symlinkBase, handoffHash vol], jobListener = listener, jobFd = fd, jobMinor = minor,
            jobFdCount = FuseFdCount opts\<rparr>])"
  unfolding sidecarMountLog_def Let_def using assms by blast

lemma eff_sidecarMount:
  "eff (sidecarMount h st sid target opts vol)
     (\<lambda>r v' evs. sidecarMountLog st sid target opts vol r v v' evs) v"
  unfolding sidecarMount_def Let_def
  apply (intro eff_intros)
  subgoal by (simp add: sidecarMountLog_def)
  subgoal by (drule configLog_fileLog) (use sidecarMountLog_fail [OF fileLog_append] in fastforce)
  subgoal using sidecarMountLog_ok by fastforce
  subgoal by (drule configLog_fileLog) (use sidecarMountLog_fail in fastforce)
  subgoal by (simp add: sidecarMountLog_def)
  subgoal by (simp add: sidecarMountLog_def)
  done

end
