(* ===== verification/Sidecar_Handoff.thy ===== *)
theory Sidecar_Handoff
  imports Sidecar
begin

text \<open>
  Theorems on sidecar mode: the descriptors of a mount and of its handoff, the control files, the
  outcome of a handoff and the arguments the daemon reads.
\<close>

section \<open>Passing descriptors\<close>

fun fdEvent :: "hostEvent \<Rightarrow> bool" where
  "fdEvent (FuseOpened _) = True"
| "fdEvent (FdClosed _) = True"
| "fdEvent (SockDup _ _) = True"
| "fdEvent (ConnClosed _) = True"
| "fdEvent _ = False"

lemma eff_cloneLoop:
  "eff (cloneLoop h fd n fds)
     (\<lambda>r b' evs. b' = b \<and> (\<exists>cs. r = fds @ cs \<and> length cs \<le> n \<and> opens evs = closes evs + mset cs)
        \<and> (\<forall>ev\<in>set evs. fdEvent ev)) b"
proof (induction n arbitrary: fds)
  case 0
  show ?case by (auto intro!: eff_intros)
next
  case (Suc n)
  have IH: "eff (cloneLoop h fd n (fds @ [c]))
     (\<lambda>r b' evs. b' = b \<and> (\<exists>cs. r = fds @ c # cs \<and> length cs \<le> n \<and> opens evs = closes evs + mset cs)
        \<and> (\<forall>ev\<in>set evs. fdEvent ev)) b" for c
    using Suc [of "fds @ [c]"] by simp
  show ?case
    unfolding cloneLoop.simps cloneFuseFd_def
    apply (intro eff_intros eff_mono [OF IH])
    apply auto
    done
qed

lemma eff_cloneLoopI [eff_intros]:
  assumes "\<And>cs evs. length cs \<le> n \<Longrightarrow> opens evs = closes evs + mset cs \<Longrightarrow> \<forall>ev\<in>set evs. fdEvent ev \<Longrightarrow> Q (fds @ cs) b evs"
  shows "eff (cloneLoop h fd n fds) Q b"
  by (rule eff_mono [OF eff_cloneLoop]) (auto intro: assms)

lemma eff_closeAll [eff_intros]: "Q () b (map FdClosed fds) \<Longrightarrow> eff (closeAll h fds) Q b"
proof -
  have "eff (closeAll h fds) (\<lambda>_ b' evs. b' = b \<and> evs = map FdClosed fds) b"
    by (induction fds) (auto intro!: eff_intros elim!: eff_mono)
  then show "Q () b (map FdClosed fds) \<Longrightarrow> eff (closeAll h fds) Q b" by (auto elim!: eff_mono)
qed

lemma closes_map [simp]: "closes (map FdClosed fds) = mset fds" "opens (map FdClosed fds) = {#}"
  by (induction fds) auto

definition sendLog :: "int list \<Rightarrow> bool \<Rightarrow> hostEvent list \<Rightarrow> bool" where
  "sendLog fds ok evs \<longleftrightarrow> opens evs = closes evs \<and> (\<forall>ev\<in>set evs. fdEvent ev \<or> (\<exists>e. ev = FdsSent fds e))
     \<and> (ok \<longleftrightarrow> FdsSent fds None \<in> set evs)"

lemma eff_SendMsgFds [eff_intros]:
  assumes "fds \<noteq> []" "\<And>r evs. sendLog fds (r = None) evs \<Longrightarrow> Q r b evs"
  shows "eff (SendMsgFds h conn fds msg) Q b"
  unfolding SendMsgFds_def by (intro eff_intros) (use assms(1) in \<open>auto simp: sendLog_def intro!: assms(2)\<close>)

definition passLog :: "int \<Rightarrow> bool \<Rightarrow> hostEvent list \<Rightarrow> bool" where
  "passLog fd ok evs \<longleftrightarrow> opens evs + {#fd#} = closes evs
     \<and> (\<forall>ev\<in>set evs. fdEvent ev \<or> (\<exists>fds e. ev = FdsSent fds e \<and> fds \<noteq> [] \<and> hd fds = fd \<and> length fds \<le> 32))
     \<and> (ok \<longleftrightarrow> (\<exists>fds. FdsSent fds None \<in> set evs))"

lemma sidecarFuseFdCount_range: "1 \<le> sidecarFuseFdCount ev a \<and> sidecarFuseFdCount ev a \<le> 32"
  by (simp add: sidecarFuseFdCount_def overrideCount_def defaultSidecarFuseFdCount_def Let_def split: option.split)

lemma fdEvent_not_sent: "\<forall>ev\<in>set evs. fdEvent ev \<Longrightarrow> FdsSent fds e \<notin> set evs"
  by auto

lemma passLog_sent:
  assumes "opens cl = closes cl + mset cs" "\<forall>ev\<in>set cl. fdEvent ev" "length cs \<le> 31" "sendLog (fd # cs) ok send"
  shows "passLog fd ok (cl @ send @ map FdClosed (fd # cs) @ [ConnClosed conn])"
  using assms fdEvent_not_sent [OF assms(2)]
  by (auto simp: passLog_def sendLog_def)

lemma eff_passFds [eff_intros]:
  assumes "\<And>ok evs. passLog (jobFd job) ok evs \<Longrightarrow> Q ok b evs"
  shows "eff (passFds h job) Q b"
proof -
  have count: "nat (sidecarFuseFdCount ev a - 1) \<le> 31" for ev a
    using sidecarFuseFdCount_range [of ev a] by linarith
  have "eff (passFds h job) (\<lambda>ok b' evs. b' = b \<and> passLog (jobFd job) ok evs) b"
    unfolding passFds_def
    apply (intro eff_intros)
    subgoal by (simp add: passLog_def)
    subgoal by simp
    subgoal for c conn ev cs evs e evs' r
      using passLog_sent [of evs cs "jobFd job" "e = None" evs' conn] count [of ev "jobFdCount job"] by auto
    done
  then show ?thesis by (rule eff_mono) (auto intro: assms)
qed

section \<open>The outcome of a handoff\<close>

definition handoffLog :: "handoffJob \<Rightarrow> bool \<Rightarrow> nodeVars \<Rightarrow> nodeVars \<Rightarrow> hostEvent list \<Rightarrow> bool" where
  "handoffLog job ok v v' evs \<longleftrightarrow>
     (\<exists>pass err e. evs = pass @ err @ PathRemoved (jobSymlink job) e # ListenerClosed (jobListener job)
          # (case jobMinor job of None \<Rightarrow> [] | Some m \<Rightarrow> [PendingCleared m])
        \<and> passLog (jobFd job) ok pass
        \<and> (if ok then err = []
           else \<exists>r. writeLog (jobVolumeDir job) ''handoff-error'' ''FUSE fd handoff failed'' r err)
        \<and> v' = v\<lparr>pendingSidecarMinors := pendingSidecarMinors v - set_option (jobMinor job)\<rparr>)"

lemma handoffLogI:
  assumes "passLog (jobFd job) ok pass"
    "if ok then err = [] else \<exists>r. writeLog (jobVolumeDir job) ''handoff-error'' ''FUSE fd handoff failed'' r err"
  shows "handoffLog job ok v (v\<lparr>pendingSidecarMinors := pendingSidecarMinors v - set_option (jobMinor job)\<rparr>)
    (pass @ err @ PathRemoved (jobSymlink job) e # ListenerClosed (jobListener job)
       # (case jobMinor job of None \<Rightarrow> [] | Some m \<Rightarrow> [PendingCleared m]))"
  unfolding handoffLog_def using assms by blast

lemma eff_sidecarHandoff: "eff (sidecarHandoff h job) (\<lambda>ok v' evs. handoffLog job ok v v' evs) v"
  unfolding sidecarHandoff_def
  apply (intro eff_intros)
  subgoal by simp
  subgoal for ok evs r evs' e e' using handoffLogI [of job ok evs evs'] by auto
  subgoal for ok evs e e' using handoffLogI [of job ok evs "[]"] by auto
  done


section \<open>Descriptors\<close>

lemma sidecarMountLog_fds:
  assumes "sidecarMountLog st sid target opts vol r v v' evs"
  shows "r \<noteq> None \<Longrightarrow> opens evs = closes evs"
    "r = None \<Longrightarrow> \<exists>job. last evs = HandoffStarted job \<and> opens evs = closes evs + {#jobFd job#}"
  using assms by (auto simp: sidecarMountLog_def Let_def fileLog_def configLog_def split: option.splits)

lemma handoffLog_fds: "handoffLog job ok v v' evs \<Longrightarrow> opens evs + {#jobFd job#} = closes evs"
  by (auto simp: handoffLog_def passLog_def writeLog_def fileLog_def split: option.splits if_splits)

text \<open>
  (C4) Descriptors are conserved: a failed \<open>sidecarMount\<close> has closed exactly the descriptors it
  opened; a successful one still holds one, the one it hands to its goroutine as its last action,
  and when that goroutine ends, whatever happened in between and whatever failed, every descriptor
  that the two opened (the device, its clones, directories, control files, the duplicated socket)
  has been closed exactly once.
\<close>

theorem sidecar_fds_conserved:
  assumes "run_state (sidecarMount h st sid target opts vol) s = (r, s1)"
  shows "if r \<noteq> None then opens (newEvents s s1) = closes (newEvents s s1)
    else \<exists>job. last (newEvents s s1) = HandoffStarted job
      \<and> opens (newEvents s s1) = closes (newEvents s s1) + {#jobFd job#}
      \<and> (\<forall>h' s2 ok s3. run_state (sidecarHandoff h' job) s2 = (ok, s3) \<longrightarrow>
           opens (newEvents s s1) + opens (newEvents s2 s3) = closes (newEvents s s1) + closes (newEvents s2 s3))"
proof -
  note log = eff_newEvents [OF eff_sidecarMount assms]
  have "opens (newEvents s s1) + opens (newEvents s2 s3) = closes (newEvents s s1) + closes (newEvents s2 s3)"
    if "run_state (sidecarHandoff h' job) s2 = (ok, s3)" "opens (newEvents s s1) = closes (newEvents s s1) + {#jobFd job#}"
    for h' job s2 ok s3
    using handoffLog_fds [OF eff_newEvents [OF eff_sidecarHandoff that(1)]] that(2) by (simp add: ac_simps)
  then show ?thesis using sidecarMountLog_fds [OF log] by (metis (full_types))
qed

section \<open>Control files\<close>

text \<open>
  What may happen to the tenant-writable handoff directory \<open>dir\<close>: files in it are opened by a
  single name relative to a descriptor of \<open>dir\<close> itself with resolution of symbolic links off, the
  socket is chowned without following a link, nothing is written or chowned by a path below it.
\<close>

fun confined :: "string \<Rightarrow> hostEvent \<Rightarrow> bool" where
  "confined dir (DirOpened d _) = (d = dir)"
| "confined dir (FileOpened _ name how _) = (howNoSymlinks how \<and> howBeneath how \<and> slash \<notin> set name)"
| "confined dir (PathChowned p) = (p = dir)"
| "confined dir (PathLchowned p) = (p = pathJoin [dir, ''s''])"
| "confined dir (PathWritten _ _) = False"
| "confined dir (DirMade p) = (p = dir \<or> p = symlinkBase)"
| "confined dir (Symlinked src _) = (src = dir)"
| "confined dir _ = True"

lemma fileEvent_confined: "fileEvent dir ev \<Longrightarrow> confined dir ev"
  by (cases ev) auto

lemma fdEvent_confined: "fdEvent ev \<Longrightarrow> confined dir ev"
  by (cases ev) auto

lemma fileLog_confined: "fileLog dir evs \<Longrightarrow> \<forall>ev\<in>set evs. confined dir ev"
  by (auto simp: fileLog_def fileEvent_confined)

lemma sidecarMountLog_confined:
  assumes "sidecarMountLog st sid target opts vol r v v' evs"
  shows "\<forall>ev\<in>set evs. confined (handoffDir (WorkloadPodUID opts) vol) ev"
  using assms by (auto simp: sidecarMountLog_def Let_def dest!: fileLog_confined configLog_fileLog split: option.splits)

lemma passLog_confined: "passLog fd ok evs \<Longrightarrow> \<forall>ev\<in>set evs. confined dir ev"
  unfolding passLog_def using fdEvent_confined confined.simps by metis

lemma handoffLog_confined:
  assumes "handoffLog job ok v v' evs"
  shows "\<forall>ev\<in>set evs. confined (jobVolumeDir job) ev"
  using assms
  by (auto simp: handoffLog_def dest: passLog_confined [THEN bspec] dest!: fileLog_confined writeLog_fileLog
      split: option.splits if_splits)

lemma eff_checkStatusFiles:
  "set names \<subseteq> {''handoff-error'', ''error''} \<Longrightarrow> eff (checkStatusFiles h dir names) (\<lambda>r b' evs. b' = b \<and> fileLog dir evs) b"
proof (induction names)
  case Nil
  show ?case by (auto intro!: eff_intros)
next
  case (Cons n ns)
  then have "eff (checkStatusFiles h dir ns) (\<lambda>r b' evs. b' = b \<and> fileLog dir evs) b" by simp
  then show ?case
    using Cons.prems by (auto simp: Let_def intro!: eff_intros elim!: eff_mono)
qed

lemma eff_checkSidecarHealth [eff_intros]:
  assumes "\<And>r evs. fileLog (handoffDir uid vol) evs \<Longrightarrow> Q r b evs"
  shows "eff (checkSidecarHealth h uid vol) Q b"
  unfolding checkSidecarHealth_def Let_def
  by (intro eff_intros eff_mono [OF eff_checkStatusFiles]) (auto intro: assms)

lemma eff_refreshSidecarToken [eff_intros]:
  assumes "\<And>evs. fileLog (handoffDir uid vol) evs \<Longrightarrow> Q () b evs"
  shows "eff (refreshSidecarToken h uid vol token) Q b"
  unfolding refreshSidecarToken_def by (intro eff_intros) (auto intro: assms dest: writeLog_fileLog)


section \<open>Arguments\<close>

lemma Split_argsContent:
  assumes "args \<noteq> []" "\<And>a. a \<in> set args \<Longrightarrow> newline \<notin> set a"
  shows "Split (argsContent args) newline = ''hf-mount-fuse-sidecar'' # args @ [[]]"
proof -
  have "newline \<notin> set ''hf-mount-fuse-sidecar''" by (simp add: newline_def)
  moreover have "Split (Join (args @ [[]]) [newline]) newline = args @ [[]]"
    using assms by (intro Split_Join) auto
  moreover have "Join (args @ [[]]) [newline] = Join args [newline] @ [newline]"
    using assms(1) by (induction args rule: induct_list012) (auto simp: Join_Cons)
  ultimately show ?thesis
    unfolding argsContent_def using Split_append [of newline "''hf-mount-fuse-sidecar''"] by (simp del: set_simps)
qed

text \<open>
  The daemon in the pod reads exactly the arguments the driver built: a successful
  \<open>sidecarMount\<close> has written a file \<open>args\<close> into the handoff directory whose lines are the name
  of the program and the argument list of the volume, with the token at the path the sidecar sees
  and without the cache directory of the host, provided no argument contains a newline.
\<close>

theorem sidecar_args_written:
  assumes "run_state (sidecarMount h st sid target opts vol) s = (None, s')"
  shows "\<exists>args dirFd how fd content.
      buildArgs st sid ''/tmp'' (sidecarOptions (handoffDir (WorkloadPodUID opts) vol) opts) = Inr args
    \<and> FileOpened dirFd ''args'' how (Inr fd) \<in> set (newEvents s s') \<and> FdWritten fd content \<in> set (newEvents s s')
    \<and> ((\<forall>a\<in>set args. newline \<notin> set a) \<longrightarrow> Split content newline = ''hf-mount-fuse-sidecar'' # args @ [[]])"
proof -
  obtain conf a b where c: "configLog st sid (handoffDir (WorkloadPodUID opts) vol) opts None conf"
      "newEvents s s' = a @ conf @ b"
    using eff_newEvents [OF eff_sidecarMount assms] unfolding sidecarMountLog_def Let_def
    by (metis append_Cons append_Nil option.distinct(1))
  then obtain args dirFd how fd where *:
      "buildArgs st sid ''/tmp'' (sidecarOptions (handoffDir (WorkloadPodUID opts) vol) opts) = Inr args"
      "FileOpened dirFd ''args'' how (Inr fd) \<in> set conf" "FdWritten fd (argsContent args) \<in> set conf"
    unfolding configLog_def by blast
  have "args \<noteq> []" using buildArgs_target [OF *(1)] by auto
  with * c(2) Split_argsContent [of args] show ?thesis by (intro exI conjI impI) auto
qed

text \<open>
  The number of descriptors is always between 1 and 32; a valid attribute of the volume wins
  over a valid setting of the driver, which wins over the default of 4; a value that is not a
  positive number is ignored.
\<close>

theorem sidecarFuseFdCount_correct:
  "let n = sidecarFuseFdCount envVar volumeAttr; valid = (\<lambda>v k. Atoi v = Some k \<and> 1 \<le> k) in
     1 \<le> n \<and> n \<le> 32 \<and> (\<forall>k. valid volumeAttr k \<longrightarrow> n = min k 32)
     \<and> ((\<nexists>k. valid volumeAttr k) \<longrightarrow>
          (\<forall>k. valid envVar k \<longrightarrow> n = min k 32) \<and> ((\<nexists>k. valid envVar k) \<longrightarrow> n = 4))"
proof -
  have "overrideCount v n = (case Atoi v of Some k \<Rightarrow> if 1 \<le> k then k else n | None \<Rightarrow> n)" for v n
    by (cases v) (simp_all add: overrideCount_def Atoi_def)
  then show ?thesis
    by (auto simp: Let_def sidecarFuseFdCount_def defaultSidecarFuseFdCount_def split: option.splits)
qed

theorem sidecarFuseFdCount_correct_witness:
  "sidecarFuseFdCount ''8'' ''64'' = 32 \<and> sidecarFuseFdCount ''8'' ''0'' = 8"
proof -
  have "Atoi ''64'' = Some 64" "Atoi ''0'' = Some 0" "Atoi ''8'' = Some 8" by code_simp+
  then show ?thesis
    using sidecarFuseFdCount_correct [of "''8''" "''64''"] sidecarFuseFdCount_correct [of "''8''" "''0''"]
    by (simp add: Let_def)
qed

section \<open>Instances\<close>

text \<open>A host on which every call succeeds; \<open>acc\<close> is what waiting for the sidecar gives.\<close>

definition sampleHost :: "oserr + nat \<Rightarrow> unit hostEnv" where
  "sampleHost acc =
     \<lparr>parseMountInfo = State_Monad.return (Inr [\<lparr>miMountPoint = sidecarEmptyDirPath ''u-1'', miFsType = ''tmpfs'',
        miSource = ''tmpfs'', miMinor = 3\<rparr>]),
      procMountinfo = State_Monad.return None, getenv = (\<lambda>_. State_Monad.return ''2''),
      openFuse = State_Monad.return (Inr 7), ioctlClone = (\<lambda>_ _. State_Monad.return None),
      closeFd = (\<lambda>_. State_Monad.return None), mountFuse = (\<lambda>_ _ _. State_Monad.return None),
      sysUnmount = (\<lambda>_. State_Monad.return None), osMkdirAll = (\<lambda>_. State_Monad.return None),
      osChown = (\<lambda>_. State_Monad.return None), osLchown = (\<lambda>_. State_Monad.return None),
      osRemove = (\<lambda>_. State_Monad.return (Some ENOENT)), osReadFile = (\<lambda>_. State_Monad.return (Inr ''t'')),
      osWriteFile = (\<lambda>_ _. State_Monad.return None), osSymlink = (\<lambda>_ _. State_Monad.return None),
      osLstat = (\<lambda>_. State_Monad.return (Inr True)), openDir = (\<lambda>_. State_Monad.return (Inr 8)),
      openat2 = (\<lambda>_ _ _. State_Monad.return (Inr 9)), fdWrite = (\<lambda>_ _. State_Monad.return None),
      fdReadAll = (\<lambda>_. State_Monad.return (Inr [])), fdChown = (\<lambda>_. State_Monad.return None),
      netListen = (\<lambda>_. State_Monad.return (Inr 1)), netAccept = (\<lambda>_ _. State_Monad.return acc),
      closeListener = (\<lambda>_. State_Monad.return None), closeConn = (\<lambda>_. State_Monad.return None),
      connFile = (\<lambda>_. State_Monad.return (Inr 10)), sendmsg = (\<lambda>_ _ _. State_Monad.return None),
      osCreateTemp = (\<lambda>_. State_Monad.return (Inr (''/tmpfile'', 11))), osRename = (\<lambda>_ _. State_Monad.return None)\<rparr>"

lemma sampleHost_sel [simp]:
  "parseMountInfo (sampleHost acc) = State_Monad.return (Inr [\<lparr>miMountPoint = sidecarEmptyDirPath ''u-1'', miFsType = ''tmpfs'', miSource = ''tmpfs'', miMinor = 3\<rparr>])"
  "procMountinfo (sampleHost acc) = State_Monad.return None"
  "getenv (sampleHost acc) = (\<lambda>_. State_Monad.return ''2'')"
  "openFuse (sampleHost acc) = State_Monad.return (Inr 7)"
  "ioctlClone (sampleHost acc) = (\<lambda>_ _. State_Monad.return None)"
  "closeFd (sampleHost acc) = (\<lambda>_. State_Monad.return None)"
  "mountFuse (sampleHost acc) = (\<lambda>_ _ _. State_Monad.return None)"
  "sysUnmount (sampleHost acc) = (\<lambda>_. State_Monad.return None)"
  "osMkdirAll (sampleHost acc) = (\<lambda>_. State_Monad.return None)"
  "osChown (sampleHost acc) = (\<lambda>_. State_Monad.return None)"
  "osLchown (sampleHost acc) = (\<lambda>_. State_Monad.return None)"
  "osRemove (sampleHost acc) = (\<lambda>_. State_Monad.return (Some ENOENT))"
  "osReadFile (sampleHost acc) = (\<lambda>_. State_Monad.return (Inr ''t''))"
  "osWriteFile (sampleHost acc) = (\<lambda>_ _. State_Monad.return None)"
  "osSymlink (sampleHost acc) = (\<lambda>_ _. State_Monad.return None)"
  "osLstat (sampleHost acc) = (\<lambda>_. State_Monad.return (Inr True))"
  "openDir (sampleHost acc) = (\<lambda>_. State_Monad.return (Inr 8))"
  "openat2 (sampleHost acc) = (\<lambda>_ _ _. State_Monad.return (Inr 9))"
  "fdWrite (sampleHost acc) = (\<lambda>_ _. State_Monad.return None)"
  "fdReadAll (sampleHost acc) = (\<lambda>_. State_Monad.return (Inr []))"
  "fdChown (sampleHost acc) = (\<lambda>_. State_Monad.return None)"
  "netListen (sampleHost acc) = (\<lambda>_. State_Monad.return (Inr 1))"
  "netAccept (sampleHost acc) = (\<lambda>_ _. State_Monad.return acc)"
  "closeListener (sampleHost acc) = (\<lambda>_. State_Monad.return None)"
  "closeConn (sampleHost acc) = (\<lambda>_. State_Monad.return None)"
  "connFile (sampleHost acc) = (\<lambda>_. State_Monad.return (Inr 10))"
  "sendmsg (sampleHost acc) = (\<lambda>_ _ _. State_Monad.return None)"
  "osCreateTemp (sampleHost acc) = (\<lambda>_. State_Monad.return (Inr (''/tmpfile'', 11)))"
  "osRename (sampleHost acc) = (\<lambda>_ _. State_Monad.return None)"
  by (simp_all add: sampleHost_def)

definition sampleHostState :: "unit host" where
  "sampleHostState = \<lparr>vars = \<lparr>sidecarVolumes = {}, pendingSidecarMinors = {3, 5}\<rparr>, world = (), log = []\<rparr>"

definition sampleJob :: handoffJob where
  "sampleJob = \<lparr>jobVolumeDir = ''/d'', jobSymlink = ''/l'', jobListener = 1, jobFd = 7, jobMinor = Some 3, jobFdCount = ''1''\<rparr>"

lemmas sample_host_simps = sampleHostState_def run_bind call_def ask_def note_ev_def
  getVars_def setVars_def whenM_def sysClose_def

lemmas handoff_defs = sidecarHandoff_def passFds_def SendMsgFds_def writeHandoffFile_def openHandoffFile_def
  clearPendingMinor_def clearSidecarHandoffPending_def

lemma sampleHandoff_ok: "fst (run_state (sidecarHandoff (sampleHost (Inr 1)) sampleJob) sampleHostState)"
proof -
  have "sidecarFuseFdCount ''2'' ''1'' = 1" by code_simp
  then show ?thesis by (simp add: sample_host_simps handoff_defs sampleJob_def Let_def)
qed

lemma sampleHandoff_fail: "\<not> fst (run_state (sidecarHandoff (sampleHost (Inl ENOENT)) sampleJob) sampleHostState)"
  by (simp add: sample_host_simps handoff_defs sampleJob_def Let_def)


lemma sampleHost_tmpfs: "run_state (requireSidecarTmpfs (sampleHost acc) (sidecarEmptyDirPath ''u-1'')) s = (None, s)"
proof -
  have "unescapeMountPath (sidecarEmptyDirPath ''u-1'') = Clean (sidecarEmptyDirPath ''u-1'')" by code_simp
  then show ?thesis
    by (simp add: requireSidecarTmpfs_def sidecarMountInfo_def run_bind ask_def)
qed

lemma sampleMount_ok:
  assumes uid: "WorkloadPodUID opts = ''u-1''"
  shows "fst (run_state (sidecarMount (sampleHost acc) ''bucket'' sid tgt opts vol) s) = None"
proof -
  have args: "\<exists>args. buildArgs ''bucket'' sid ''/tmp'' o1 = Inr args" for o1 :: "'q MountOptions"
    by (simp add: buildArgs_def Let_def)
  obtain o2 where copy: "\<And>s. fst (run_state (copyToken (sampleHost acc) (handoffDir ''u-1'' vol) opts) s) = Inr o2"
    by (cases "TokenFile opts = []") (auto simp: copyToken_def writeHandoffFile_def openHandoffFile_def Let_def
        run_bind call_def ask_def note_ev_def sysClose_def)
  obtain args1 where a: "buildArgs ''bucket'' sid ''/tmp'' (o2\<lparr>CacheDir := []\<rparr>) = Inr args1"
    using args by blast
  show ?thesis
    unfolding sidecarMount_def Let_def uid
    by (simp add: sampleHost_tmpfs writeSidecarConfig_def copy a writeHandoffFile_def openHandoffFile_def Let_def
        run_bind call_def ask_def note_ev_def sysClose_def openSidecarSocket_def
        fuseMinorForMount_def markPendingMinor_def case_prod_beta)
qed

lemma sampleOptions_uid: "WorkloadPodUID sampleOptions = ''u-1''"
  by (simp add: sampleOptions_def)

definition sampleMounted :: "unit host" where
  "sampleMounted = snd (run_state (sidecarMount (sampleHost (Inr 1)) ''bucket'' ''o/d'' ''/t'' sampleOptions ''v'') sampleHostState)"

lemma sampleMounted: "run_state (sidecarMount (sampleHost (Inr 1)) ''bucket'' ''o/d'' ''/t'' sampleOptions ''v'') sampleHostState
    = (None, sampleMounted)"
  using sampleMount_ok [of sampleOptions "Inr 1"] by (metis prod.collapse sampleMounted_def sampleOptions_uid)

theorem sidecar_fds_conserved_witness:
  "\<exists>job :: handoffJob. opens (newEvents sampleHostState sampleMounted) = add_mset (jobFd job) (closes (newEvents sampleHostState sampleMounted))"
  using sidecar_fds_conserved [OF sampleMounted, simplified] by blast


theorem sidecar_args_written_witness:
  "\<exists>dirFd how fd. FileOpened dirFd ''args'' how (Inr fd) \<in> set (newEvents sampleHostState sampleMounted)"
  using sidecar_args_written [OF sampleMounted] by blast

end
