(* ===== verification/Node.thy ===== *)
theory Node
  imports Sidecar_Handoff
begin

text \<open>
  The CSI node service (\<open>pkg/driver/node.go\<close>), with \<open>writeTokenFile\<close> of \<open>mounter.go\<close>:
  publishing and unpublishing a volume in both modes. The \<open>Mounter\<close> interface, the kernel and the
  file system are called through records of functions with arbitrary answers; the theorems hold
  for every mounter. \<open>sidecarMountStateFn\<close> is nil outside the tests, so publishing uses
  \<open>sidecarMountState\<close>.
\<close>

section \<open>Requests\<close>

definition defaultRevision :: string where "defaultRevision = ''main''"

definition defaultTokenKey :: string where "defaultTokenKey = ''token''"

definition volumeCtxSourceType :: string where "volumeCtxSourceType = ''sourceType''"

definition volumeCtxSourceID :: string where "volumeCtxSourceID = ''sourceId''"

definition volumeCtxRevision :: string where "volumeCtxRevision = ''revision''"

definition volumeCtxHubEndpoint :: string where "volumeCtxHubEndpoint = ''hubEndpoint''"

definition volumeCtxCacheDir :: string where "volumeCtxCacheDir = ''cacheDir''"

definition volumeCtxCacheSize :: string where "volumeCtxCacheSize = ''cacheSize''"

definition volumeCtxPollInterval :: string where "volumeCtxPollInterval = ''pollIntervalSecs''"

definition volumeCtxPollListingConcurrency :: string where
  "volumeCtxPollListingConcurrency = ''pollListingConcurrency''"

definition volumeCtxMetadataTtl :: string where "volumeCtxMetadataTtl = ''metadataTtlMs''"

definition volumeCtxInodeSoftLimit :: string where "volumeCtxInodeSoftLimit = ''inodeSoftLimit''"

definition volumeCtxLruSweepIntervalMs :: string where
  "volumeCtxLruSweepIntervalMs = ''lruSweepIntervalMs''"

definition volumeCtxFuseFdCount :: string where "volumeCtxFuseFdCount = ''fuseFdCount''"

definition volumeCtxTokenKey :: string where "volumeCtxTokenKey = ''tokenKey''"

definition volumeCtxMountFlags :: string where "volumeCtxMountFlags = ''mountFlags''"

definition volumeCtxMountMode :: string where "volumeCtxMountMode = ''mountMode''"

definition volumeCtxPodUID :: string where "volumeCtxPodUID = ''csi.storage.k8s.io/pod.uid''"

definition MountModeSidecar :: string where "MountModeSidecar = ''sidecar''"

definition MountModeMountPod :: string where "MountModeMountPod = ''mountpod''"

text \<open>The access type of the capability: \<open>None\<close> is a block volume.\<close>

record mountCapability =
  capMountFlags :: "string list"
  capVolumeMountGroup :: string

record publishRequest =
  pubVolumeId :: string
  pubTargetPath :: string
  pubCapability :: "mountCapability option option"
  pubVolumeContext :: "string \<rightharpoonup> string"
  pubSecrets :: "string \<rightharpoonup> string"
  pubReadonly :: bool

record ('w, 'q, 'e) Mounter =
  mMount :: "string \<Rightarrow> string \<Rightarrow> string \<Rightarrow> 'q MountOptions \<Rightarrow> ('w, 'e option) state"
  mUnmount :: "string \<Rightarrow> ('w, 'e option) state"
  mIsMountPoint :: "string \<Rightarrow> ('w, bool \<times> oserr option) state"
  mCheckHealth :: "string \<Rightarrow> ('w, 'e option) state"

text \<open>The driver, with the kernel and file system below it and \<open>mount.IsCorruptedMnt\<close>.\<close>

record ('w, 'q, 'e) Driver =
  drvNodeID :: string
  cacheBase :: string
  mounter :: "('w, 'q, 'e) Mounter"
  fuseUnmountFn :: "string \<Rightarrow> ('w, oserr option) state"
  hostOf :: "'w hostEnv"
  corruptedMnt :: "oserr \<Rightarrow> bool"
  drvQuantityOps :: "'q quantityOps"

datatype 'e nodeErr =
    InvalidArgument string
  | SidecarStateFailed mountStateErr
  | MountPointCheckFailed oserr
  | SidecarUnhealthy sidecarHealthErr
  | MountUnhealthy 'e
  | TokenFileFailed oserr
  | SidecarMountFailed sidecarErr
  | MountFailed 'e
  | UnmountFailed 'e
  | SidecarUnmountFailed oserr
  | TargetRemoveFailed oserr

section \<open>Tokens\<close>

definition writeTokenFile :: "'w hostEnv \<Rightarrow> string \<Rightarrow> string \<Rightarrow> ('w host, oserr option) state" where
  "writeTokenFile h path token =
     (let dir = Dir path in
      do { e1 \<leftarrow> call (osMkdirAll h dir) (\<lambda>_. DirMade dir);
           case e1 of
             Some e \<Rightarrow> State_Monad.return (Some e)
           | None \<Rightarrow>
               do { t \<leftarrow> call (osCreateTemp h dir) (TempCreated dir);
                    case t of
                      Inl e \<Rightarrow> State_Monad.return (Some e)
                    | Inr (tmpName, fd) \<Rightarrow>
                        do { we \<leftarrow> call (fdWrite h fd token) (\<lambda>_. FdWritten fd token);
                             case we of
                               Some e \<Rightarrow>
                                 do { _ \<leftarrow> sysClose h fd;
                                      _ \<leftarrow> call (osRemove h tmpName) (PathRemoved tmpName);
                                      State_Monad.return (Some e) }
                             | None \<Rightarrow>
                                 do { ce \<leftarrow> sysClose h fd;
                                      case ce of
                                        Some e \<Rightarrow>
                                          do { _ \<leftarrow> call (osRemove h tmpName) (PathRemoved tmpName);
                                               State_Monad.return (Some e) }
                                      | None \<Rightarrow> call (osRename h tmpName path) (Renamed tmpName path) } } } })"

definition cleanupTokenFile :: "('w, 'q, 'e) Driver \<Rightarrow> string \<Rightarrow> ('w host, unit) state" where
  "cleanupTokenFile d volumeID =
     (let tokenFile = tokenFilePath (cacheBase d) volumeID; h = hostOf d in
      do { _ \<leftarrow> call (osRemove h tokenFile) (PathRemoved tokenFile);
           _ \<leftarrow> call (osRemove h (Dir tokenFile)) (PathRemoved (Dir tokenFile));
           State_Monad.return () })"

section \<open>Publish\<close>

definition track :: "string \<Rightarrow> ('w host, unit) state" where
  "track target = do { v \<leftarrow> getVars; setVars (v\<lparr>sidecarVolumes := insert target (sidecarVolumes v)\<rparr>) }"

definition untrack :: "string \<Rightarrow> ('w host, unit) state" where
  "untrack target = do { v \<leftarrow> getVars; setVars (v\<lparr>sidecarVolumes := sidecarVolumes v - {target}\<rparr>) }"

definition publishGuard :: "publishRequest \<Rightarrow> string option" where
  "publishGuard req =
     (let volCtx = pubVolumeContext req; mode = getWithDefault volCtx volumeCtxMountMode MountModeSidecar in
      if pubVolumeId req = [] then Some ''volumeId is required''
      else if pubTargetPath req = [] then Some ''targetPath is required''
      else if pubCapability req = None then Some ''volumeCapability is required''
      else if pubCapability req = Some None then Some ''only mount access type is supported''
      else if lookupStr volCtx volumeCtxSourceType = [] then Some ''volumeContext must contain sourceType''
      else if lookupStr volCtx volumeCtxSourceID = [] then Some ''volumeContext must contain sourceId''
      else if mode \<noteq> MountModeSidecar \<and> mode \<noteq> MountModeMountPod then Some ''invalid mountMode''
      else None)"

definition willUseSidecar :: "publishRequest \<Rightarrow> bool" where
  "willUseSidecar req =
     (getWithDefault (pubVolumeContext req) volumeCtxMountMode MountModeSidecar = MountModeSidecar
      \<and> lookupStr (pubVolumeContext req) volumeCtxPodUID \<noteq> [])"

definition publishToken :: "publishRequest \<Rightarrow> string" where
  "publishToken req =
     lookupStr (pubSecrets req) (getWithDefault (pubVolumeContext req) volumeCtxTokenKey defaultTokenKey)"

definition splitFlags :: "string \<Rightarrow> string list" where
  "splitFlags raw =
     (if raw \<noteq> [] then map (\<lambda>f. ''--'' @ f) (filter (\<lambda>f. f \<noteq> []) (map TrimSpace (Split raw (CHR 0x2C)))) else [])"

definition publishOptions :: "('w, 'q, 'e) Driver \<Rightarrow> publishRequest \<Rightarrow> mountCapability \<Rightarrow> 'q MountOptions" where
  "publishOptions d req cap =
     (let volCtx = pubVolumeContext req; group = capVolumeMountGroup cap; token = publishToken req in
      \<lparr>Revision = getWithDefault volCtx volumeCtxRevision defaultRevision,
       HubEndpoint = lookupStr volCtx volumeCtxHubEndpoint,
       CacheDir = getWithDefault volCtx volumeCtxCacheDir (pathJoin [cacheBase d, sanitizeVolumeID (pubVolumeId req)]),
       CacheSize = lookupStr volCtx volumeCtxCacheSize,
       PollIntervalSecs = lookupStr volCtx volumeCtxPollInterval,
       PollListingConcurrency = lookupStr volCtx volumeCtxPollListingConcurrency,
       MetadataTtlMs = lookupStr volCtx volumeCtxMetadataTtl,
       InodeSoftLimit = lookupStr volCtx volumeCtxInodeSoftLimit,
       LruSweepIntervalMs = lookupStr volCtx volumeCtxLruSweepIntervalMs,
       FuseFdCount = lookupStr volCtx volumeCtxFuseFdCount,
       ReadOnly = pubReadonly req,
       ExtraArgs = (if group \<noteq> [] then [''--uid='' @ group, ''--gid='' @ group] else [])
         @ map (\<lambda>f. ''--'' @ f) (capMountFlags cap) @ splitFlags (lookupStr volCtx volumeCtxMountFlags),
       TokenFile = (if token \<noteq> [] then tokenFilePath (cacheBase d) (pubVolumeId req) else []),
       WorkloadPodUID = lookupStr volCtx volumeCtxPodUID,
       VolumeMountGroup = group,
       Resources = ParseMountResources (drvQuantityOps d) volCtx\<rparr>)"

text \<open>What is at the target: in sidecar mode from the mount table, never by a call that may block.\<close>

definition targetState ::
  "('w, 'q, 'e) Driver \<Rightarrow> bool \<Rightarrow> string \<Rightarrow> ('w host, 'e nodeErr + int \<times> bool) state" where
  "targetState d sidecar target =
     (if sidecar then
        do { r \<leftarrow> sidecarMountState (hostOf d) target;
             State_Monad.return (case r of Inl e \<Rightarrow> Inl (SidecarStateFailed e) | Inr st \<Rightarrow> Inr st) }
      else
        do { mp \<leftarrow> call (mIsMountPoint (mounter d) target) (\<lambda>_. TargetStat target);
             State_Monad.return
               (case snd mp of
                  None \<Rightarrow> Inr (0, fst mp)
                | Some e \<Rightarrow>
                    if corruptedMnt d e then Inr (0, False)
                    else if e \<noteq> ENOENT then Inl (MountPointCheckFailed e)
                    else Inr (0, fst mp)) })"

definition republish ::
  "('w, 'q, 'e) Driver \<Rightarrow> publishRequest \<Rightarrow> int \<Rightarrow> ('w host, 'e nodeErr option) state" where
  "republish d req minor =
     (let sidecar = willUseSidecar req; h = hostOf d; target = pubTargetPath req; volumeID = pubVolumeId req;
          token = publishToken req; uid = lookupStr (pubVolumeContext req) volumeCtxPodUID in
      do { pending \<leftarrow> (if sidecar then do { track target; sidecarHandoffPending minor }
                      else State_Monad.return False);
           if pending then State_Monad.return None
           else
             do { whenM (token \<noteq> [])
                    (if sidecar then refreshSidecarToken h uid volumeID token
                     else do { _ \<leftarrow> writeTokenFile h (tokenFilePath (cacheBase d) volumeID) token;
                               State_Monad.return () });
                  if sidecar then
                    do { he \<leftarrow> checkSidecarHealth h uid volumeID;
                         case he of
                           None \<Rightarrow> State_Monad.return None
                         | Some e \<Rightarrow>
                             do { abortFuseConnection h target;
                                  ue \<leftarrow> call (fuseUnmountFn d target) (Detached target);
                                  whenM (ue = None) (untrack target);
                                  State_Monad.return (Some (SidecarUnhealthy e)) } }
                  else
                    do { e \<leftarrow> ask (mCheckHealth (mounter d) target);
                         State_Monad.return (map_option MountUnhealthy e) } } })"

definition publishNew ::
  "('w, 'q, 'e) Driver \<Rightarrow> publishRequest \<Rightarrow> mountCapability \<Rightarrow> ('w host, 'e nodeErr option) state" where
  "publishNew d req cap =
     (let h = hostOf d; target = pubTargetPath req; volumeID = pubVolumeId req; token = publishToken req;
          sourceType = lookupStr (pubVolumeContext req) volumeCtxSourceType;
          sourceID = lookupStr (pubVolumeContext req) volumeCtxSourceID; opts = publishOptions d req cap in
      do { _ \<leftarrow> call (osMkdirAll h target) (\<lambda>_. DirMade target);
           te \<leftarrow> (if token \<noteq> [] then writeTokenFile h (tokenFilePath (cacheBase d) volumeID) token
                  else State_Monad.return None);
           case te of
             Some e \<Rightarrow> State_Monad.return (Some (TokenFileFailed e))
           | None \<Rightarrow>
               if willUseSidecar req then
                 do { me \<leftarrow> sidecarMount h sourceType sourceID target opts volumeID;
                      case me of
                        Some e \<Rightarrow> State_Monad.return (Some (SidecarMountFailed e))
                      | None \<Rightarrow> do { track target; State_Monad.return None } }
               else
                 do { me \<leftarrow> call (mMount (mounter d) sourceType sourceID target opts)
                              (\<lambda>e. MounterMount sourceType sourceID target (e = None));
                      State_Monad.return (map_option MountFailed me) } })"

definition NodePublishVolume ::
  "('w, 'q, 'e) Driver \<Rightarrow> publishRequest \<Rightarrow> ('w host, 'e nodeErr option) state" where
  "NodePublishVolume d req =
     (case publishGuard req of
        Some msg \<Rightarrow> State_Monad.return (Some (InvalidArgument msg))
      | None \<Rightarrow>
          do { st \<leftarrow> targetState d (willUseSidecar req) (pubTargetPath req);
               case st of
                 Inl e \<Rightarrow> State_Monad.return (Some e)
               | Inr (minor, mounted) \<Rightarrow>
                   if mounted then republish d req minor
                   else publishNew d req (the (the (pubCapability req))) })"

section \<open>Unpublish\<close>

definition unpublishSidecarVolume :: "('w, 'q, 'e) Driver \<Rightarrow> string \<Rightarrow> ('w host, 'e nodeErr option) state" where
  "unpublishSidecarVolume d target =
     do { abortFuseConnection (hostOf d) target;
          ue \<leftarrow> call (fuseUnmountFn d target) (Detached target);
          if ue \<noteq> None \<and> ue \<noteq> Some EINVAL \<and> ue \<noteq> Some ENOENT
          then State_Monad.return (Some (SidecarUnmountFailed (the ue)))
          else
            do { re \<leftarrow> call (osRemove (hostOf d) target) (PathRemoved target);
                 if re \<noteq> None \<and> re \<noteq> Some ENOENT then State_Monad.return (Some (TargetRemoveFailed (the re)))
                 else do { untrack target; State_Monad.return None } } }"

definition unpublishMounted :: "('w, 'q, 'e) Driver \<Rightarrow> string \<Rightarrow> ('w host, 'e nodeErr option) state" where
  "unpublishMounted d target =
     do { mp \<leftarrow> call (mIsMountPoint (mounter d) target) (\<lambda>_. TargetStat target);
          let unmount = (do { ue \<leftarrow> call (mUnmount (mounter d) target) (\<lambda>e. MounterUnmount target (e = None));
                              State_Monad.return (map_option UnmountFailed ue) }) in
          case snd mp of
            Some e \<Rightarrow>
              if corruptedMnt d e then unmount
              else if e = ENOENT then State_Monad.return None
              else State_Monad.return (Some (MountPointCheckFailed e))
          | None \<Rightarrow>
              if \<not> fst mp then
                do { re \<leftarrow> call (osRemove (hostOf d) target) (PathRemoved target);
                     State_Monad.return
                       (if re \<noteq> None \<and> re \<noteq> Some ENOENT then Some (TargetRemoveFailed (the re)) else None) }
              else unmount }"

text \<open>The deferred cleanups run on every path after the checks of the request.\<close>

definition NodeUnpublishVolume ::
  "('w, 'q, 'e) Driver \<Rightarrow> string \<Rightarrow> string \<Rightarrow> ('w host, 'e nodeErr option) state" where
  "NodeUnpublishVolume d volumeID target =
     (if volumeID = [] then State_Monad.return (Some (InvalidArgument ''volumeId is required''))
      else if target = [] then State_Monad.return (Some (InvalidArgument ''targetPath is required''))
      else
        do { v \<leftarrow> getVars;
             r \<leftarrow> (if target \<in> sidecarVolumes v then unpublishSidecarVolume d target
                   else unpublishMounted d target);
             cleanupSidecarSocket (hostOf d) volumeID;
             cleanupTokenFile d volumeID;
             State_Monad.return r })"

end
