(* ===== verification/Node_Proofs.thy ===== *)
theory Node_Proofs
  imports Node
begin

text \<open>
  Theorems on the CSI node service: the guards of a request, the atomic token file, which calls
  each mode makes, the tracking of sidecar targets, and the cleanup of an unpublish.
\<close>

section \<open>Kinds of calls\<close>

text \<open>Calls of the mounter, which may block on a FUSE mount that nobody serves.\<close>

fun mounterEvent :: "hostEvent \<Rightarrow> bool" where
  "mounterEvent (TargetStat _) = True"
| "mounterEvent (MounterMount _ _ _ _) = True"
| "mounterEvent (MounterUnmount _ _) = True"
| "mounterEvent _ = False"

text \<open>Calls that act on a FUSE connection or a mount directly.\<close>

fun fuseEvent :: "hostEvent \<Rightarrow> bool" where
  "fuseEvent (FuseOpened _) = True"
| "fuseEvent (KernelMounted _ _ _ _) = True"
| "fuseEvent (KernelUnmounted _) = True"
| "fuseEvent (Detached _ _) = True"
| "fuseEvent (PathWritten _ _) = True"
| "fuseEvent (HandoffStarted _) = True"
| "fuseEvent _ = False"

lemma fileEvent_kind: "fileEvent dir ev \<Longrightarrow> \<not> mounterEvent ev \<and> \<not> fuseEvent ev"
  by (cases ev) auto

lemma fileLog_kind:
  "fileLog dir evs \<Longrightarrow> (\<forall>ev\<in>set evs. \<not> mounterEvent ev \<and> \<not> fuseEvent ev) \<and> (\<forall>p e. Detached p e \<notin> set evs)"
  by (auto simp: fileLog_def dest: fileEvent_kind)

lemma sidecarMountLog_kind:
  "sidecarMountLog st sid target opts vol r v v' evs \<Longrightarrow> \<forall>ev\<in>set evs. \<not> mounterEvent ev"
  by (auto simp: sidecarMountLog_def Let_def dest!: fileLog_kind configLog_fileLog split: option.splits)

section \<open>Token files\<close>

text \<open>
  Every path of \<open>writeTokenFile\<close>: the path of the token is touched only by the rename of a
  complete, closed temporary file in the same directory, and a temporary file that could not be
  completed is removed.
\<close>

definition tokenLog :: "string \<Rightarrow> string \<Rightarrow> oserr option \<Rightarrow> hostEvent list \<Rightarrow> bool" where
  "tokenLog path token r evs \<longleftrightarrow>
     (r \<noteq> None \<and> (evs = [DirMade (Dir path)] \<or> (\<exists>e. evs = [DirMade (Dir path), TempCreated (Dir path) (Inl e)])
        \<or> (\<exists>tmp fd e. evs = [DirMade (Dir path), TempCreated (Dir path) (Inr (tmp, fd)), FdWritten fd token, FdClosed fd,
              PathRemoved tmp e])))
     \<or> (\<exists>tmp fd. evs = [DirMade (Dir path), TempCreated (Dir path) (Inr (tmp, fd)), FdWritten fd token, FdClosed fd,
              Renamed tmp path r])"

lemma eff_writeTokenFile [eff_intros]:
  assumes "\<And>r evs. tokenLog path token r evs \<Longrightarrow> Q r b evs"
  shows "eff (writeTokenFile h path token) Q b"
  unfolding writeTokenFile_def Let_def
  by (intro eff_intros) (auto intro!: assms simp: tokenLog_def)

lemma tokenLog_kind:
  "tokenLog path token r evs \<Longrightarrow> (\<forall>ev\<in>set evs. \<not> mounterEvent ev \<and> \<not> fuseEvent ev) \<and> (\<forall>p e. Detached p e \<notin> set evs)"
  by (auto simp: tokenLog_def)

text \<open>
  The token file is replaced atomically: when \<open>writeTokenFile\<close> succeeds, its last action
  renamed onto the path a temporary file of the same directory that it had written completely and
  closed; when it fails, no rename onto the path succeeded, and a temporary file it could not
  complete was removed. On no path is the file itself opened, and no descriptor is leaked.
\<close>

theorem writeTokenFile_atomic:
  assumes "run_state (writeTokenFile h path token) s = (r, s')"
  shows "(r = None \<longleftrightarrow> (\<exists>tmp. Renamed tmp path None \<in> set (newEvents s s')))
    \<and> (\<forall>tmp e. Renamed tmp path e \<in> set (newEvents s s') \<longrightarrow>
         (\<exists>fd. newEvents s s' = [DirMade (Dir path), TempCreated (Dir path) (Inr (tmp, fd)), FdWritten fd token, FdClosed fd,
            Renamed tmp path e]))
    \<and> (\<forall>tmp fd. TempCreated (Dir path) (Inr (tmp, fd)) \<in> set (newEvents s s') \<longrightarrow>
         last (newEvents s s') = Renamed tmp path r \<or> (\<exists>e. last (newEvents s s') = PathRemoved tmp e))
    \<and> opens (newEvents s s') = closes (newEvents s s') \<and> vars s' = vars s"
proof -
  have "eff (writeTokenFile h path token) (\<lambda>r v' evs. v' = vars s \<and> tokenLog path token r evs) (vars s)"
    by (intro eff_intros) auto
  from eff_newEvents [OF this assms] show ?thesis by (auto simp: tokenLog_def)
qed

section \<open>Publish\<close>

definition publishSpec ::
  "bool \<Rightarrow> string \<Rightarrow> 'e nodeErr option \<Rightarrow> nodeVars \<Rightarrow> nodeVars \<Rightarrow> hostEvent list \<Rightarrow> bool" where
  "publishSpec sidecar target r v v' evs \<longleftrightarrow>
     (\<forall>ev\<in>set evs. if sidecar then \<not> mounterEvent ev else \<not> fuseEvent ev)
     \<and> (\<not> sidecar \<longrightarrow> v' = v)
     \<and> (sidecar \<and> r = None \<longrightarrow> target \<in> sidecarVolumes v')
     \<and> sidecarVolumes v' - {target} = sidecarVolumes v - {target}
     \<and> (\<forall>p e. Detached p e \<in> set evs \<longrightarrow> p = target \<and> r \<noteq> None)"

lemma eff_track [eff_intros]:
  "Q () (b\<lparr>sidecarVolumes := insert t (sidecarVolumes b)\<rparr>) [] \<Longrightarrow> eff (track t) Q b"
  unfolding track_def by (intro eff_intros) simp

lemma eff_untrack [eff_intros]:
  "Q () (b\<lparr>sidecarVolumes := sidecarVolumes b - {t}\<rparr>) [] \<Longrightarrow> eff (untrack t) Q b"
  unfolding untrack_def by (intro eff_intros) simp

lemma eff_sidecarHandoffPending [eff_intros]:
  "Q (m \<in> pendingSidecarMinors b) b [] \<Longrightarrow> eff (sidecarHandoffPending m) Q b"
  unfolding sidecarHandoffPending_def by (intro eff_intros) simp

definition abortLog :: "hostEvent list \<Rightarrow> bool" where
  "abortLog evs \<longleftrightarrow> evs = [] \<or> (\<exists>minor. evs = [PathWritten (abortPath minor) ''1''])"

lemma eff_abortFuseConnection [eff_intros]:
  assumes "\<And>evs. abortLog evs \<Longrightarrow> Q () b evs"
  shows "eff (abortFuseConnection h target) Q b"
  unfolding abortFuseConnection_def by (intro eff_intros) (auto intro!: assms simp: abortLog_def)

lemma abortLog_kind: "abortLog evs \<Longrightarrow> ev \<in> set evs \<Longrightarrow> \<exists>m. ev = PathWritten (abortPath m) ''1''"
  by (auto simp: abortLog_def)

lemma abortLog_quiet: "abortLog evs \<Longrightarrow> ev \<in> set evs \<Longrightarrow> \<not> mounterEvent ev"
  by (auto simp: abortLog_def)

lemma eff_targetState [eff_intros]:
  assumes "\<And>r. sidecar \<Longrightarrow> Q r b []" "\<And>r. \<not> sidecar \<Longrightarrow> Q r b [TargetStat target]"
  shows "eff (targetState d sidecar target) Q b"
  unfolding targetState_def by (intro eff_intros) (auto intro: assms)

lemma eff_republish:
  "eff (republish d req minor)
     (\<lambda>r v' evs. publishSpec (willUseSidecar req) (pubTargetPath req) r v v' evs) v"
  unfolding republish_def Let_def
  by (intro eff_intros) (auto simp: publishSpec_def abortLog_def dest!: fileLog_kind tokenLog_kind)

lemma sidecarMountLog_vars:
  "sidecarMountLog st sid target opts vol r v v' evs \<Longrightarrow> sidecarVolumes v' = sidecarVolumes v"
  by (auto simp: sidecarMountLog_def Let_def)

lemma sidecarMountLog_no_detach:
  "sidecarMountLog st sid target opts vol r v v' evs \<Longrightarrow> Detached p e \<notin> set evs"
  by (auto simp: sidecarMountLog_def Let_def dest!: fileLog_kind configLog_fileLog split: option.splits)

lemma sidecarMountLog_facts:
  "sidecarMountLog st sid target opts vol r v v' evs \<Longrightarrow>
     (\<forall>ev\<in>set evs. \<not> mounterEvent ev) \<and> sidecarVolumes v' = sidecarVolumes v \<and> (\<forall>p e. Detached p e \<notin> set evs)"
  by (simp add: sidecarMountLog_kind sidecarMountLog_vars sidecarMountLog_no_detach)

lemma eff_publishNew:
  "eff (publishNew d req cap)
     (\<lambda>r v' evs. publishSpec (willUseSidecar req) (pubTargetPath req) r v v' evs) v"
  unfolding publishNew_def Let_def
  by (intro eff_intros eff_mono [OF eff_sidecarMount])
     (auto simp: publishSpec_def dest!: tokenLog_kind sidecarMountLog_facts)

lemma publishSpec_cons: "\<not> sidecar \<Longrightarrow> publishSpec sidecar t r v v' evs \<Longrightarrow> publishSpec sidecar t r v v' (TargetStat p # evs)"
  by (auto simp: publishSpec_def)

lemma eff_NodePublishVolume:
  "eff (NodePublishVolume d req)
     (\<lambda>r v' evs. (\<exists>msg. publishGuard req = Some msg \<and> r = Some (InvalidArgument msg) \<and> v' = v \<and> evs = [])
        \<or> publishGuard req = None \<and> publishSpec (willUseSidecar req) (pubTargetPath req) r v v' evs) v"
  unfolding NodePublishVolume_def
  by (intro eff_intros eff_mono [OF eff_republish] eff_mono [OF eff_publishNew])
     (auto simp: publishSpec_cons, auto simp: publishSpec_def)


section \<open>Unpublish\<close>

definition cleanupTail :: "('w, 'q, 'e) Driver \<Rightarrow> string \<Rightarrow> hostEvent list \<Rightarrow> bool" where
  "cleanupTail d vol evs \<longleftrightarrow>
     (\<exists>e1 e2 e3. evs = [PathRemoved (pathJoin [symlinkBase, handoffHash vol]) e1,
        PathRemoved (tokenFilePath (cacheBase d) vol) e2, PathRemoved (Dir (tokenFilePath (cacheBase d) vol)) e3])"

text \<open>Nothing was mounted, or the path is gone: not an error of a detach.\<close>

definition benign :: "oserr option \<Rightarrow> bool" where
  "benign ue \<longleftrightarrow> ue = None \<or> ue = Some EINVAL \<or> ue = Some ENOENT"

text \<open>The part of an unpublish before the deferred cleanups.\<close>

definition unpublishSpec ::
  "bool \<Rightarrow> string \<Rightarrow> 'e nodeErr option \<Rightarrow> nodeVars \<Rightarrow> nodeVars \<Rightarrow> hostEvent list \<Rightarrow> bool" where
  "unpublishSpec tracked target r v v' evs \<longleftrightarrow>
     v' = (if tracked \<and> r = None then v\<lparr>sidecarVolumes := sidecarVolumes v - {target}\<rparr> else v)
     \<and> (if tracked
        then \<exists>ab ue re. abortLog ab \<and> evs = ab @ Detached target ue # (if benign ue then [PathRemoved target re] else [])
          \<and> r = (if \<not> benign ue then Some (SidecarUnmountFailed (the ue))
                 else if re = None \<or> re = Some ENOENT then None else Some (TargetRemoveFailed (the re)))
        else \<exists>rest. evs = TargetStat target # rest
          \<and> (rest = [] \<or> rest = [MounterUnmount target (r = None)] \<or> (\<exists>re. rest = [PathRemoved target re])))"

lemma unpublishSpec_tracked:
  assumes "abortLog ab" "r = (if \<not> benign ue then Some (SidecarUnmountFailed (the ue))
                 else if re = None \<or> re = Some ENOENT then None else Some (TargetRemoveFailed (the re)))"
    "v' = (if r = None then v\<lparr>sidecarVolumes := sidecarVolumes v - {target}\<rparr> else v)"
    "evs = ab @ Detached target ue # (if benign ue then [PathRemoved target re] else [])"
  shows "unpublishSpec True target r v v' evs"
  unfolding unpublishSpec_def if_True simp_thms using assms by blast

lemma eff_unpublishSidecarVolume:
  "eff (unpublishSidecarVolume d target) (\<lambda>r v' evs. unpublishSpec True target r v v' evs) v"
  unfolding unpublishSidecarVolume_def
  apply (intro eff_intros)
  subgoal for ab ue by (rule unpublishSpec_tracked [where ab = ab and ue = ue]) (auto simp: benign_def)
  subgoal for ab ue re by (rule unpublishSpec_tracked [where ab = ab and ue = ue and re = re]) (auto simp: benign_def)
  subgoal for ab ue re by (rule unpublishSpec_tracked [where ab = ab and ue = ue and re = re]) (auto simp: benign_def)
  done

lemma eff_unpublishMounted:
  "eff (unpublishMounted d target) (\<lambda>r v' evs. unpublishSpec False target r v v' evs) v"
  unfolding unpublishMounted_def Let_def
  by (intro eff_intros) (auto simp: unpublishSpec_def)

lemma cleanupTailI:
  assumes "unpublishSpec tracked target r v v' main"
  shows "\<exists>main' tl. main @ [PathRemoved (pathJoin [symlinkBase, handoffHash vol]) e1,
        PathRemoved (tokenFilePath (cacheBase d) vol) e2, PathRemoved (Dir (tokenFilePath (cacheBase d) vol)) e3] = main' @ tl
      \<and> cleanupTail d vol tl \<and> unpublishSpec tracked target r v v' main'"
  unfolding cleanupTail_def using assms by blast

lemma eff_NodeUnpublishVolume:
  assumes "vol \<noteq> []" "target \<noteq> []"
  shows "eff (NodeUnpublishVolume d vol target)
    (\<lambda>r v' evs. \<exists>main tl. evs = main @ tl \<and> cleanupTail d vol tl
       \<and> unpublishSpec (target \<in> sidecarVolumes v) target r v v' main) v"
  unfolding NodeUnpublishVolume_def cleanupSidecarSocket_def cleanupTokenFile_def Let_def if_not_P [OF assms(1)] if_not_P [OF assms(2)]
  apply (intro eff_intros eff_mono [OF eff_unpublishSidecarVolume] eff_mono [OF eff_unpublishMounted])
  subgoal by (drule cleanupTailI [where d = d and vol = vol]) simp
  subgoal by (drule cleanupTailI [where d = d and vol = vol]) simp
  done


text \<open>
  (C37) The tracking of sidecar targets follows the lifecycle of a volume: after a successful
  publish in sidecar mode the target is tracked, also when it was already mounted (a restart of the
  plugin has emptied the map); after a later successful unpublish, possibly with anything in
  between that leaves the target tracked, it is not; an unpublish that fails keeps it for the
  retry. Neither operation ever changes the tracking of another target.
\<close>

theorem sidecar_tracking:
  assumes "run_state (NodePublishVolume d req) s = (r, s1)" "willUseSidecar req"
    "run_state (NodeUnpublishVolume d' vol (pubTargetPath req)) s2 = (r', s3)" "vol \<noteq> []" "pubTargetPath req \<noteq> []"
  shows "(r = None \<longrightarrow> pubTargetPath req \<in> sidecarVolumes (vars s1))
    \<and> sidecarVolumes (vars s1) - {pubTargetPath req} = sidecarVolumes (vars s) - {pubTargetPath req}
    \<and> (r' = None \<longrightarrow> pubTargetPath req \<notin> sidecarVolumes (vars s3))
    \<and> (r' \<noteq> None \<longrightarrow> sidecarVolumes (vars s3) = sidecarVolumes (vars s2))
    \<and> sidecarVolumes (vars s3) - {pubTargetPath req} = sidecarVolumes (vars s2) - {pubTargetPath req}"
proof -
  obtain main where u: "unpublishSpec (pubTargetPath req \<in> sidecarVolumes (vars s2)) (pubTargetPath req) r' (vars s2) (vars s3) main"
    using eff_newEvents [OF eff_NodeUnpublishVolume [OF assms(4,5)] assms(3)] by blast
  then have "vars s3 = (if pubTargetPath req \<in> sidecarVolumes (vars s2) \<and> r' = None
      then (vars s2)\<lparr>sidecarVolumes := sidecarVolumes (vars s2) - {pubTargetPath req}\<rparr> else vars s2)"
    unfolding unpublishSpec_def by blast
  moreover have "r = None \<longrightarrow> pubTargetPath req \<in> sidecarVolumes (vars s1)"
      "sidecarVolumes (vars s1) - {pubTargetPath req} = sidecarVolumes (vars s) - {pubTargetPath req}"
    using eff_newEvents [OF eff_NodePublishVolume assms(1)] assms(2) by (auto simp: publishSpec_def)
  ultimately show ?thesis by auto
qed

section \<open>Instances\<close>

definition sampleMounter :: "(unit, nat, nat) Mounter" where
  "sampleMounter =
     \<lparr>mMount = (\<lambda>_ _ _ _. State_Monad.return None), mUnmount = (\<lambda>_. State_Monad.return None),
      mIsMountPoint = (\<lambda>_. State_Monad.return (False, None)), mCheckHealth = (\<lambda>_. State_Monad.return None)\<rparr>"

definition sampleDriver :: "(unit, nat, nat) Driver" where
  "sampleDriver =
     \<lparr>drvNodeID = ''n'', cacheBase = ''/c'', mounter = sampleMounter, fuseUnmountFn = (\<lambda>_. State_Monad.return None),
      hostOf = sampleHost (Inr 1), corruptedMnt = (\<lambda>e. e = ENOTCONN), drvQuantityOps = sampleOps\<rparr>"

definition sampleRequest :: publishRequest where
  "sampleRequest =
     \<lparr>pubVolumeId = ''v'', pubTargetPath = ''/t'',
      pubCapability = Some (Some \<lparr>capMountFlags = [''read-only''], capVolumeMountGroup = []\<rparr>),
      pubVolumeContext = [volumeCtxSourceType \<mapsto> ''bucket'', volumeCtxSourceID \<mapsto> ''o/d'', volumeCtxPodUID \<mapsto> ''u-1''],
      pubSecrets = Map.empty, pubReadonly = False\<rparr>"

lemmas volumeCtx_defs = volumeCtxSourceType_def volumeCtxSourceID_def volumeCtxPodUID_def volumeCtxMountMode_def
  volumeCtxTokenKey_def MountModeSidecar_def MountModeMountPod_def defaultTokenKey_def

lemma sampleRequest_sidecar: "willUseSidecar sampleRequest" "publishGuard sampleRequest = None"
  by (simp_all add: willUseSidecar_def publishGuard_def sampleRequest_def getWithDefault_def lookupStr_def volumeCtx_defs Let_def)

lemma sampleRequest_target: "pubTargetPath sampleRequest = ''/t''"
  by (simp add: sampleRequest_def)

definition samplePublished :: "nat nodeErr option \<times> unit host" where
  "samplePublished = run_state (NodePublishVolume sampleDriver sampleRequest) sampleHostState"

definition sampleUnpublished :: "nat nodeErr option \<times> unit host" where
  "sampleUnpublished = run_state (NodeUnpublishVolume sampleDriver ''v'' ''/t'') (snd samplePublished)"



lemma samplePublished_ok: "fst samplePublished = None"
proof -
  have state: "run_state (sidecarMountState (sampleHost acc) ''/t'') sampleHostState = (Inr (0, False), sampleHostState)" for acc
  proof -
    have "unescapeMountPath (sidecarEmptyDirPath ''u-1'') \<noteq> Clean ''/t''" by code_simp
    then show ?thesis by (simp add: sidecarMountState_def sidecarMountInfo_def run_bind ask_def sampleHostState_def)
  qed
  have req: "publishToken sampleRequest = []" "pubCapability sampleRequest = Some (Some \<lparr>capMountFlags = [''read-only''], capVolumeMountGroup = []\<rparr>)"
      "lookupStr (pubVolumeContext sampleRequest) volumeCtxSourceType = ''bucket''" "hostOf sampleDriver = sampleHost (Inr 1)"
    by (simp_all add: publishToken_def sampleRequest_def lookupStr_def getWithDefault_def volumeCtx_defs sampleDriver_def)
  have "WorkloadPodUID (publishOptions sampleDriver sampleRequest cap) = ''u-1''" for cap
    by (simp add: publishOptions_def Let_def sampleRequest_def lookupStr_def volumeCtx_defs)
  note mount = sampleMount_ok [OF this]
  show ?thesis
    unfolding samplePublished_def NodePublishVolume_def
    by (simp add: sampleRequest_sidecar sampleRequest_target targetState_def publishNew_def Let_def req state mount
        run_bind call_def ask_def note_ev_def case_prod_beta)
qed

lemma sampleUnpublished_ok: "fst sampleUnpublished = None"
  by (simp add: sampleUnpublished_def NodeUnpublishVolume_def unpublishSidecarVolume_def unpublishMounted_def
      abortFuseConnection_def fuseMinorForMount_def untrack_def cleanupSidecarSocket_def cleanupTokenFile_def
      sampleDriver_def sampleMounter_def Let_def run_bind call_def ask_def note_ev_def getVars_def setVars_def)

theorem sidecar_tracking_witness:
  "''/t'' \<in> sidecarVolumes (vars (snd samplePublished)) \<and> ''/t'' \<notin> sidecarVolumes (vars (snd sampleUnpublished))"
proof -
  have p: "run_state (NodePublishVolume sampleDriver sampleRequest) sampleHostState = (None, snd samplePublished)"
    using samplePublished_ok by (metis prod.collapse samplePublished_def)
  have u: "run_state (NodeUnpublishVolume sampleDriver ''v'' (pubTargetPath sampleRequest)) (snd samplePublished)
      = (None, snd sampleUnpublished)"
    unfolding sampleRequest_target using sampleUnpublished_ok by (metis prod.collapse sampleUnpublished_def)
  show ?thesis using sidecar_tracking [OF p sampleRequest_sidecar(1) u] by (simp add: sampleRequest_target)
qed

theorem writeTokenFile_atomic_witness:
  "\<exists>tmp. Renamed tmp ''/c/v/token'' None
     \<in> set (newEvents sampleHostState (snd (run_state (writeTokenFile (sampleHost (Inr 1)) ''/c/v/token'' ''tok'') sampleHostState)))"
proof -
  have "fst (run_state (writeTokenFile (sampleHost (Inr 1)) ''/c/v/token'' ''tok'') sampleHostState) = None"
    by (simp add: writeTokenFile_def Let_def run_bind call_def ask_def note_ev_def sysClose_def)
  then obtain s' where "run_state (writeTokenFile (sampleHost (Inr 1)) ''/c/v/token'' ''tok'') sampleHostState = (None, s')"
    by (metis prod.collapse)
  with writeTokenFile_atomic [OF this] show ?thesis by simp
qed

end
