(* ===== verification/Go_Time.thy ===== *)
theory Go_Time
  imports Go_Strings
begin

text \<open>
  What the driver uses of Go's \<open>time\<close> package. An instant is the number of nanoseconds since
  the start of year 0 in UTC. \<open>FormatRFC3339\<close> prints it to the second, as
  \<open>time.RFC3339\<close> does; \<open>ParseRFC3339\<close> is the parser of that layout: date, time, an optional
  fraction and a zone, each field checked for its range. The theorem the components use is
  that an instant survives printing and parsing up to its fraction of a second.
\<close>

type_synonym time = nat

definition second :: nat where
  "second = 1000000000"

definition isLeap :: "nat \<Rightarrow> bool" where
  "isLeap y = (y mod 4 = 0 \<and> (y mod 100 \<noteq> 0 \<or> y mod 400 = 0))"

definition yearLen :: "nat \<Rightarrow> nat" where
  "yearLen y = (if isLeap y then 366 else 365)"

definition monthLens :: "nat \<Rightarrow> nat list" where
  "monthLens y = [31, if isLeap y then 29 else 28, 31, 30, 31, 30, 31, 31, 30, 31, 30, 31]"

section \<open>Calendar\<close>

fun daysBefore :: "nat \<Rightarrow> nat" where
  "daysBefore 0 = 0"
| "daysBefore (Suc y) = daysBefore y + yearLen y"

text \<open>Year and day of the year of a day counted from the start of year \<open>y\<close>.\<close>

function yearDay :: "nat \<Rightarrow> nat \<Rightarrow> nat \<times> nat" where
  "yearDay y d = (if d < yearLen y then (y, d) else yearDay (Suc y) (d - yearLen y))"
  by pat_completeness auto
termination
  by (relation "measure snd") (auto simp: yearLen_def)

declare yearDay.simps [simp del]

text \<open>Month (from 1) and day (from 1) of a day of the year.\<close>

fun monthDay :: "nat \<Rightarrow> nat list \<Rightarrow> nat \<Rightarrow> nat \<times> nat" where
  "monthDay m [] d = (m, d + 1)"
| "monthDay m (l # ls) d = (if d < l then (m, d + 1) else monthDay (Suc m) ls (d - l))"

definition civil :: "nat \<Rightarrow> nat \<times> nat \<times> nat" where
  "civil day = (let (y, d) = yearDay 0 day; (m, dd) = monthDay 1 (monthLens y) d in (y, m, dd))"

definition dayNumber :: "nat \<Rightarrow> nat \<Rightarrow> nat \<Rightarrow> nat" where
  "dayNumber y m d = daysBefore y + sum_list (take (m - 1) (monthLens y)) + (d - 1)"

section \<open>Printing\<close>

definition padTo :: "nat \<Rightarrow> string \<Rightarrow> string" where
  "padTo n s = replicate (n - length s) (CHR ''0'') @ s"

definition FormatRFC3339 :: "time \<Rightarrow> string" where
  "FormatRFC3339 t =
     (let secs = t div second; day = secs div 86400; r = secs mod 86400; (y, m, d) = civil day in
      padTo 4 (decString y) @ ''-'' @ padTo 2 (decString m) @ ''-'' @ padTo 2 (decString d) @ ''T''
      @ padTo 2 (decString (r div 3600)) @ '':'' @ padTo 2 (decString (r mod 3600 div 60)) @ '':''
      @ padTo 2 (decString (r mod 60)) @ ''Z'')"

section \<open>Parsing\<close>

definition parseUint :: "string \<Rightarrow> nat \<Rightarrow> nat \<Rightarrow> nat option" where
  "parseUint s lo hi =
     (case decDigits 0 s of None \<Rightarrow> None | Some x \<Rightarrow> if lo \<le> x \<and> x \<le> hi then Some x else None)"

text \<open>The digits after the point as nanoseconds: nine of them count.\<close>

definition parseNanoseconds :: "string \<Rightarrow> nat" where
  "parseNanoseconds ds =
     (let d9 = take 9 (ds @ replicate 9 (CHR ''0'')) in case decDigits 0 d9 of None \<Rightarrow> 0 | Some x \<Rightarrow> x)"

text \<open>Zone offset in seconds.\<close>

definition parseZone :: "string \<Rightarrow> int option" where
  "parseZone z =
     (if z = ''Z'' then Some 0
      else if length z \<noteq> 6 then None
      else case (parseUint (take 2 (drop 1 z)) 0 23, parseUint (drop 4 z) 0 59) of
          (Some hr, Some mm) \<Rightarrow>
            if (z ! 0 = CHR ''-'' \<or> z ! 0 = CHR ''+'') \<and> z ! 3 = CHR '':''
            then Some (if z ! 0 = CHR ''-'' then - int ((hr * 60 + mm) * 60) else int ((hr * 60 + mm) * 60))
            else None
        | _ \<Rightarrow> None)"

text \<open>The result may lie before year 0 by less than a day; it is an integer.\<close>

definition ParseRFC3339 :: "string \<Rightarrow> int option" where
  "ParseRFC3339 s =
     (if length s < 19 then None
      else
        case (parseUint (take 4 s) 0 9999, parseUint (take 2 (drop 5 s)) 1 12) of
          (Some y, Some m) \<Rightarrow>
            (case (parseUint (take 2 (drop 8 s)) 1 (monthLens y ! (m - 1)), parseUint (take 2 (drop 11 s)) 0 23,
                   parseUint (take 2 (drop 14 s)) 0 59, parseUint (take 2 (drop 17 s)) 0 59) of
               (Some d, Some hh, Some mi, Some ss) \<Rightarrow>
                 if s ! 4 = CHR ''-'' \<and> s ! 7 = CHR ''-'' \<and> s ! 10 = CHR ''T'' \<and> s ! 13 = CHR '':'' \<and> s ! 16 = CHR '':'' then
                   (let rest = drop 19 s;
                        ds = (if rest \<noteq> [] \<and> hd rest = CHR ''.'' then takeWhile isDigit (tl rest) else []);
                        nsec = (if ds = [] then 0 else parseNanoseconds ds);
                        zone = (if ds = [] then rest else drop (length ds + 1) rest)
                    in case parseZone zone of
                         None \<Rightarrow> None
                       | Some off \<Rightarrow>
                          Some (((int (dayNumber y m d) * 86400 + int (hh * 3600 + mi * 60 + ss)) - off) * int second + int nsec))
                 else None
             | _ \<Rightarrow> None)
        | _ \<Rightarrow> None)"

text \<open>The zero time: the start of year 1.\<close>

definition zeroTime :: int where
  "zeroTime = 366 * 86400 * int second"

text \<open>\<open>t, _ := time.Parse(...)\<close>: the zero time when parsing fails.\<close>

definition parseOrZero :: "string \<Rightarrow> int" where
  "parseOrZero s = (case ParseRFC3339 s of None \<Rightarrow> zeroTime | Some t \<Rightarrow> t)"

text \<open>\<open>t.Sub(u)\<close>: the difference in nanoseconds, saturated to \<open>int64\<close>.\<close>

definition timeSub :: "int \<Rightarrow> int \<Rightarrow> int" where
  "timeSub t u = max (- (2 ^ 63)) (min (2 ^ 63 - 1) (t - u))"

section \<open>Calendar facts\<close>

lemma yearDay_correct:
  "yearDay y d = (y', d') \<Longrightarrow> daysBefore y' + d' = daysBefore y + d \<and> d' < yearLen y'"
proof (induction y d rule: yearDay.induct)
  case (1 y d)
  show ?case
  proof (cases "d < yearLen y")
    case False
    with 1 have "daysBefore y' + d' = daysBefore (Suc y) + (d - yearLen y) \<and> d' < yearLen y'"
      by (simp add: yearDay.simps [of y d])
    with False show ?thesis by simp
  qed (use 1 in \<open>simp add: yearDay.simps [of y d]\<close>)
qed

lemma sum_monthLens: "sum_list (monthLens y) = yearLen y"
  by (simp add: monthLens_def yearLen_def)

lemma monthDay_correct:
  assumes "monthDay m ls d = (m', d')" "d < sum_list ls"
  shows "m \<le> m' \<and> m' < m + length ls \<and> 1 \<le> d' \<and> d' \<le> ls ! (m' - m)
    \<and> sum_list (take (m' - m) ls) + (d' - 1) = d"
  using assms
proof (induction m ls d rule: monthDay.induct)
  case (2 m l ls d)
  show ?case
  proof (cases "d < l")
    case False
    then have "monthDay (Suc m) ls (d - l) = (m', d')" "d - l < sum_list ls" using 2(2,3) by auto
    from 2(1) [OF False this] have "Suc m \<le> m' \<and> m' < Suc m + length ls \<and> 1 \<le> d' \<and> d' \<le> ls ! (m' - Suc m)
        \<and> sum_list (take (m' - Suc m) ls) + (d' - 1) = d - l" .
    moreover from this have "m' - m = Suc (m' - Suc m)" by linarith
    ultimately show ?thesis using False by (auto simp: not_less)
  qed (use 2 in auto)
qed simp

lemma civil_dayNumber:
  assumes "civil day = (y, m, d)"
  shows "dayNumber y m d = day" "1 \<le> m" "m \<le> 12" "1 \<le> d" "d \<le> monthLens y ! (m - 1)"
proof -
  obtain r where r: "yearDay 0 day = (y, r)" "monthDay 1 (monthLens y) r = (m, d)"
    using assms by (auto simp: civil_def Let_def split: prod.splits)
  note yd = yearDay_correct [OF r(1)]
  then have "r < sum_list (monthLens y)" by (simp add: sum_monthLens)
  note md = monthDay_correct [OF r(2) this]
  have "length (monthLens y) = 12" by (simp add: monthLens_def)
  with md show "1 \<le> m" "m \<le> 12" "1 \<le> d" "d \<le> monthLens y ! (m - 1)" by auto
  from md yd show "dayNumber y m d = day" by (auto simp: dayNumber_def ac_simps)
qed

section \<open>Printed instants parse\<close>

lemma decDigits_zeros: "decDigits 0 (replicate k (CHR ''0'') @ s) = decDigits 0 s"
  by (induction k) (simp_all add: isDigit_def)

lemma decDigits_padTo [simp]: "decDigits 0 (padTo n (decString x)) = Some x"
  by (simp add: padTo_def decDigits_zeros decDigits_decString)

lemma length_decString_le: "x < 10 ^ n \<Longrightarrow> 0 < n \<Longrightarrow> length (decString x) \<le> n"
proof (induction n arbitrary: x)
  case (Suc n)
  show ?case
  proof (cases "x < 10")
    case True
    then show ?thesis by (simp add: decString.simps [of x])
  next
    case False
    then have "n \<noteq> 0" using Suc.prems by (cases n) auto
    moreover have "x div 10 < 10 ^ n" using Suc.prems(1) by (simp add: less_mult_imp_div_less mult.commute)
    ultimately have "length (decString (x div 10)) \<le> n" using Suc.IH by blast
    with False show ?thesis by (simp add: decString.simps [of x])
  qed
qed simp

lemma length_padTo: "x < 10 ^ n \<Longrightarrow> 0 < n \<Longrightarrow> length (padTo n (decString x)) = n"
  using length_decString_le [of x n] by (simp add: padTo_def)

lemma fields_at:
  fixes a b c d e f :: string
  assumes "length a = 4" "length b = 2" "length c = 2" "length d = 2" "length e = 2" "length f = 2"
  defines "s \<equiv> a @ ''-'' @ b @ ''-'' @ c @ ''T'' @ d @ '':'' @ e @ '':'' @ f @ ''Z''"
  shows "length s = 20" "take 4 s = a" "take 2 (drop 5 s) = b" "take 2 (drop 8 s) = c"
    "take 2 (drop 11 s) = d" "take 2 (drop 14 s) = e" "take 2 (drop 17 s) = f"
    "s ! 4 = CHR ''-''" "s ! 7 = CHR ''-''" "s ! 10 = CHR ''T''" "s ! 13 = CHR '':''" "s ! 16 = CHR '':''"
    "drop 19 s = ''Z''"
  using assms(1-6) by (simp_all add: s_def nth_append)

lemma monthLens_le: "1 \<le> m \<Longrightarrow> m \<le> 12 \<Longrightarrow> monthLens y ! (m - 1) \<le> 31"
proof -
  assume "1 \<le> m" "m \<le> 12"
  then have "m - 1 < length (monthLens y)" by (simp add: monthLens_def)
  moreover have "\<forall>l \<in> set (monthLens y). l \<le> 31" by (simp add: monthLens_def)
  ultimately show ?thesis using nth_mem by blast
qed

text \<open>The instants that \<open>FormatRFC3339\<close> prints with a four-digit year.\<close>

definition fourDigitYear :: "time \<Rightarrow> bool" where
  "fourDigitYear t = (fst (civil (t div second div 86400)) < 10000)"

lemma ParseRFC3339_Format:
  assumes "fourDigitYear t"
  shows "ParseRFC3339 (FormatRFC3339 t) = Some (int (t div second) * int second)"
proof -
  define secs where "secs = t div second"
  define r where "r = secs mod 86400"
  obtain y m d where c: "civil (secs div 86400) = (y, m, d)" by (metis prod_cases3)
  note cd = civil_dayNumber [OF c]
  have lims: "y < 10 ^ 4" "m < 10 ^ 2" "d < 10 ^ 2"
    using assms c cd monthLens_le [of m y] by (simp_all add: fourDigitYear_def secs_def)
  have tr: "r div 3600 < 24" "r mod 3600 div 60 < 60" "r mod 60 < 60"
    unfolding r_def by (simp_all add: less_mult_imp_div_less)
  then have tl: "r div 3600 < 10 ^ 2" "r mod 3600 div 60 < 10 ^ 2" "r mod 60 < 10 ^ 2" by simp_all
  let ?a = "padTo 4 (decString y)" and ?b = "padTo 2 (decString m)" and ?c = "padTo 2 (decString d)"
    and ?d = "padTo 2 (decString (r div 3600))" and ?e = "padTo 2 (decString (r mod 3600 div 60))"
    and ?f = "padTo 2 (decString (r mod 60))"
  define s where "s = ?a @ ''-'' @ ?b @ ''-'' @ ?c @ ''T'' @ ?d @ '':'' @ ?e @ '':'' @ ?f @ ''Z''"
  have fmt: "FormatRFC3339 t = s"
    by (simp add: FormatRFC3339_def s_def c r_def secs_def Let_def)
       (simp add: secs_def [symmetric] c)
  have len: "length ?a = 4" "length ?b = 2" "length ?c = 2" "length ?d = 2" "length ?e = 2" "length ?f = 2"
    using length_padTo [OF lims(1)] length_padTo [OF lims(2)] length_padTo [OF lims(3)]
      length_padTo [OF tl(1)] length_padTo [OF tl(2)] length_padTo [OF tl(3)] by simp_all
  note at = fields_at [OF len, folded s_def]
  have hms: "r div 3600 * 3600 + r mod 3600 div 60 * 60 + r mod 60 = r"
  proof -
    have "r mod 3600 mod 60 = r mod 60" by (rule mod_mod_cancel) simp
    then have "r mod 3600 div 60 * 60 + r mod 60 = r mod 3600"
      by (metis div_mult_mod_eq)
    then show ?thesis by (metis add.assoc div_mult_mod_eq)
  qed
  have sum: "dayNumber y m d * 86400 + r = secs" by (simp add: cd(1) r_def)
  have "ParseRFC3339 s = Some ((int (dayNumber y m d) * 86400 + int (r div 3600 * 3600 + r mod 3600 div 60 * 60 + r mod 60)) * int second)"
    unfolding ParseRFC3339_def at
    using lims cd tr by (simp add: parseUint_def parseZone_def)
  also have "int (dayNumber y m d) * 86400 + int (r div 3600 * 3600 + r mod 3600 div 60 * 60 + r mod 60) = int secs"
    unfolding hms using arg_cong [OF sum, of int] by simp
  finally show ?thesis by (simp add: fmt secs_def)
qed

lemma parseOrZero_Format:
  assumes "fourDigitYear t"
  shows "parseOrZero (FormatRFC3339 t) \<le> int t" "int t < parseOrZero (FormatRFC3339 t) + int second"
proof -
  have p: "parseOrZero (FormatRFC3339 t) = int (t div second * second)"
    by (simp add: parseOrZero_def ParseRFC3339_Format [OF assms])
  have "t div second * second + t mod second = t" by simp
  moreover have "t mod second < second" by (simp add: second_def)
  ultimately have "t div second * second \<le> t" "t < t div second * second + second" by linarith+
  then show "parseOrZero (FormatRFC3339 t) \<le> int t" "int t < parseOrZero (FormatRFC3339 t) + int second"
    unfolding p by linarith+
qed

end
