(* ===== verification/HFMount.thy ===== *)
theory HFMount
  imports Kube_Types Go_Time Naming Effects
begin

text \<open>
  The client of the HFMount custom resource (\<open>pkg/driver/hfmount.go\<close>), which is the driver's
  durable record of a mount: its arguments and the workloads attached to it.

  The API server is a parameter: the record \<open>crdApi\<close> of calls over an unknown state \<open>'w\<close>,
  every answer allowed. Where a theorem needs optimistic concurrency it assumes \<open>occ_law\<close>,
  the documented meaning of \<open>resourceVersion\<close>: an update succeeds only against the version it
  was read at, and a version names one content. \<open>NilMapWrite\<close> is the panic of a write into
  the nil map of an object that has no spec.
\<close>

section \<open>Objects and calls\<close>

record hfObj =
  objName :: string
  objNodeLabel :: string
  objVersion :: nat
  objSpec :: "(string, json) gomap option"
  objStatus :: "(string, json) gomap option"

record 'w crdApi =
  crdCreate :: "hfObj \<Rightarrow> ('w, kerr option) state"
  crdGet :: "string \<Rightarrow> ('w, kerr + hfObj) state"
  crdUpdate :: "hfObj \<Rightarrow> ('w, kerr option) state"
  crdUpdateStatus :: "hfObj \<Rightarrow> ('w, kerr option) state"
  crdDelete :: "string \<Rightarrow> ('w, kerr option) state"
  crdList :: "string \<Rightarrow> ('w, kerr + hfObj list) state"
  timeNow :: "('w, time) state"

datatype crdError = Kube kerr | RetryLimit string | NilMapWrite

section \<open>Creating and reading\<close>

record 'q hfMountSpec =
  hfNodeName :: string
  hfSourceType :: string
  hfSourceID :: string
  hfMountPodName :: string
  hfMountPath :: string
  hfMountArgs :: "string list"
  hfResources :: "'q MountResources"

definition specMap :: "'q quantityOps \<Rightarrow> 'q hfMountSpec \<Rightarrow> (string, json) gomap" where
  "specMap ops s =
     [(''nodeName'', JString (hfNodeName s)),
      (''sourceType'', JString (hfSourceType s)),
      (''sourceID'', JString (hfSourceID s)),
      (''mountPodName'', JString (hfMountPodName s)),
      (''mountPath'', JString (hfMountPath s)),
      (''mountArgs'', JList (map JString (hfMountArgs s))),
      (''workloads'', JList [])]
     @ (case ToUnstructured ops (hfResources s) of None \<Rightarrow> [] | Some res \<Rightarrow> [(''resources'', JMap res)])"

definition crd_create ::
  "'q quantityOps \<Rightarrow> 'w crdApi \<Rightarrow> string \<Rightarrow> 'q hfMountSpec \<Rightarrow> ('w, kerr option) state" where
  "crd_create ops api name s =
     crdCreate api \<lparr>objName = name, objNodeLabel = sanitizeLabelValue (hfNodeName s), objVersion = 0,
                    objSpec = Some (specMap ops s), objStatus = None\<rparr>"

definition crd_get :: "'w crdApi \<Rightarrow> string \<Rightarrow> ('w, kerr + (string, json) gomap option) state" where
  "crd_get api name =
     do { r \<leftarrow> crdGet api name;
          State_Monad.return (case r of Inl e \<Rightarrow> Inl e | Inr obj \<Rightarrow> Inr (objSpec obj)) }"

text \<open>\<open>spec[key]\<close> on a map that may be nil.\<close>

definition specAt :: "(string, json) gomap option \<Rightarrow> string \<Rightarrow> json option" where
  "specAt spec key = (case spec of None \<Rightarrow> None | Some m \<Rightarrow> map_of m key)"

definition crd_list :: "'w crdApi \<Rightarrow> string \<Rightarrow> ('w, kerr + hfObj list) state" where
  "crd_list api nodeName = crdList api (sanitizeLabelValue nodeName)"

definition crd_updateStatus :: "'w crdApi \<Rightarrow> string \<Rightarrow> string \<Rightarrow> string \<Rightarrow> ('w, kerr option) state" where
  "crd_updateStatus api name phase msg =
     do { r \<leftarrow> crdGet api name;
          case r of
            Inl e \<Rightarrow> State_Monad.return (Some e)
          | Inr obj \<Rightarrow>
              crdUpdateStatus api
                (obj\<lparr>objStatus := Some [(''phase'', JString phase), (''message'', JString msg)]\<rparr>) }"

definition crd_delete :: "'w crdApi \<Rightarrow> string \<Rightarrow> ('w, kerr option) state" where
  "crd_delete api name =
     do { e \<leftarrow> crdDelete api name;
          State_Monad.return (if e = Some NotFound then None else e) }"

section \<open>Read-modify-write\<close>

datatype mutation = Unchanged | Changed "(string, json) gomap" | NilWrite

text \<open>
  The loop of \<open>retryOnConflict\<close>: the counter \<open>c\<close> is the variable its closures set, the result
  the last value of it and the error.
\<close>

fun retryLoop ::
  "'w crdApi \<Rightarrow> string \<Rightarrow> ((string, json) gomap option \<Rightarrow> ('w, nat \<times> mutation) state) \<Rightarrow> nat \<Rightarrow> nat
    \<Rightarrow> ('w, nat \<times> crdError option) state" where
  "retryLoop api name mutate 0 c = State_Monad.return (c, Some (RetryLimit name))"
| "retryLoop api name mutate (Suc n) c =
     do { r \<leftarrow> crdGet api name;
          case r of
            Inl e \<Rightarrow> State_Monad.return (c, Some (Kube e))
          | Inr obj \<Rightarrow>
              do { cm \<leftarrow> mutate (objSpec obj);
                   case snd cm of
                     NilWrite \<Rightarrow> State_Monad.return (fst cm, Some NilMapWrite)
                   | Unchanged \<Rightarrow> State_Monad.return (fst cm, None)
                   | Changed spec \<Rightarrow>
                       do { u \<leftarrow> crdUpdate api (obj\<lparr>objSpec := Some spec\<rparr>);
                            case u of
                              None \<Rightarrow> State_Monad.return (fst cm, None)
                            | Some e \<Rightarrow>
                                if e = Conflict then retryLoop api name mutate n (fst cm)
                                else State_Monad.return (fst cm, Some (Kube e)) } } }"

definition retryOnConflict ::
  "'w crdApi \<Rightarrow> string \<Rightarrow> ((string, json) gomap option \<Rightarrow> ('w, nat \<times> mutation) state)
    \<Rightarrow> ('w, nat \<times> crdError option) state" where
  "retryOnConflict api name mutate = retryLoop api name mutate 5 0"

text \<open>\<open>spec["workloads"] = ws\<close>.\<close>

definition setWorkloads :: "(string, json) gomap option \<Rightarrow> json list \<Rightarrow> mutation" where
  "setWorkloads spec ws =
     (case spec of None \<Rightarrow> NilWrite | Some m \<Rightarrow> Changed (put_key ''workloads'' (JList ws) m))"

definition workloadsOf :: "(string, json) gomap option \<Rightarrow> json list" where
  "workloadsOf spec = asList (specAt spec ''workloads'')"

definition wField :: "json \<Rightarrow> string \<Rightarrow> json option" where
  "wField w key = map_of (asMap (Some w)) key"

definition hasTarget :: "string \<Rightarrow> json \<Rightarrow> bool" where
  "hasTarget targetPath w = (wField w ''targetPath'' = Some (JString targetPath))"

definition workloadEntry :: "string \<Rightarrow> string \<Rightarrow> time \<Rightarrow> json" where
  "workloadEntry uid targetPath now =
     JMap [(''podUID'', JString uid), (''targetPath'', JString targetPath),
           (''attachmentTime'', JString (FormatRFC3339 now))]"

definition addWorkload :: "'w crdApi \<Rightarrow> string \<Rightarrow> string \<Rightarrow> string \<Rightarrow> ('w, crdError option) state" where
  "addWorkload api name uid targetPath =
     do { r \<leftarrow> retryOnConflict api name (\<lambda>spec.
            let workloads = workloadsOf spec in
            if list_ex (hasTarget targetPath) workloads then State_Monad.return (0, Unchanged)
            else do { now \<leftarrow> timeNow api;
                      State_Monad.return (0, setWorkloads spec (workloads @ [workloadEntry uid targetPath now])) });
          State_Monad.return (snd r) }"

definition removeWorkload :: "'w crdApi \<Rightarrow> string \<Rightarrow> string \<Rightarrow> ('w, nat \<times> crdError option) state" where
  "removeWorkload api name targetPath =
     retryOnConflict api name (\<lambda>spec.
       let workloads = workloadsOf spec; remaining = filter (\<lambda>w. \<not> hasTarget targetPath w) workloads in
       State_Monad.return (length remaining,
         if length remaining = length workloads then Unchanged else setWorkloads spec remaining))"

definition isStale :: "int \<Rightarrow> int \<Rightarrow> json \<Rightarrow> bool" where
  "isStale now staleThreshold w =
     (let attachTime = parseOrZero (asString (wField w ''attachmentTime'')) in
      attachTime \<noteq> zeroTime \<and> timeSub now attachTime > staleThreshold)"

definition keepWorkload :: "(string \<Rightarrow> bool) \<Rightarrow> int \<Rightarrow> int \<Rightarrow> json \<Rightarrow> bool" where
  "keepWorkload livePodUIDs staleThreshold now w =
     (livePodUIDs (asString (wField w ''podUID'')) \<or> \<not> isStale now staleThreshold w)"

definition removeStaleWorkloads ::
  "'w crdApi \<Rightarrow> string \<Rightarrow> (string \<Rightarrow> bool) \<Rightarrow> int \<Rightarrow> ('w, nat \<times> crdError option) state" where
  "removeStaleWorkloads api name livePodUIDs staleThreshold =
     retryOnConflict api name (\<lambda>spec.
       do { now \<leftarrow> timeNow api;
            let workloads = workloadsOf spec;
                remaining = filter (keepWorkload livePodUIDs staleThreshold (int now)) workloads
            in State_Monad.return (length remaining,
                 if length remaining = length workloads then Unchanged else setWorkloads spec remaining) })"

section \<open>Every successful update applies to the current object\<close>

text \<open>
  Optimistic concurrency. \<open>view w n\<close> is the object stored under \<open>n\<close>, \<open>later\<close> the order of
  time on states of the server, in which other clients act between our calls.
\<close>

definition occ_law :: "'w crdApi \<Rightarrow> ('w \<Rightarrow> string \<Rightarrow> hfObj option) \<Rightarrow> ('w \<Rightarrow> 'w \<Rightarrow> bool) \<Rightarrow> bool" where
  "occ_law api view later \<longleftrightarrow>
     (\<forall>w. later w w) \<and> (\<forall>w w' w''. later w w' \<longrightarrow> later w' w'' \<longrightarrow> later w w'')
     \<and> (\<forall>n w obj w'. run_state (crdGet api n) w = (Inr obj, w') \<longrightarrow>
          view w n = Some obj \<and> objName obj = n \<and> later w w')
     \<and> (\<forall>w t w'. run_state (timeNow api) w = (t, w') \<longrightarrow> later w w')
     \<and> (\<forall>obj w e w'. run_state (crdUpdate api obj) w = (e, w') \<longrightarrow> later w w')
     \<and> (\<forall>obj w w'. run_state (crdUpdate api obj) w = (None, w') \<longrightarrow>
          (\<exists>cur. view w (objName obj) = Some cur \<and> objVersion cur = objVersion obj)
          \<and> (\<exists>v. view w' (objName obj) = Some (obj\<lparr>objVersion := v\<rparr>)))
     \<and> (\<forall>n w w' a b. later w w' \<longrightarrow> view w n = Some a \<longrightarrow> view w' n = Some b \<longrightarrow>
          objVersion a = objVersion b \<longrightarrow> a = b)"

lemma occ_lawD:
  assumes "occ_law api view later"
  shows "later w w' \<Longrightarrow> later w' w'' \<Longrightarrow> later w w''"
    "run_state (crdGet api n) w = (Inr obj, w') \<Longrightarrow> view w n = Some obj \<and> objName obj = n \<and> later w w'"
    "run_state (timeNow api) w = (t, w') \<Longrightarrow> later w w'"
    "run_state (crdUpdate api obj) w = (None, w') \<Longrightarrow> \<exists>cur. view w (objName obj) = Some cur \<and> objVersion cur = objVersion obj"
    "run_state (crdUpdate api obj) w = (None, w') \<Longrightarrow> \<exists>v. view w' (objName obj) = Some (obj\<lparr>objVersion := v\<rparr>)"
    "later w w' \<Longrightarrow> view w n = Some a \<Longrightarrow> view w' n = Some b \<Longrightarrow> objVersion a = objVersion b \<Longrightarrow> a = b"
    "run_state (crdUpdate api obj) w = (e, w') \<Longrightarrow> later w w'"
    "later w w"
  using assms unfolding occ_law_def by metis+

text \<open>
  What a successful loop did: between its start and its end it read an object \<open>obj\<close> that was
  stored at that time and mutated its spec; either nothing was to change, or the object was
  still the stored one when the update was accepted.
\<close>

definition committed ::
  "('w \<Rightarrow> string \<Rightarrow> hfObj option) \<Rightarrow> ('w \<Rightarrow> 'w \<Rightarrow> bool) \<Rightarrow> string
    \<Rightarrow> ((string, json) gomap option \<Rightarrow> ('w, nat \<times> mutation) state) \<Rightarrow> 'w \<Rightarrow> nat \<Rightarrow> 'w \<Rightarrow> hfObj \<Rightarrow> bool" where
  "committed view later name mutate w c w' obj \<longleftrightarrow>
     (\<exists>wr wa wb mu. later w wr \<and> later wr wa \<and> view wr name = Some obj
        \<and> run_state (mutate (objSpec obj)) wa = ((c, mu), wb)
        \<and> (mu = Unchanged \<and> w' = wb
           \<or> (\<exists>spec v. mu = Changed spec \<and> later wr wb \<and> view wb name = Some obj
                \<and> view w' name = Some (obj\<lparr>objSpec := Some spec, objVersion := v\<rparr>))))"

lemma committed_mono:
  assumes "occ_law api view later" "later w0 w" "committed view later name mutate w c w' obj"
  shows "committed view later name mutate w0 c w' obj"
proof -
  have "later w wr \<Longrightarrow> later w0 wr" for wr using occ_lawD(1) [OF assms(1,2)] .
  with assms(3) show ?thesis unfolding committed_def by blast
qed

lemma retryLoop_committed:
  assumes "occ_law api view later"
    and mono: "\<forall>spec w r w'. run_state (mutate spec) w = (r, w') \<longrightarrow> later w w'"
    and "run_state (retryLoop api name mutate n c) w = ((c', None), w')"
  shows "\<exists>obj. committed view later name mutate w c' w' obj"
  using assms(3)
proof (induction n arbitrary: c w)
  case (Suc n)
  note law = occ_lawD [OF assms(1)]
  obtain r wa where g: "run_state (crdGet api name) w = (r, wa)" by (metis surj_pair)
  with Suc.prems obtain obj where r: "r = Inr obj" by (cases r) (auto simp: run_bind)
  note read = law(2) [OF g [unfolded r]]
  obtain k mu wb where m: "run_state (mutate (objSpec obj)) wa = ((k, mu), wb)" by (metis surj_pair)
  then have lt: "later wa wb" "later w wb" using mono read law(1) by blast+
  show ?case
  proof (cases mu)
    case Unchanged
    with Suc.prems g r m have "c' = k" "w' = wb" by (simp_all add: run_bind)
    with Unchanged m read law(8) show ?thesis unfolding committed_def by blast
  next
    case (Changed spec)
    obtain u wc where u: "run_state (crdUpdate api (obj\<lparr>objSpec := Some spec\<rparr>)) wb = (u, wc)" by (metis surj_pair)
    show ?thesis
    proof (cases u)
      case None
      with Suc.prems g r m Changed u have eq: "c' = k" "w' = wc" by (simp_all add: run_bind)
      obtain cur where cur: "view wb name = Some cur" "objVersion cur = objVersion obj"
        using law(4) [OF u [unfolded None]] read by auto
      then have "cur = obj" using law(6) [OF lt(2) conjunct1 [OF read] cur(1)] by simp
      moreover obtain v where "view wc name = Some (obj\<lparr>objSpec := Some spec, objVersion := v\<rparr>)"
        using law(5) [OF u [unfolded None]] read by auto
      ultimately show ?thesis
        using Changed m read lt law(8) cur(1) eq unfolding committed_def by blast
    next
      case (Some e)
      with Suc.prems g r m Changed u have "run_state (retryLoop api name mutate n k) wc = ((c', None), w')"
        by (auto simp: run_bind split: if_splits)
      moreover have "later w wc" using lt(2) law(7) [OF u] law(1) by blast
      ultimately show ?thesis using Suc.IH committed_mono [OF assms(1)] by blast
    qed
  next
    case NilWrite
    with Suc.prems g r m show ?thesis by (simp add: run_bind)
  qed
qed simp


text \<open>
  Stale attachments: when the cleaner reports success with a count, then either it found
  nothing to remove or the update replaced, atomically, the workloads by exactly those that it
  must keep, in order: every entry whose pod is alive, whose attachment is not older than the
  threshold, or whose time cannot be read. The count is the number of entries kept.
\<close>

theorem removeStaleWorkloads_exact:
  assumes "occ_law api view later"
    "run_state (removeStaleWorkloads api name live thr) w = ((count, None), w')"
  shows "\<exists>obj now. count = length (filter (keepWorkload live thr (int now)) (workloadsOf (objSpec obj)))
     \<and> ((\<exists>wr. later w wr \<and> later wr w' \<and> view wr name = Some obj
          \<and> list_all (keepWorkload live thr (int now)) (workloadsOf (objSpec obj)))
        \<or> (\<exists>wb m v. later w wb \<and> view wb name = Some obj \<and> objSpec obj = Some m
             \<and> view w' name = Some (obj\<lparr>objSpec := Some (put_key ''workloads''
                  (JList (filter (keepWorkload live thr (int now)) (workloadsOf (objSpec obj)))) m), objVersion := v\<rparr>)))"
proof -
  define mutate where "mutate = (\<lambda>spec. do { now \<leftarrow> timeNow api;
       let workloads = workloadsOf spec; remaining = filter (keepWorkload live thr (int now)) workloads
       in State_Monad.return (length remaining,
            if length remaining = length workloads then Unchanged else setWorkloads spec remaining) })"
  note law = occ_lawD [OF assms(1)]
  have run: "run_state (retryLoop api name mutate 5 0) w = ((count, None), w')"
    using assms(2) unfolding removeStaleWorkloads_def retryOnConflict_def mutate_def .
  have mono: "\<forall>spec w r w'. run_state (mutate spec) w = (r, w') \<longrightarrow> later w w'"
    by (auto simp: mutate_def Let_def run_bind split: if_splits prod.splits intro: law(8) dest: law(3))
  obtain obj wr wa wb mu where *: "later w wr" "later wr wa" "view wr name = Some obj"
      "run_state (mutate (objSpec obj)) wa = ((count, mu), wb)"
      "mu = Unchanged \<and> w' = wb
       \<or> (\<exists>spec v. mu = Changed spec \<and> later wr wb \<and> view wb name = Some obj
            \<and> view w' name = Some (obj\<lparr>objSpec := Some spec, objVersion := v\<rparr>))"
    using retryLoop_committed [OF assms(1) mono run] unfolding committed_def by blast
  let ?keep = "\<lambda>now. filter (keepWorkload live thr (int now)) (workloadsOf (objSpec obj))"
  obtain now where now: "count = length (?keep now)"
      "mu = (if count = length (workloadsOf (objSpec obj)) then Unchanged else setWorkloads (objSpec obj) (?keep now))"
    using *(4) by (auto simp: mutate_def Let_def run_bind split: prod.splits)
  show ?thesis
  proof (cases "count = length (workloadsOf (objSpec obj))")
    case True
    with now have "list_all (keepWorkload live thr (int now)) (workloadsOf (objSpec obj))"
      by (metis filter_id_conv list_all_iff length_filter_less not_less_iff_gr_or_eq)
    moreover have "later wr w'" using now(2) *(5) True mono *(4) *(2) law(1) by fastforce
    ultimately show ?thesis using now(1) *(1,3) by blast
  next
    case False
    with now(2) *(5) obtain m v where "objSpec obj = Some m" "view wb name = Some obj" "later wr wb"
        "view w' name = Some (obj\<lparr>objSpec := Some (put_key ''workloads'' (JList (?keep now)) m), objVersion := v\<rparr>)"
      by (auto simp: setWorkloads_def split: option.splits)
    then show ?thesis using now(1) *(1) law(1) by blast
  qed
qed

section \<open>Age of an attachment\<close>

lemma wField_entry:
  "wField (workloadEntry uid tgt now) ''targetPath'' = Some (JString tgt)"
  "wField (workloadEntry uid tgt now) ''podUID'' = Some (JString uid)"
  "wField (workloadEntry uid tgt now) ''attachmentTime'' = Some (JString (FormatRFC3339 now))"
  by (simp_all add: wField_def workloadEntry_def)

text \<open>
  The staleness threshold works to the second: an attachment registered at \<open>t\<close> is kept by
  a cleaner running at \<open>now\<close> when at most the threshold less one second has passed, so the
  cleaner cannot race a mount that is still being set up; an attachment of a dead pod that is
  older than the threshold is removed.
\<close>

theorem fresh_workload_kept:
  assumes "fourDigitYear t" "t \<le> now" "thr < 2 ^ 63 - 1"
  shows "(int now - int t \<le> thr - int second \<longrightarrow> keepWorkload live thr (int now) (workloadEntry uid tgt t))
    \<and> (thr < int now - int t \<longrightarrow> \<not> live uid \<longrightarrow> parseOrZero (FormatRFC3339 t) \<noteq> zeroTime \<longrightarrow>
         \<not> keepWorkload live thr (int now) (workloadEntry uid tgt t))"
proof -
  define a where "a = parseOrZero (FormatRFC3339 t)"
  have "a \<le> int t" "int t < a + int second" using parseOrZero_Format [OF assms(1)] by (simp_all add: a_def)
  then have "timeSub (int now) a \<le> thr" if "int now - int t \<le> thr - int second"
    using that assms(2,3) by (auto simp: timeSub_def)
  moreover have "thr < timeSub (int now) a" if "thr < int now - int t"
    using that assms(3) \<open>a \<le> int t\<close> by (auto simp: timeSub_def)
  ultimately show ?thesis
    by (auto simp: keepWorkload_def isStale_def wField_entry a_def Let_def)
qed

section \<open>The register of attachments\<close>

text \<open>
  What the rest of the driver relies on: a register of targets that \<open>add\<close> and \<open>remove\<close>
  change one target at a time.
\<close>

locale workload_register =
  fixes add :: "'t \<Rightarrow> 'e \<Rightarrow> 's \<Rightarrow> 's"
    and remove :: "'t \<Rightarrow> 's \<Rightarrow> 's"
    and targets :: "'s \<Rightarrow> 't list"
  assumes targets_add: "targets (add t e s) = (if t \<in> set (targets s) then targets s else targets s @ [t])"
    and targets_remove: "targets (remove t s) = filter (\<lambda>u. u \<noteq> t) (targets s)"
begin

lemma mem_op:
  "t \<in> set (targets (case o1 of None \<Rightarrow> remove u s | Some e \<Rightarrow> add u e s)) \<longleftrightarrow>
     (if u = t then o1 \<noteq> None else t \<in> set (targets s))"
  by (auto simp: targets_add targets_remove split: option.splits)

lemma distinct_op:
  "distinct (targets s) \<Longrightarrow> distinct (targets (case o1 of None \<Rightarrow> remove u s | Some e \<Rightarrow> add u e s))"
  by (auto simp: targets_add targets_remove split: option.splits)

lemma distinct_run:
  "distinct (targets s) \<Longrightarrow>
     distinct (targets (foldl (\<lambda>s op. case snd op of None \<Rightarrow> remove (fst op) s | Some e \<Rightarrow> add (fst op) e s) s ops))"
  by (induction ops arbitrary: s) (simp_all add: distinct_op)

lemma mem_run:
  "t \<in> set (targets (foldl (\<lambda>s op. case snd op of None \<Rightarrow> remove (fst op) s | Some e \<Rightarrow> add (fst op) e s) s ops)) \<longleftrightarrow>
     (case find (\<lambda>op. fst op = t) (rev ops) of None \<Rightarrow> t \<in> set (targets s) | Some op \<Rightarrow> snd op \<noteq> None)"
  by (induction ops rule: rev_induct) (simp_all add: mem_op)

end

definition addEntry :: "string \<Rightarrow> string \<times> time \<Rightarrow> json list \<Rightarrow> json list" where
  "addEntry tgt e ws =
     (if list_ex (hasTarget tgt) ws then ws else ws @ [workloadEntry (fst e) tgt (snd e)])"

definition removeEntry :: "string \<Rightarrow> json list \<Rightarrow> json list" where
  "removeEntry tgt ws = filter (\<lambda>w. \<not> hasTarget tgt w) ws"

definition targetOf :: "json \<Rightarrow> string option" where
  "targetOf w = (case wField w ''targetPath'' of Some (JString t) \<Rightarrow> Some t | _ \<Rightarrow> None)"

definition targetsOf :: "json list \<Rightarrow> string list" where
  "targetsOf ws = List.map_filter targetOf ws"

lemma hasTarget_iff: "hasTarget t w \<longleftrightarrow> targetOf w = Some t"
  by (auto simp: hasTarget_def targetOf_def split: option.splits json.splits)

lemma targetsOf_simps [simp]:
  "targetsOf [] = []"
  "targetsOf (w # ws) = (case targetOf w of None \<Rightarrow> targetsOf ws | Some t \<Rightarrow> t # targetsOf ws)"
  by (auto simp: targetsOf_def List.map_filter_def split: option.splits)

lemma targetsOf_append [simp]: "targetsOf (ws @ vs) = targetsOf ws @ targetsOf vs"
  by (induction ws) (auto split: option.splits)

lemma mem_targetsOf: "t \<in> set (targetsOf ws) \<longleftrightarrow> list_ex (hasTarget t) ws"
  by (induction ws) (auto simp: hasTarget_iff split: option.splits)

lemma targetOf_entry [simp]: "targetOf (workloadEntry uid t now) = Some t"
  by (simp add: targetOf_def wField_entry)

lemma targetsOf_remove: "targetsOf (removeEntry t ws) = filter (\<lambda>u. u \<noteq> t) (targetsOf ws)"
  by (induction ws) (auto simp: removeEntry_def hasTarget_iff split: option.splits)

interpretation wr: workload_register addEntry removeEntry targetsOf
  by unfold_locales (simp_all add: addEntry_def mem_targetsOf targetsOf_remove)

text \<open>A sequence of attachments (\<open>Some\<close>) and detachments (\<open>None\<close>) of targets.\<close>

definition registerRun :: "(string \<times> (string \<times> time) option) list \<Rightarrow> json list \<Rightarrow> json list" where
  "registerRun ops ws =
     foldl (\<lambda>s op. case snd op of None \<Rightarrow> removeEntry (fst op) s | Some e \<Rightarrow> addEntry (fst op) e s) ws ops"

text \<open>The closures of \<open>addWorkload\<close> and \<open>removeWorkload\<close> are these two operations.\<close>

lemma addWorkload_mutation:
  "(if list_ex (hasTarget tgt) (workloadsOf spec) then workloadsOf spec
    else workloadsOf spec @ [workloadEntry uid tgt now]) = addEntry tgt (uid, now) (workloadsOf spec)"
  by (simp add: addEntry_def)

text \<open>
  The workload list is a register of targets: starting from the empty list of a new CRD,
  after any sequence of attachments and detachments no target is listed twice, and a target is
  listed exactly when the last operation on it was an attachment.
\<close>

theorem workload_register_correct:
  "distinct (targetsOf (registerRun ops []))
   \<and> (tgt \<in> set (targetsOf (registerRun ops [])) \<longleftrightarrow>
       (case find (\<lambda>op. fst op = tgt) (rev ops) of None \<Rightarrow> False | Some op \<Rightarrow> snd op \<noteq> None))"
  using wr.distinct_run [of "[]" ops] wr.mem_run [of tgt "[]" ops]
  by (simp add: registerRun_def split: option.splits)

section \<open>Instances\<close>

text \<open>A server that keeps the history of one object, newest first; the version is the length
  of the history.\<close>

definition sampleView :: "hfObj list \<Rightarrow> string \<Rightarrow> hfObj option" where
  "sampleView w n = (case w of [] \<Rightarrow> None | o1 # _ \<Rightarrow> if objName o1 = n then Some (o1\<lparr>objVersion := length w\<rparr>) else None)"

definition sampleCrd :: "hfObj list crdApi" where
  "sampleCrd =
     \<lparr>crdCreate = (\<lambda>obj. State (\<lambda>w. (None, obj # w))),
      crdGet = (\<lambda>n. State (\<lambda>w. (case sampleView w n of None \<Rightarrow> Inl NotFound | Some obj \<Rightarrow> Inr obj, w))),
      crdUpdate = (\<lambda>obj. State (\<lambda>w. case sampleView w (objName obj) of
          None \<Rightarrow> (Some NotFound, w)
        | Some cur \<Rightarrow> if objVersion cur = objVersion obj then (None, obj # w) else (Some Conflict, w))),
      crdUpdateStatus = (\<lambda>obj. State (\<lambda>w. (None, obj # w))),
      crdDelete = (\<lambda>n. State (\<lambda>w. (None, []))),
      crdList = (\<lambda>l. State (\<lambda>w. (Inr w, w))),
      timeNow = State (\<lambda>w. (0, w))\<rparr>"

lemma sampleCrd_occ: "occ_law sampleCrd sampleView (\<lambda>w w'. suffix w w')"
  unfolding occ_law_def
proof (intro conjI allI impI)
  fix w w' w'' :: "hfObj list" and n obj t a b e
  show "suffix w w' \<Longrightarrow> suffix w' w'' \<Longrightarrow> suffix w w''" by (rule suffix_order.trans)
  show "run_state (crdGet sampleCrd n) w = (Inr obj, w') \<Longrightarrow> sampleView w n = Some obj" "run_state (crdGet sampleCrd n) w = (Inr obj, w') \<Longrightarrow> objName obj = n"
    "run_state (crdGet sampleCrd n) w = (Inr obj, w') \<Longrightarrow> suffix w w'"
    by (auto simp: sampleCrd_def sampleView_def split: option.splits list.splits if_splits)
  show "suffix w w" by simp
  show "run_state (crdUpdate sampleCrd obj) w = (e, w') \<Longrightarrow> suffix w w'"
    by (auto simp: sampleCrd_def suffix_def split: option.splits if_splits)
  show "run_state (timeNow sampleCrd) w = (t, w') \<Longrightarrow> suffix w w'" by (simp add: sampleCrd_def)
  show "run_state (crdUpdate sampleCrd obj) w = (None, w') \<Longrightarrow>
      \<exists>cur. sampleView w (objName obj) = Some cur \<and> objVersion cur = objVersion obj"
    "run_state (crdUpdate sampleCrd obj) w = (None, w') \<Longrightarrow>
      \<exists>v. sampleView w' (objName obj) = Some (obj\<lparr>objVersion := v\<rparr>)"
    by (auto simp: sampleCrd_def sampleView_def split: option.splits list.splits if_splits)
  assume "suffix w w'" "sampleView w n = Some a" "sampleView w' n = Some b" "objVersion a = objVersion b"
  moreover from this have "length w = length w'" by (auto simp: sampleView_def split: list.splits if_splits)
  ultimately show "a = b" by (auto simp: suffix_def)
qed

definition sampleObj :: hfObj where
  "sampleObj = \<lparr>objName = ''hfm-1'', objNodeLabel = ''n'', objVersion = 0,
     objSpec = Some [(''workloads'', JList [])], objStatus = None\<rparr>"

lemmas sampleCrd_simps = sampleCrd_def sampleView_def sampleObj_def run_bind retryOnConflict_def
  workloadsOf_def specAt_def setWorkloads_def numeral_eq_Suc


theorem removeStaleWorkloads_exact_witness:
  "\<exists>count obj now. fst (run_state (removeStaleWorkloads sampleCrd ''hfm-1'' (\<lambda>_. False) 120) [sampleObj]) = (count, None)
     \<and> count = length (filter (keepWorkload (\<lambda>_. False) 120 (int now)) (workloadsOf (objSpec obj)))
     \<and> (\<exists>wr. sampleView wr ''hfm-1'' = Some obj)"
proof -
  obtain w' where r: "run_state (removeStaleWorkloads sampleCrd ''hfm-1'' (\<lambda>_. False) 120) [sampleObj] = ((0, None), w')"
    by (simp add: removeStaleWorkloads_def sampleCrd_simps)
  then have "fst (run_state (removeStaleWorkloads sampleCrd ''hfm-1'' (\<lambda>_. False) 120) [sampleObj]) = (0, None)"
    by simp
  with removeStaleWorkloads_exact [OF sampleCrd_occ r] show ?thesis by blast
qed

lemma civil_0: "civil 0 = (0, 1, 1)"
  by (simp add: civil_def yearDay.simps yearLen_def monthLens_def)

theorem fresh_workload_kept_witness:
  "keepWorkload (\<lambda>_. False) (120 * int second) (int (60 * second)) (workloadEntry ''u'' ''/t'' 0)"
proof -
  have "fourDigitYear 0" by (simp add: fourDigitYear_def civil_0)
  from fresh_workload_kept [OF this, of "60 * second" "120 * int second" "\<lambda>_. False" "''u''" "''/t''"]
  show ?thesis by (simp add: second_def)
qed

end
