(* ===== verification/Pod_Mounter.thy ===== *)
theory Pod_Mounter
  imports HFMount Mount_Args Mountinfo Effects
begin

text \<open>
  The mounter that delegates FUSE mounts to pods (\<open>pkg/driver/podmounter.go\<close>): mount, unmount,
  health check, the readiness waits and the mount pod.

  Everything outside the program is the record \<open>env\<close> of calls over an unknown state \<open>'w\<close>:
  the API server, the kernel's mount table and the file system, with every answer allowed. The
  state of the mounter is its \<open>binds\<close> map; beside it the model keeps the state of the outside
  and a log of the calls made, so that theorems speak about the order of effects on every path.
  Operations on one source are serialised by the source lock, whose mutual exclusion is proved
  in \<open>Source_Locks\<close>; acquiring and releasing it is logged.

  Every wait polls until its timer fires; \<open>ticks\<close> is the number of polls the timer leaves,
  chosen by the outside, so a wait always ends and every length of it is covered. The context
  of these waits is \<open>context.TODO()\<close>, which is never cancelled.
\<close>

section \<open>The outside\<close>

record 'q mountPod = "'q pod" +
  mpHostNetwork :: bool
  mpRestartPolicy :: string
  mpNodeAffinity :: "string list"
  mpServiceAccountName :: string
  mpImagePullSecrets :: "string list"
  mpTolerationOperators :: "string list"

record ('w, 'q) env =
  crd :: "'w crdApi"
  podCreate :: "'q mountPod \<Rightarrow> ('w, kerr option) state"
  podGet :: "string \<Rightarrow> ('w, kerr + 'q pod) state"
  podDelete :: "string \<Rightarrow> ('w, kerr option) state"
  podList :: "string \<Rightarrow> ('w, kerr + 'q pod list) state"
  nodePodList :: "string \<Rightarrow> ('w, kerr + 'q pod list) state"
  isMountPoint :: "string \<Rightarrow> ('w, bool \<times> oserr option) state"
  isCorruptedMnt :: "oserr \<Rightarrow> bool"
  getMountRefs :: "string \<Rightarrow> ('w, oserr + string list) state"
  fuseUnmount :: "string \<Rightarrow> ('w, oserr option) state"
  bindMount :: "string \<Rightarrow> string \<Rightarrow> ('w, oserr option) state"
  mkdirAll :: "string \<Rightarrow> ('w, oserr option) state"
  removePath :: "string \<Rightarrow> ('w, oserr option) state"
  statPath :: "string \<Rightarrow> ('w, oserr option) state"
  readDirEntries :: "string \<Rightarrow> ('w, oserr + (string \<times> bool) list) state"
  selfMountinfo :: "('w, (string \<times> bool) option) state"
  ticks :: "('w, nat) state"

datatype task = HealSource string | RebindTargets string | CleanupSource string | LateAdopt string

text \<open>The calls that change something outside, with their results, goroutines started, and the
  answers the cleanup decides on: mount references, live pods of the node and mount pods.\<close>

datatype event =
    LockSource string
  | UnlockSource string
  | CrdCreate string "kerr option"
  | AddWorkload string string string "crdError option"
  | RemoveWorkload string string
  | UpdateStatus string string
  | CrdDelete string
  | PodCreate string "kerr option"
  | PodDelete string
  | Unmounted string "oserr option"
  | Bound string string "oserr option"
  | MkdirAll string
  | Removed string "oserr option"
  | Spawn task
  | RefsRead string "string list option"
  | LivePodsRead "string list option"
  | MountPodsRead "(string \<times> bool) list option"
  | StaleRemoved string "nat option"

type_synonym 'w pm = "((string, string) gomap, 'w, event) sys"

abbreviation binds :: "'w pm \<Rightarrow> (string, string) gomap" where
  "binds \<equiv> vars"

record 'q pmConfig =
  quantityOps :: "'q quantityOps"
  defaults :: "'q resourceDefaults"
  namespace :: string
  nodeID :: string
  image :: string
  imagePullPolicy :: string
  imagePullSecrets :: "string list"
  serviceAccount :: string
  cacheDir :: string
  hostNetwork :: bool

section \<open>Mounts\<close>

fun unmountLoop :: "('w, 'q) env \<Rightarrow> string \<Rightarrow> nat \<Rightarrow> ('w pm, unit) state" where
  "unmountLoop env path 0 = State_Monad.return ()"
| "unmountLoop env path (Suc n) =
     do { e \<leftarrow> call (fuseUnmount env path) (Unmounted path);
          case e of Some _ \<Rightarrow> State_Monad.return () | None \<Rightarrow> unmountLoop env path n }"

definition unmountAll :: "('w, 'q) env \<Rightarrow> string \<Rightarrow> ('w pm, unit) state" where
  "unmountAll env path = unmountLoop env path 32"

definition stackBind :: "('w, 'q) env \<Rightarrow> string \<Rightarrow> string \<Rightarrow> ('w pm, oserr option) state" where
  "stackBind env src tgt =
     do { _ \<leftarrow> call (mkdirAll env tgt) (\<lambda>_. MkdirAll tgt);
          e \<leftarrow> call (bindMount env src tgt) (Bound src tgt);
          case e of
            None \<Rightarrow> State_Monad.return None
          | Some _ \<Rightarrow>
              do { unmountAll env tgt;
                   e2 \<leftarrow> call (mkdirAll env tgt) (\<lambda>_. MkdirAll tgt);
                   if e2 \<noteq> None \<and> e2 \<noteq> Some EEXIST then State_Monad.return e2
                   else call (bindMount env src tgt) (Bound src tgt) } }"

section \<open>Waits\<close>

definition isPodTerminal :: "('q, 'x) pod_scheme \<Rightarrow> bool" where
  "isPodTerminal pod = (podStatusPhase pod = PodFailed \<or> podStatusPhase pod = PodSucceeded)"

text \<open>The sum of the restart counts in \<open>int32\<close>: it wraps around.\<close>

definition totalRestartCount :: "('q, 'x) pod_scheme \<Rightarrow> int32" where
  "totalRestartCount pod = foldl (\<lambda>total cs. total + csRestartCount cs) 0 (podContainerStatuses pod)"

definition crashLoopRestartThreshold :: int32 where
  "crashLoopRestartThreshold = 2"

datatype waitErr = TimedOut | Terminal podPhase | PodGone | KeepsCrashing

fun waitForPodRunning :: "('w, 'q) env \<Rightarrow> string \<Rightarrow> nat \<Rightarrow> ('w pm, waitErr option) state" where
  "waitForPodRunning env name n =
     do { r \<leftarrow> ask (podGet env name);
          let phase = (case r of Inl _ \<Rightarrow> PodUnknown | Inr pod \<Rightarrow> podStatusPhase pod) in
          if phase = PodRunning then State_Monad.return None
          else if phase = PodFailed \<or> phase = PodSucceeded then State_Monad.return (Some (Terminal phase))
          else case n of
              0 \<Rightarrow> State_Monad.return (Some TimedOut)
            | Suc k \<Rightarrow> waitForPodRunning env name k }"

fun waitForMount :: "('w, 'q) env \<Rightarrow> string \<Rightarrow> string \<Rightarrow> nat \<Rightarrow> ('w pm, waitErr option) state" where
  "waitForMount env path name n =
     do { mp \<leftarrow> ask (isMountPoint env path);
          if snd mp = None \<and> fst mp then State_Monad.return None
          else
            do { r \<leftarrow> ask (podGet env name);
                 let failure =
                   (case r of
                      Inl e \<Rightarrow> if e = NotFound then Some PodGone else None
                    | Inr pod \<Rightarrow>
                        if isPodTerminal pod then Some (Terminal (podStatusPhase pod))
                        else if sint crashLoopRestartThreshold \<le> sint (totalRestartCount pod) then Some KeepsCrashing
                        else None)
                 in if failure \<noteq> None then State_Monad.return failure
                    else case n of
                        0 \<Rightarrow> State_Monad.return (Some TimedOut)
                      | Suc k \<Rightarrow> waitForMount env path name k } }"

declare waitForPodRunning.simps [simp del] waitForMount.simps [simp del]

text \<open>The result says whether the pod is gone.\<close>

fun waitForPodDeletion :: "('w, 'q) env \<Rightarrow> string \<Rightarrow> nat \<Rightarrow> ('w pm, bool) state" where
  "waitForPodDeletion env name 0 = State_Monad.return False"
| "waitForPodDeletion env name (Suc k) =
     do { r \<leftarrow> ask (podGet env name);
          if r = Inl NotFound then State_Monad.return True else waitForPodDeletion env name k }"

fun pollUntilMounted :: "('w, 'q) env \<Rightarrow> string \<Rightarrow> nat \<Rightarrow> ('w pm, bool) state" where
  "pollUntilMounted env path 0 = do { mp \<leftarrow> ask (isMountPoint env path); State_Monad.return (fst mp) }"
| "pollUntilMounted env path (Suc k) =
     do { mp \<leftarrow> ask (isMountPoint env path);
          if snd mp = None \<and> fst mp then State_Monad.return True else pollUntilMounted env path k }"

section \<open>The mount pod\<close>

definition labelApp :: string where
  "labelApp = ''hf.csi.huggingface.co/app''"

definition labelAppValue :: string where
  "labelAppValue = ''hf-mount''"

definition labelVolumeID :: string where
  "labelVolumeID = ''hf.csi.huggingface.co/volume-id''"

definition labelNode :: string where
  "labelNode = ''hf.csi.huggingface.co/node''"

definition annotSourceType :: string where
  "annotSourceType = ''hf.csi.huggingface.co/source-type''"

definition annotSourceID :: string where
  "annotSourceID = ''hf.csi.huggingface.co/source-id''"

definition annotMountPath :: string where
  "annotMountPath = ''hf.csi.huggingface.co/mount-path''"

definition mountContainer ::
  "'q pmConfig \<Rightarrow> string \<Rightarrow> string \<Rightarrow> string \<Rightarrow> string \<Rightarrow> string list \<Rightarrow> 'q MountResources \<Rightarrow> 'q container" where
  "mountContainer cfg volumeID sourceType sourceID mountPath args res =
     \<lparr>cName = ''hf-mount'',
      cImage = image cfg,
      cImagePullPolicy = imagePullPolicy cfg,
      cRestartPolicy = None,
      cCommand = [''hf-mount-fuse''],
      cArgs = args,
      cEnv =
        [\<lparr>envName = ''HF_CSI_SOURCE_TYPE'', envValue = sourceType\<rparr>,
         \<lparr>envName = ''HF_CSI_SOURCE_ID'', envValue = sourceID\<rparr>,
         \<lparr>envName = ''HF_CSI_VOLUME_ID'', envValue = volumeID\<rparr>,
         \<lparr>envName = ''HF_CSI_NODE'', envValue = nodeID cfg\<rparr>,
         \<lparr>envName = ''HF_CSI_MOUNT_PATH'', envValue = mountPath\<rparr>],
      cSecurityContext = Some
        \<lparr>scPrivileged = Some True, scRunAsNonRoot = None, scRunAsUser = None, scRunAsGroup = None,
         scReadOnlyRootFilesystem = None, scAllowPrivilegeEscalation = None, scCapabilitiesDrop = [],
         scSeccompProfile = None\<rparr>,
      cVolumeMounts =
        [\<lparr>vmName = ''mnt-dir'', vmMountPath = ''/mnt/hf'', vmMountPropagation = Some ''Bidirectional''\<rparr>,
         \<lparr>vmName = ''cache-dir'', vmMountPath = cacheDir cfg, vmMountPropagation = None\<rparr>],
      cStartupProbe = None,
      cResources = BuildResourceRequirements (quantityOps cfg) res (DefaultMountCPURequest (defaults cfg))
        (DefaultMemoryRequestFor (defaults cfg) (ReadOnlyFromArgs args))\<rparr>"

definition buildMountPod ::
  "'q pmConfig \<Rightarrow> string \<Rightarrow> string \<Rightarrow> string \<Rightarrow> string \<Rightarrow> string \<Rightarrow> string list \<Rightarrow> 'q MountResources \<Rightarrow> 'q mountPod" where
  "buildMountPod cfg name volumeID sourceType sourceID mountPath args res =
     \<lparr>podName = name,
      podNamespace = namespace cfg,
      podUID = [],
      podLabels =
        [labelApp \<mapsto> labelAppValue, labelVolumeID \<mapsto> sanitizeLabelValue volumeID,
         labelNode \<mapsto> sanitizeLabelValue (nodeID cfg)],
      podAnnotations =
        [annotSourceType \<mapsto> sourceType, annotSourceID \<mapsto> sourceID, annotMountPath \<mapsto> mountPath],
      podDeletionTimestamp = False,
      podVolumes =
        [hostPathVolume ''mnt-dir'' mountBaseDir ''DirectoryOrCreate'',
         hostPathVolume ''cache-dir'' (cacheDir cfg) ''DirectoryOrCreate''],
      podInitContainers = [],
      podContainers = [mountContainer cfg volumeID sourceType sourceID mountPath args res],
      podTerminationGracePeriodSeconds = Some 3600,
      podStatusPhase = PodPending,
      podContainerStatuses = [],
      mpHostNetwork = hostNetwork cfg,
      mpRestartPolicy = ''OnFailure'',
      mpNodeAffinity = [nodeID cfg],
      mpServiceAccountName = serviceAccount cfg,
      mpImagePullSecrets = imagePullSecrets cfg,
      mpTolerationOperators = [''Exists'']\<rparr>"

section \<open>Mount\<close>

datatype mountErr =
    BadArgs argsError
  | CrdCreateFailed kerr
  | CrdPanic
  | GetExistingFailed kerr
  | StalePodNotDeleted
  | RecreateFailed kerr
  | CreateFailed kerr
  | NotRunning waitErr
  | NotMounted waitErr
  | BindFailed oserr

text \<open>\<open>cleanupPod\<close> and \<open>cleanupCRD\<close>, the variables of the deferred cleanup.\<close>

type_synonym cleanup = "bool \<times> bool"

text \<open>Creating the pod, or taking over or replacing an existing one: \<open>Inr createdPod\<close>.\<close>

definition ensurePod ::
  "('w, 'q) env \<Rightarrow> string \<Rightarrow> 'q mountPod \<Rightarrow> ('w pm, mountErr \<times> cleanup + bool) state" where
  "ensurePod env name pod =
     do { e \<leftarrow> call (podCreate env pod) (PodCreate name);
          case e of
            None \<Rightarrow> State_Monad.return (Inr True)
          | Some err \<Rightarrow>
              if err = AlreadyExists then
                do { r \<leftarrow> ask (podGet env name);
                     case r of
                       Inl getErr \<Rightarrow> State_Monad.return (Inl (GetExistingFailed getErr, False, False))
                     | Inr existing \<Rightarrow>
                         if podDeletionTimestamp existing \<or> isPodTerminal existing then
                           do { (if \<not> podDeletionTimestamp existing
                                 then do { _ \<leftarrow> call (podDelete env name) (\<lambda>_. PodDelete name); State_Monad.return () }
                                 else State_Monad.return ());
                                n \<leftarrow> ask (ticks env);
                                gone \<leftarrow> waitForPodDeletion env name n;
                                if \<not> gone then State_Monad.return (Inl (StalePodNotDeleted, False, False))
                                else do { e2 \<leftarrow> call (podCreate env pod) (PodCreate name);
                                          case e2 of
                                            Some err2 \<Rightarrow> State_Monad.return (Inl (RecreateFailed err2, False, False))
                                          | None \<Rightarrow> State_Monad.return (Inr True) } }
                         else State_Monad.return (Inr False) }
              else State_Monad.return (Inl (CreateFailed err, False, True)) }"

text \<open>What a failed wait leaves to the cleanup: a pure timeout keeps pod and CRD.\<close>

definition afterWait :: "waitErr \<Rightarrow> bool \<Rightarrow> cleanup" where
  "afterWait we createdPod = (if we = TimedOut then (False, False) else (True, createdPod))"

definition mountBody ::
  "('w, 'q) env \<Rightarrow> 'q mountPod \<Rightarrow> string \<Rightarrow> string \<Rightarrow> string \<Rightarrow> string \<Rightarrow> ('w pm, mountErr option \<times> cleanup) state" where
  "mountBody env pod name crdName mountPath tgt =
     do { ep \<leftarrow> ensurePod env name pod;
          case ep of
            Inl (err, cl) \<Rightarrow> State_Monad.return (Some err, cl)
          | Inr createdPod \<Rightarrow>
              do { n1 \<leftarrow> ask (ticks env);
                   w1 \<leftarrow> waitForPodRunning env name n1;
                   case w1 of
                     Some we \<Rightarrow> State_Monad.return (Some (NotRunning we), afterWait we createdPod)
                   | None \<Rightarrow>
                       do { n2 \<leftarrow> ask (ticks env);
                            w2 \<leftarrow> waitForMount env mountPath name n2;
                            case w2 of
                              Some we \<Rightarrow> State_Monad.return (Some (NotMounted we), afterWait we createdPod)
                            | None \<Rightarrow>
                                do { be \<leftarrow> stackBind env mountPath tgt;
                                     case be of
                                       Some err \<Rightarrow> State_Monad.return (Some (BindFailed err), (createdPod, createdPod))
                                     | None \<Rightarrow>
                                         do { b \<leftarrow> getVars;
                                              setVars (put_key tgt mountPath b);
                                              _ \<leftarrow> call (crd_updateStatus (crd env) crdName ''Mounted'' [])
                                                     (\<lambda>_. UpdateStatus crdName ''Mounted'');
                                              State_Monad.return (None, (False, False)) } } } } }"

definition mountCleanup :: "('w, 'q) env \<Rightarrow> string \<Rightarrow> string \<Rightarrow> cleanup \<Rightarrow> ('w pm, unit) state" where
  "mountCleanup env name crdName cl =
     do { (if fst cl then do { _ \<leftarrow> call (podDelete env name) (\<lambda>_. PodDelete name); State_Monad.return () }
           else State_Monad.return ());
          (if snd cl then do { _ \<leftarrow> call (crd_delete (crd env) crdName) (\<lambda>_. CrdDelete crdName); State_Monad.return () }
           else State_Monad.return ()) }"

definition Mount ::
  "('w, 'q) env \<Rightarrow> 'q pmConfig \<Rightarrow> string \<Rightarrow> string \<Rightarrow> string \<Rightarrow> 'q MountOptions \<Rightarrow> ('w pm, mountErr option) state" where
  "Mount env cfg sourceType sourceID tgt opts =
     (let volumeID = mountID tgt;
          mountPath = pathJoin [mountBaseDir, volumeID];
          name = mountPodPrefix @ volumeID;
          containerMountPath = ''/mnt/hf/'' @ volumeID;
          crdName = hfMountName volumeID
      in case buildArgs sourceType sourceID containerMountPath opts of
           Inl err \<Rightarrow> State_Monad.return (Some (BadArgs err))
         | Inr args \<Rightarrow>
             do { note_ev (LockSource mountPath);
                  ce \<leftarrow> call (crd_create (quantityOps cfg) (crd env) crdName
                          \<lparr>hfNodeName = nodeID cfg, hfSourceType = sourceType, hfSourceID = sourceID,
                           hfMountPodName = name, hfMountPath = mountPath, hfMountArgs = args,
                           hfResources = Resources opts\<rparr>) (CrdCreate crdName);
                  r \<leftarrow> (if ce \<noteq> None \<and> ce \<noteq> Some AlreadyExists
                        then State_Monad.return (Some (CrdCreateFailed (the ce)))
                        else do { aw \<leftarrow> call (addWorkload (crd env) crdName (WorkloadPodUID opts) tgt)
                                         (AddWorkload crdName (WorkloadPodUID opts) tgt);
                                  if aw = Some NilMapWrite then State_Monad.return (Some CrdPanic)
                                  else do { let pod = buildMountPod cfg name volumeID sourceType sourceID mountPath args
                                                        (Resources opts);
                                            res \<leftarrow> mountBody env pod name crdName mountPath tgt;
                                            mountCleanup env name crdName (snd res);
                                            State_Monad.return (fst res) } });
                  note_ev (UnlockSource mountPath);
                  State_Monad.return r })"

section \<open>Unmount\<close>

datatype unmountErr = RemoveFailed oserr

definition unmountLocked :: "('w, 'q) env \<Rightarrow> string \<Rightarrow> ('w pm, unmountErr option) state" where
  "unmountLocked env tgt =
     do { unmountAll env tgt;
          e \<leftarrow> call (removePath env tgt) (Removed tgt);
          if e \<noteq> None \<and> e \<noteq> Some ENOENT then State_Monad.return (Some (RemoveFailed (the e)))
          else
            do { b \<leftarrow> getVars;
                 case map_of b tgt of
                   None \<Rightarrow>
                     (let volumeID = mountID tgt; name = mountPodPrefix @ volumeID;
                          crdName = hfMountName volumeID; derived = pathJoin [mountBaseDir, volumeID] in
                      do { mp \<leftarrow> ask (isMountPoint env derived);
                           if fst mp then
                             do { unmountAll env derived;
                                  _ \<leftarrow> call (podDelete env name) (\<lambda>_. PodDelete name);
                                  _ \<leftarrow> call (crd_delete (crd env) crdName) (\<lambda>_. CrdDelete crdName);
                                  State_Monad.return None }
                           else State_Monad.return None })
                 | Some source \<Rightarrow>
                     (let b' = delete_key tgt b; sourceInUse = list_ex (\<lambda>ts. snd ts = source) b';
                          volumeID = mountIDFromSource source; crdName = hfMountName volumeID;
                          name = mountPodPrefix @ volumeID in
                      do { setVars b';
                           if sourceInUse then
                             do { _ \<leftarrow> call (removeWorkload (crd env) crdName tgt) (\<lambda>_. RemoveWorkload crdName tgt);
                                  State_Monad.return None }
                           else
                             do { unmountAll env source;
                                  _ \<leftarrow> call (podDelete env name) (\<lambda>_. PodDelete name);
                                  _ \<leftarrow> call (crd_delete (crd env) crdName) (\<lambda>_. CrdDelete crdName);
                                  _ \<leftarrow> call (removePath env source) (Removed source);
                                  State_Monad.return None } }) } }"

definition Unmount :: "('w, 'q) env \<Rightarrow> string \<Rightarrow> ('w pm, unmountErr option) state" where
  "Unmount env tgt =
     do { b \<leftarrow> getVars;
          let source = (case map_of b tgt of Some src \<Rightarrow> src | None \<Rightarrow> pathJoin [mountBaseDir, mountID tgt]) in
          do { note_ev (LockSource source);
               r \<leftarrow> unmountLocked env tgt;
               note_ev (UnlockSource source);
               State_Monad.return r } }"

section \<open>Health\<close>

datatype healthErr = CrashLoop string int "string option"

fun firstCrashLoop :: "containerStatus list \<Rightarrow> containerStatus option" where
  "firstCrashLoop [] = None"
| "firstCrashLoop (cs # css) =
     (if csWaitingReason cs = Some ''CrashLoopBackOff'' then Some cs else firstCrashLoop css)"

definition CheckHealth :: "('w, 'q) env \<Rightarrow> string \<Rightarrow> ('w pm, healthErr option) state" where
  "CheckHealth env tgt =
     do { b \<leftarrow> getVars;
          case map_of b tgt of
            None \<Rightarrow> State_Monad.return None
          | Some source \<Rightarrow>
              (let name = mountPodPrefix @ Base source in
               do { r \<leftarrow> ask (podGet env name);
                    case r of
                      Inl _ \<Rightarrow> State_Monad.return None
                    | Inr pod \<Rightarrow>
                        (let restarts = totalRestartCount pod in
                         if sint restarts < sint crashLoopRestartThreshold then State_Monad.return None
                         else State_Monad.return
                           (map_option (\<lambda>cs. CrashLoop name (sint restarts) (csLastTerminatedMessage cs))
                              (firstCrashLoop (podContainerStatuses pod)))) }) }"

section \<open>Effects of the parts\<close>

text \<open>The waits change nothing.\<close>

lemma eff_waitForPodRunning [eff_intros]:
  "(\<And>r. Q r b []) \<Longrightarrow> eff (waitForPodRunning env name n) Q b"
proof (induction n)
  case 0
  then show ?case by (subst waitForPodRunning.simps) (auto simp: Let_def intro!: eff_intros)
next
  case (Suc n)
  then show ?case by (subst waitForPodRunning.simps) (auto simp: Let_def intro!: eff_intros Suc.IH)
qed

lemma eff_waitForMount [eff_intros]:
  "(\<And>r. Q r b []) \<Longrightarrow> eff (waitForMount env path name n) Q b"
proof (induction n)
  case 0
  then show ?case by (subst waitForMount.simps) (auto simp: Let_def intro!: eff_intros)
next
  case (Suc n)
  then show ?case by (subst waitForMount.simps) (auto simp: Let_def intro!: eff_intros Suc.IH)
qed

lemma eff_waitForPodDeletion [eff_intros]:
  "(\<And>r. Q r b []) \<Longrightarrow> eff (waitForPodDeletion env name n) Q b"
  by (induction n) (auto intro!: eff_intros)

lemma eff_pollUntilMounted [eff_intros]:
  "(\<And>r. Q r b []) \<Longrightarrow> eff (pollUntilMounted env path n) Q b"
  by (induction n) (auto intro!: eff_intros)

text \<open>\<open>unmountAll\<close> pops mounts until the kernel reports an error, at most 32 of them.\<close>

definition popped :: "string \<Rightarrow> nat \<Rightarrow> event list \<Rightarrow> bool" where
  "popped path n evs \<longleftrightarrow>
     evs = replicate n (Unmounted path None)
     \<or> (\<exists>k e. k < n \<and> evs = replicate k (Unmounted path None) @ [Unmounted path (Some e)])"

lemma popped_Suc: "popped path n evs \<Longrightarrow> popped path (Suc n) (Unmounted path None # evs)"
  unfolding popped_def by (metis Suc_less_eq append_Cons replicate_Suc)

lemma popped_stop: "popped path (Suc n) [Unmounted path (Some e)]"
  unfolding popped_def by (metis append_Nil replicate_0 zero_less_Suc)

lemma eff_unmountLoop: "eff (unmountLoop env path n) (\<lambda>_ b' evs. b' = b \<and> popped path n evs) b"
proof (induction n)
  case 0
  show ?case by (auto simp: popped_def intro!: eff_intros)
next
  case (Suc n)
  show ?case
    by (auto simp: popped_stop intro!: eff_intros eff_mono [OF Suc] popped_Suc)
qed

lemma eff_unmountAll [eff_intros]:
  "(\<And>evs. popped path 32 evs \<Longrightarrow> Q () b evs) \<Longrightarrow> eff (unmountAll env path) Q b"
  unfolding unmountAll_def by (rule eff_mono [OF eff_unmountLoop]) auto

lemma set_popped: "popped path n evs \<Longrightarrow> ev \<in> set evs \<Longrightarrow> \<exists>e. ev = Unmounted path e"
  by (auto simp: popped_def)

text \<open>\<open>stackBind\<close> ends in success exactly with a successful bind, and detaches only after a
  bind on top has failed.\<close>

definition bindLog :: "string \<Rightarrow> string \<Rightarrow> oserr option \<Rightarrow> event list \<Rightarrow> bool" where
  "bindLog src tgt r evs \<longleftrightarrow>
     (r = None \<and> evs = [MkdirAll tgt, Bound src tgt None])
     \<or> (\<exists>e pops rest. popped tgt 32 pops
          \<and> evs = [MkdirAll tgt, Bound src tgt (Some e)] @ pops @ MkdirAll tgt # rest
          \<and> (rest = [] \<and> r \<noteq> None \<or> rest = [Bound src tgt r]))"

lemma bindLog_intros:
  "bindLog src tgt None [MkdirAll tgt, Bound src tgt None]"
  "popped tgt 32 pops \<Longrightarrow> r \<noteq> None \<Longrightarrow>
     bindLog src tgt r ([MkdirAll tgt, Bound src tgt (Some e)] @ pops @ [MkdirAll tgt])"
  "popped tgt 32 pops \<Longrightarrow>
     bindLog src tgt r ([MkdirAll tgt, Bound src tgt (Some e)] @ pops @ [MkdirAll tgt, Bound src tgt r])"
  unfolding bindLog_def by auto

lemma eff_stackBind [eff_intros]:
  assumes "\<And>r evs. bindLog src tgt r evs \<Longrightarrow> Q r b evs"
  shows "eff (stackBind env src tgt) Q b"
proof -
  have "eff (stackBind env src tgt) (\<lambda>r b' evs. b' = b \<and> bindLog src tgt r evs) b"
    unfolding stackBind_def
    by (intro eff_intros conjI refl) (auto intro: bindLog_intros [simplified])
  then show ?thesis by (rule eff_mono) (auto intro: assms)
qed

section \<open>Mount\<close>

definition created :: "string \<Rightarrow> event list \<Rightarrow> bool" where
  "created name evs = (PodCreate name None \<in> set evs)"

text \<open>Which of pod and CRD a failed attempt must take back, given whether it created the pod.\<close>

definition podDoomed :: "mountErr option \<Rightarrow> bool \<Rightarrow> bool" where
  "podDoomed r cr =
     (case r of
        Some (NotRunning we) \<Rightarrow> we \<noteq> TimedOut
      | Some (NotMounted we) \<Rightarrow> we \<noteq> TimedOut
      | Some (BindFailed e) \<Rightarrow> cr
      | _ \<Rightarrow> False)"

definition crdDoomed :: "mountErr option \<Rightarrow> bool \<Rightarrow> bool" where
  "crdDoomed r cr =
     (case r of
        Some (CreateFailed e) \<Rightarrow> True
      | Some (NotRunning we) \<Rightarrow> we \<noteq> TimedOut \<and> cr
      | Some (NotMounted we) \<Rightarrow> we \<noteq> TimedOut \<and> cr
      | Some (BindFailed e) \<Rightarrow> cr
      | _ \<Rightarrow> False)"

definition podEvents :: "string \<Rightarrow> event set" where
  "podEvents name = insert (PodDelete name) (range (PodCreate name))"

definition ensureLog :: "string \<Rightarrow> mountErr \<times> cleanup + bool \<Rightarrow> event list \<Rightarrow> bool" where
  "ensureLog name res evs \<longleftrightarrow> set evs \<subseteq> podEvents name
     \<and> (case res of
          Inr cr \<Rightarrow> created name evs = cr
        | Inl (err, cl) \<Rightarrow> cl = (podDoomed (Some err) (created name evs), crdDoomed (Some err) (created name evs)))"

lemma eff_ensurePod [eff_intros]:
  assumes "\<And>res evs. ensureLog name res evs \<Longrightarrow> Q res b evs"
  shows "eff (ensurePod env name pod) Q b"
proof -
  have "eff (ensurePod env name pod) (\<lambda>res b' evs. b' = b \<and> ensureLog name res evs) b"
    unfolding ensurePod_def
    by (intro eff_intros conjI refl)
       (auto simp: ensureLog_def created_def podEvents_def podDoomed_def crdDoomed_def)
  then show ?thesis by (rule eff_mono) (auto intro: assms)
qed

lemma bindLog_events:
  assumes "bindLog src tgt r evs" "ev \<in> set evs"
  shows "ev = MkdirAll tgt \<or> (\<exists>e. ev = Bound src tgt e) \<or> (\<exists>e. ev = Unmounted tgt e)"
  using assms by (auto simp: bindLog_def dest: set_popped)

lemma bindLog_success:
  "bindLog src tgt None evs \<Longrightarrow> \<exists>pre. evs = pre @ [Bound src tgt None]"
  by (auto simp: bindLog_def)

definition bodyLog ::
  "string \<Rightarrow> string \<Rightarrow> string \<Rightarrow> string \<Rightarrow> mountErr option \<times> cleanup \<Rightarrow> (string, string) gomap
    \<Rightarrow> (string, string) gomap \<Rightarrow> event list \<Rightarrow> bool" where
  "bodyLog name crdName mp tgt res b b' evs \<longleftrightarrow>
     snd res = (podDoomed (fst res) (created name evs), crdDoomed (fst res) (created name evs))
     \<and> CrdDelete crdName \<notin> set evs
     \<and> (if fst res = None
        then b' = put_key tgt mp b \<and> (\<exists>pre. evs = pre @ [Bound mp tgt None, UpdateStatus crdName ''Mounted''])
        else b' = b)"

lemma ensureLog_created: "ensureLog name (Inr cr) evs \<Longrightarrow> created name (evs @ rest) = (cr \<or> created name rest)"
  by (auto simp: ensureLog_def created_def)

lemma ensureLog_noCrd: "ensureLog name res evs \<Longrightarrow> CrdDelete c \<notin> set evs"
  by (auto simp: ensureLog_def podEvents_def)

lemma bindLog_not_created: "bindLog src tgt r evs \<Longrightarrow> \<not> created name evs"
  by (auto simp: created_def dest!: bindLog_events)

lemma bindLog_noCrd: "bindLog src tgt r evs \<Longrightarrow> CrdDelete c \<notin> set evs"
  by (auto dest!: bindLog_events)

lemma bodyLog_ensureErr:
  "ensureLog name (Inl (err, cl)) evs \<Longrightarrow> bodyLog name crdName mp tgt (Some err, cl) b b evs"
  by (simp add: bodyLog_def ensureLog_noCrd) (simp add: ensureLog_def)

lemma bodyLog_wait:
  assumes "ensureLog name (Inr cr) evs"
  shows "bodyLog name crdName mp tgt (Some (NotRunning we), afterWait we cr) b b evs"
    "bodyLog name crdName mp tgt (Some (NotMounted we), afterWait we cr) b b evs"
  using assms ensureLog_noCrd [OF assms]
  by (auto simp: bodyLog_def ensureLog_def afterWait_def podDoomed_def crdDoomed_def)

lemma bodyLog_bindErr:
  assumes "ensureLog name (Inr cr) evs" "bindLog mp tgt (Some e) bevs"
  shows "bodyLog name crdName mp tgt (Some (BindFailed e), (cr, cr)) b b (evs @ bevs)"
  using assms ensureLog_noCrd [OF assms(1)] bindLog_noCrd [OF assms(2)] bindLog_not_created [OF assms(2)]
  by (auto simp: bodyLog_def podDoomed_def crdDoomed_def ensureLog_created)

lemma bodyLog_ok:
  assumes "ensureLog name (Inr cr) evs" "bindLog mp tgt None bevs"
  shows "bodyLog name crdName mp tgt (None, (False, False)) b (put_key tgt mp b)
    (evs @ bevs @ [UpdateStatus crdName ''Mounted''])"
  using ensureLog_noCrd [OF assms(1)] bindLog_noCrd [OF assms(2)] bindLog_success [OF assms(2)]
  by (auto simp: bodyLog_def podDoomed_def crdDoomed_def)

lemma eff_mountBody [eff_intros]:
  assumes "\<And>res b' evs. bodyLog name crdName mp tgt res b b' evs \<Longrightarrow> Q res b' evs"
  shows "eff (mountBody env pod name crdName mp tgt) Q b"
proof -
  have "eff (mountBody env pod name crdName mp tgt) (\<lambda>res b' evs. bodyLog name crdName mp tgt res b b' evs) b"
    unfolding mountBody_def
    by (intro eff_intros)
       (auto simp: bodyLog_ensureErr bodyLog_wait bodyLog_bindErr bodyLog_ok)
  then show ?thesis by (rule eff_mono) (rule assms)
qed

definition cleanupEvents :: "string \<Rightarrow> string \<Rightarrow> cleanup \<Rightarrow> event list" where
  "cleanupEvents name crdName cl =
     (if fst cl then [PodDelete name] else []) @ (if snd cl then [CrdDelete crdName] else [])"

lemma eff_mountCleanup [eff_intros]:
  assumes "Q () b (cleanupEvents name crdName cl)"
  shows "eff (mountCleanup env name crdName cl) Q b"
  unfolding mountCleanup_def
  by (intro eff_intros) (use assms in \<open>auto simp: cleanupEvents_def\<close>)

text \<open>Everything a call of \<open>Mount\<close> with valid arguments does, on every path.\<close>

definition mountLog ::
  "string \<Rightarrow> string \<Rightarrow> mountErr option \<Rightarrow> (string, string) gomap \<Rightarrow> (string, string) gomap \<Rightarrow> event list \<Rightarrow> bool" where
  "mountLog uid tgt r b b' evs \<longleftrightarrow>
     (let vid = mountID tgt; mp = pathJoin [mountBaseDir, vid]; name = mountPodPrefix @ vid; crdName = hfMountName vid in
      \<exists>mid. evs = LockSource mp # mid @ [UnlockSource mp]
      \<and> ((\<exists>e. r = Some (CrdCreateFailed e) \<and> e \<noteq> AlreadyExists \<and> mid = [CrdCreate crdName (Some e)] \<and> b' = b)
         \<or> (\<exists>ce aw rest. mid = CrdCreate crdName ce # AddWorkload crdName uid tgt aw # rest
              \<and> ce \<in> {None, Some AlreadyExists}
              \<and> (r = Some CrdPanic \<and> aw = Some NilMapWrite \<and> rest = [] \<and> b' = b
                 \<or> (\<exists>bevs cl. rest = bevs @ cleanupEvents name crdName cl
                      \<and> bodyLog name crdName mp tgt (r, cl) b b' bevs)))))"

lemma eff_Mount:
  "eff (Mount env cfg st sid tgt opts)
     (\<lambda>r b' evs. (\<exists>err. buildArgs st sid (''/mnt/hf/'' @ mountID tgt) opts = Inl err
                     \<and> r = Some (BadArgs err) \<and> b' = b \<and> evs = [])
        \<or> mountLog (WorkloadPodUID opts) tgt r b b' evs) b"
  unfolding Mount_def Let_def
  by (intro eff_intros) (auto simp: mountLog_def Let_def, blast+)

text \<open>
  Mount records a bind exactly when it succeeds: on success the target was bound to its
  source as the last change of the mount table, and \<open>binds\<close> gained exactly that pair; on every
  error path, for any behaviour of the API server and the kernel, \<open>binds\<close> is as it was.
\<close>

theorem Mount_binds:
  assumes "run_state (Mount env cfg st sid tgt opts) s = (r, s')"
  shows "if r = None
    then binds s' = put_key tgt (pathJoin [mountBaseDir, mountID tgt]) (binds s)
       \<and> (\<exists>pre. log s' = log s @ pre @ [Bound (pathJoin [mountBaseDir, mountID tgt]) tgt None,
            UpdateStatus (hfMountName (mountID tgt)) ''Mounted'', UnlockSource (pathJoin [mountBaseDir, mountID tgt])])
    else binds s' = binds s"
proof -
  obtain evs where e: "log s' = log s @ evs"
      "(\<exists>err. buildArgs st sid (''/mnt/hf/'' @ mountID tgt) opts = Inl err \<and> r = Some (BadArgs err) \<and> binds s' = binds s \<and> evs = [])
        \<or> mountLog (WorkloadPodUID opts) tgt r (binds s) (binds s') evs"
    using effD [OF eff_Mount assms] by blast
  then show ?thesis
    by (auto simp: mountLog_def Let_def bodyLog_def cleanupEvents_def podDoomed_def crdDoomed_def)
qed

text \<open>
  (C23) The durable record comes first: on every path of \<open>Mount\<close>, before the first attempt to
  create the mount pod the CRD has been created or found to exist and the workload has been
  registered on it, so a pod never runs without the record it can be rebuilt from; and all
  effects lie between taking and releasing the lock of the source.
\<close>

theorem Mount_crd_before_pod:
  assumes "run_state (Mount env cfg st sid tgt opts) s = (r, s')"
  shows "\<exists>evs. log s' = log s @ evs
    \<and> (evs = [] \<or> (\<exists>mid. evs = LockSource (pathJoin [mountBaseDir, mountID tgt]) # mid
                         @ [UnlockSource (pathJoin [mountBaseDir, mountID tgt])]))
    \<and> (\<forall>pre pod e post. evs = pre @ PodCreate pod e # post \<longrightarrow>
         (\<exists>ce aw rest. pre = LockSource (pathJoin [mountBaseDir, mountID tgt]) # CrdCreate (hfMountName (mountID tgt)) ce
             # AddWorkload (hfMountName (mountID tgt)) (WorkloadPodUID opts) tgt aw # rest
             \<and> ce \<in> {None, Some AlreadyExists}))"
proof -
  obtain evs where e: "log s' = log s @ evs"
      "(\<exists>err. buildArgs st sid (''/mnt/hf/'' @ mountID tgt) opts = Inl err \<and> r = Some (BadArgs err) \<and> binds s' = binds s \<and> evs = [])
        \<or> mountLog (WorkloadPodUID opts) tgt r (binds s) (binds s') evs"
    using effD [OF eff_Mount assms] by blast
  then show ?thesis
    by (fastforce simp: mountLog_def Let_def Cons_eq_append_conv append_eq_Cons_conv)
qed


section \<open>Unmount\<close>

text \<open>What an unmount does to the source of its target: nothing while another target uses it,
  otherwise it pops the source and deletes pod, CRD and directory, in this order.\<close>

definition releaseLog :: "string \<Rightarrow> string \<Rightarrow> bool \<Rightarrow> event list \<Rightarrow> bool" where
  "releaseLog source tgt inUse evs \<longleftrightarrow>
     (if inUse then evs = [RemoveWorkload (hfMountName (mountIDFromSource source)) tgt]
      else \<exists>pops e. popped source 32 pops
        \<and> evs = pops @ [PodDelete (mountPodPrefix @ mountIDFromSource source),
                         CrdDelete (hfMountName (mountIDFromSource source)), Removed source e])"

definition untrackedLog :: "string \<Rightarrow> event list \<Rightarrow> bool" where
  "untrackedLog tgt evs \<longleftrightarrow> evs = []
     \<or> (\<exists>pops. popped (pathJoin [mountBaseDir, mountID tgt]) 32 pops
          \<and> evs = pops @ [PodDelete (mountPodPrefix @ mountID tgt), CrdDelete (hfMountName (mountID tgt))])"

definition unmountLog ::
  "string \<Rightarrow> unmountErr option \<Rightarrow> (string, string) gomap \<Rightarrow> (string, string) gomap \<Rightarrow> event list \<Rightarrow> bool" where
  "unmountLog tgt r b b' evs \<longleftrightarrow>
     (\<exists>pops e rest. popped tgt 32 pops \<and> evs = pops @ Removed tgt e # rest
        \<and> (if e = None \<or> e = Some ENOENT
           then r = None \<and> b' = delete_key tgt b
              \<and> (case map_of b tgt of
                   None \<Rightarrow> untrackedLog tgt rest
                 | Some source \<Rightarrow> releaseLog source tgt (source \<in> snd ` set (delete_key tgt b)) rest)
           else r = Some (RemoveFailed (the e)) \<and> b' = b \<and> rest = []))"

lemma delete_key_untracked: "map_of b k = None \<Longrightarrow> delete_key k b = b"
  by (induction b) (auto split: if_splits)

lemma sourceInUse_iff: "list_ex (\<lambda>ts. snd ts = source) b \<longleftrightarrow> source \<in> snd ` set b"
  by (auto simp: list_ex_iff)

lemma unmountLog_intros:
  assumes "popped tgt 32 pops"
  shows "e \<noteq> None \<Longrightarrow> e \<noteq> Some ENOENT \<Longrightarrow>
      unmountLog tgt (Some (RemoveFailed (the e))) b b (pops @ [Removed tgt e])"
    "e = None \<or> e = Some ENOENT \<Longrightarrow> map_of b tgt = None \<Longrightarrow> untrackedLog tgt rest \<Longrightarrow>
      unmountLog tgt None b b (pops @ Removed tgt e # rest)"
    "e = None \<or> e = Some ENOENT \<Longrightarrow> map_of b tgt = Some source \<Longrightarrow>
      releaseLog source tgt (list_ex (\<lambda>ts. snd ts = source) (delete_key tgt b)) rest \<Longrightarrow>
      unmountLog tgt None b (delete_key tgt b) (pops @ Removed tgt e # rest)"
  unfolding unmountLog_def sourceInUse_iff
  by (rule exI [of _ pops], rule exI [of _ e], use assms in \<open>auto simp: delete_key_untracked\<close>)+

lemma releaseLog_intros:
  "inUse \<Longrightarrow> releaseLog source tgt inUse [RemoveWorkload (hfMountName (mountIDFromSource source)) tgt]"
  "\<not> inUse \<Longrightarrow> popped source 32 pops \<Longrightarrow>
     releaseLog source tgt inUse (pops @ [PodDelete (mountPodPrefix @ mountIDFromSource source),
       CrdDelete (hfMountName (mountIDFromSource source)), Removed source e])"
  by (auto simp: releaseLog_def)

lemma untrackedLog_intros:
  "untrackedLog tgt []"
  "popped (pathJoin [mountBaseDir, mountID tgt]) 32 pops \<Longrightarrow>
     untrackedLog tgt (pops @ [PodDelete (mountPodPrefix @ mountID tgt), CrdDelete (hfMountName (mountID tgt))])"
  by (auto simp: untrackedLog_def)

lemma eff_unmountLocked [eff_intros]:
  assumes "\<And>r b' evs. unmountLog tgt r b b' evs \<Longrightarrow> Q r b' evs"
  shows "eff (unmountLocked env tgt) Q b"
proof -
  have "eff (unmountLocked env tgt) (\<lambda>r b' evs. unmountLog tgt r b b' evs) b"
    unfolding unmountLocked_def Let_def
    by (intro eff_intros; simp only: append.simps append_Nil2 append_assoc;
        intro unmountLog_intros releaseLog_intros untrackedLog_intros)
       (auto intro: releaseLog_intros)
  then show ?thesis by (rule eff_mono) (rule assms)
qed

definition lockedSource :: "string \<Rightarrow> (string, string) gomap \<Rightarrow> string" where
  "lockedSource tgt b = (case map_of b tgt of Some src \<Rightarrow> src | None \<Rightarrow> pathJoin [mountBaseDir, mountID tgt])"

lemma eff_Unmount:
  "eff (Unmount env tgt)
     (\<lambda>r b' evs. \<exists>mid. evs = LockSource (lockedSource tgt b) # mid @ [UnlockSource (lockedSource tgt b)]
        \<and> unmountLog tgt r b b' mid) b"
  unfolding Unmount_def Let_def lockedSource_def by (intro eff_intros) auto

text \<open>
  (C24) Unmount on every path: it pops the whole stack at the target and removes the directory
  before it forgets the bind; when the directory cannot be removed it reports the error and
  keeps the bind, so a retry finds it. The source and its pod survive exactly as long as
  another target is bound to the source: only the last unmount pops the source and then deletes
  pod and CRD.
\<close>

theorem Unmount_effects:
  assumes "run_state (Unmount env tgt) s = (r, s')"
  shows "\<exists>mid. log s' = log s @ LockSource (lockedSource tgt (binds s)) # mid @ [UnlockSource (lockedSource tgt (binds s))]
    \<and> (\<exists>pops e rest. popped tgt 32 pops \<and> mid = pops @ Removed tgt e # rest
        \<and> (if e = None \<or> e = Some ENOENT
           then r = None \<and> binds s' = delete_key tgt (binds s)
              \<and> (case map_of (binds s) tgt of
                   None \<Rightarrow> untrackedLog tgt rest
                 | Some source \<Rightarrow> releaseLog source tgt (source \<in> snd ` set (delete_key tgt (binds s))) rest)
           else r = Some (RemoveFailed (the e)) \<and> binds s' = binds s \<and> rest = []))"
proof -
  obtain evs where "log s' = log s @ evs"
      "\<exists>mid. evs = LockSource (lockedSource tgt (binds s)) # mid @ [UnlockSource (lockedSource tgt (binds s))]
         \<and> unmountLog tgt r (binds s) (binds s') mid"
    using effD [OF eff_Unmount assms] by blast
  then obtain mid where "log s' = log s @ LockSource (lockedSource tgt (binds s)) # mid
        @ [UnlockSource (lockedSource tgt (binds s))]" "unmountLog tgt r (binds s) (binds s') mid"
    by auto
  then show ?thesis unfolding unmountLog_def by (rule exI [of _ mid, OF conjI])
qed

section \<open>The contract of a mounter\<close>

text \<open>
  What the node service relies on: a mounter tracks targets; a successful mount adds its
  target, a successful unmount removes it, a failed one changes nothing.
\<close>

locale mounter_contract =
  fixes mount :: "'t \<Rightarrow> 's \<Rightarrow> bool \<times> 's"
    and unmount :: "'t \<Rightarrow> 's \<Rightarrow> bool \<times> 's"
    and tracked :: "'s \<Rightarrow> 't set"
  assumes tracked_mount: "tracked (snd (mount t s)) = (if fst (mount t s) then insert t (tracked s) else tracked s)"
    and tracked_unmount: "tracked (snd (unmount t s)) = (if fst (unmount t s) then tracked s - {t} else tracked s)"
begin

lemma mount_unmount:
  assumes "t \<notin> tracked s" "fst (mount t s)" "fst (unmount t (snd (mount t s)))"
  shows "tracked (snd (unmount t (snd (mount t s)))) = tracked s"
  using assms by (auto simp: tracked_mount tracked_unmount)

lemma unmount_keeps_others:
  "u \<noteq> t \<Longrightarrow> u \<in> tracked (snd (unmount t s)) \<longleftrightarrow> u \<in> tracked s"
  by (auto simp: tracked_unmount)

lemma mount_keeps_others:
  "u \<noteq> t \<Longrightarrow> u \<in> tracked (snd (mount t s)) \<longleftrightarrow> u \<in> tracked s"
  by (auto simp: tracked_mount)

end

definition podMount ::
  "('w, 'q) env \<Rightarrow> 'q pmConfig \<Rightarrow> string \<Rightarrow> string \<Rightarrow> 'q MountOptions \<Rightarrow> string \<Rightarrow> 'w pm \<Rightarrow> bool \<times> 'w pm" where
  "podMount env cfg st sid opts tgt s =
     (case run_state (Mount env cfg st sid tgt opts) s of (r, s') \<Rightarrow> (r = None, s'))"

definition podUnmount :: "('w, 'q) env \<Rightarrow> string \<Rightarrow> 'w pm \<Rightarrow> bool \<times> 'w pm" where
  "podUnmount env tgt s = (case run_state (Unmount env tgt) s of (r, s') \<Rightarrow> (r = None, s'))"

definition trackedTargets :: "'w pm \<Rightarrow> string set" where
  "trackedTargets s = fst ` set (binds s)"

lemma keys_delete: "fst ` set (delete_key k b) = fst ` set b - {k}"
  by (auto simp: AList.delete_eq)

lemma Mount_binds_cases:
  assumes "run_state (Mount env cfg st sid tgt opts) s = (r, s')"
  shows "binds s' = (if r = None then put_key tgt (pathJoin [mountBaseDir, mountID tgt]) (binds s) else binds s)"
proof -
  obtain evs where "(\<exists>err. buildArgs st sid (''/mnt/hf/'' @ mountID tgt) opts = Inl err \<and> r = Some (BadArgs err) \<and> binds s' = binds s \<and> evs = [])
        \<or> mountLog (WorkloadPodUID opts) tgt r (binds s) (binds s') evs"
    using effD [OF eff_Mount assms] by blast
  then show ?thesis by (auto simp: mountLog_def Let_def bodyLog_def)
qed

lemma Unmount_binds_cases:
  assumes "run_state (Unmount env tgt) s = (r, s')"
  shows "binds s' = (if r = None then delete_key tgt (binds s) else binds s)"
proof -
  obtain mid where "unmountLog tgt r (binds s) (binds s') mid"
    using effD [OF eff_Unmount assms] by blast
  then show ?thesis by (auto simp: unmountLog_def split: if_splits)
qed

interpretation pod_mounter: mounter_contract "podMount env cfg st sid opts" "podUnmount env" trackedTargets
  for env :: "('w, 'q) env" and cfg :: "'q pmConfig" and st sid :: string and opts :: "'q MountOptions"
proof
  fix t and s :: "'w pm"
  obtain r s' where m: "run_state (Mount env cfg st sid t opts) s = (r, s')" by (metis surj_pair)
  show "trackedTargets (snd (podMount env cfg st sid opts t s)) =
      (if fst (podMount env cfg st sid opts t s) then insert t (trackedTargets s) else trackedTargets s)"
    using Mount_binds_cases [OF m] by (simp add: podMount_def m trackedTargets_def dom_update)
  obtain r2 s2 where u: "run_state (Unmount env t) s = (r2, s2)" by (metis surj_pair)
  show "trackedTargets (snd (podUnmount env t s)) =
      (if fst (podUnmount env t s) then trackedTargets s - {t} else trackedTargets s)"
    using Unmount_binds_cases [OF u] by (simp add: podUnmount_def u trackedTargets_def keys_delete)
qed

text \<open>
  Mounting and unmounting a target is a round trip: when both succeed on a target that was
  not tracked, exactly the targets tracked before are tracked again; and neither operation,
  successful or not, ever changes whether another target is tracked.
\<close>

theorem mount_unmount_roundtrip:
  "(tgt \<notin> trackedTargets s \<and> fst (podMount env cfg st sid opts tgt s)
      \<and> fst (podUnmount env tgt (snd (podMount env cfg st sid opts tgt s))) \<longrightarrow>
    trackedTargets (snd (podUnmount env tgt (snd (podMount env cfg st sid opts tgt s)))) = trackedTargets s)
   \<and> (other \<noteq> tgt \<longrightarrow>
       (other \<in> trackedTargets (snd (podMount env cfg st sid opts tgt s)) \<longleftrightarrow> other \<in> trackedTargets s)
       \<and> (other \<in> trackedTargets (snd (podUnmount env tgt s)) \<longleftrightarrow> other \<in> trackedTargets s))"
  using pod_mounter.mount_unmount [of tgt s env cfg st sid opts]
    pod_mounter.unmount_keeps_others [of other tgt env s]
    pod_mounter.mount_keeps_others [of other tgt env cfg st sid opts s]
  by simp

section \<open>Instances\<close>

text \<open>An outside where the API server and the kernel accept everything and the pod has the given
  phase.\<close>

definition quietCrd :: "unit crdApi" where
  "quietCrd =
     \<lparr>crdCreate = (\<lambda>_. State_Monad.return None), crdGet = (\<lambda>n. State_Monad.return (Inr sampleObj)),
      crdUpdate = (\<lambda>_. State_Monad.return None), crdUpdateStatus = (\<lambda>_. State_Monad.return None),
      crdDelete = (\<lambda>_. State_Monad.return None), crdList = (\<lambda>_. State_Monad.return (Inr [])),
      timeNow = State_Monad.return 0\<rparr>"

definition phasePod :: "podPhase \<Rightarrow> nat pod" where
  "phasePod ph =
     \<lparr>podName = ''hf-mount-1'', podNamespace = ''ns'', podUID = ''u'', podLabels = Map.empty, podAnnotations = Map.empty,
      podDeletionTimestamp = False, podVolumes = [], podInitContainers = [], podContainers = [],
      podTerminationGracePeriodSeconds = None, podStatusPhase = ph, podContainerStatuses = []\<rparr>"

definition quietEnv :: "podPhase \<Rightarrow> (unit, nat) env" where
  "quietEnv ph =
     \<lparr>crd = quietCrd,
      podCreate = (\<lambda>_. State_Monad.return None), podGet = (\<lambda>_. State_Monad.return (Inr (phasePod ph))),
      podDelete = (\<lambda>_. State_Monad.return None), podList = (\<lambda>_. State_Monad.return (Inr [])),
      nodePodList = (\<lambda>_. State_Monad.return (Inr [])), isMountPoint = (\<lambda>_. State_Monad.return (True, None)),
      isCorruptedMnt = (\<lambda>e. e = ENOTCONN), getMountRefs = (\<lambda>_. State_Monad.return (Inr [])),
      fuseUnmount = (\<lambda>_. State_Monad.return (Some EINVAL)), bindMount = (\<lambda>_ _. State_Monad.return None),
      mkdirAll = (\<lambda>_. State_Monad.return None), removePath = (\<lambda>_. State_Monad.return None),
      statPath = (\<lambda>_. State_Monad.return None), readDirEntries = (\<lambda>_. State_Monad.return (Inr [])),
      selfMountinfo = State_Monad.return None, ticks = State_Monad.return 0\<rparr>"

definition sampleCfg :: "nat pmConfig" where
  "sampleCfg =
     \<lparr>quantityOps = sampleOps,
      defaults = \<lparr>DefaultMountCPURequest = 1, DefaultMountMemoryRequest = 20, DefaultMountMemoryRequestReadOnly = 2\<rparr>,
      namespace = ''ns'', nodeID = ''n'', image = ''img'', imagePullPolicy = ''Always'', imagePullSecrets = [],
      serviceAccount = ''sa'', cacheDir = ''/cache'', hostNetwork = False\<rparr>"

definition samplePm :: "unit pm" where
  "samplePm = \<lparr>vars = [], world = (), log = []\<rparr>"

lemmas quiet_simps = quietEnv_def quietCrd_def phasePod_def sampleCfg_def samplePm_def run_bind call_def
  ask_def note_ev_def getVars_def setVars_def

lemma addWorkload_quiet: "run_state (addWorkload quietCrd n u t) w = (None, w)"
  by (simp add: addWorkload_def retryOnConflict_def numeral_eq_Suc quietCrd_def run_bind sampleObj_def
      workloadsOf_def specAt_def setWorkloads_def)

lemma Mount_quiet_ok:
  "fst (run_state (Mount (quietEnv PodRunning) sampleCfg ''bucket'' ''o/d'' ''/t'' sampleOptions) samplePm) = None"
proof -
  have "buildArgs ''bucket'' ''o/d'' (''/mnt/hf/'' @ mountID ''/t'') sampleOptions \<noteq> Inl e" for e
    by (simp add: buildArgs_error_iff)
  then obtain args where args: "buildArgs ''bucket'' ''o/d'' (''/mnt/hf/'' @ mountID ''/t'') sampleOptions = Inr args"
    by (metis sum.exhaust)
  show ?thesis
    unfolding Mount_def Let_def args
    by (simp add: quiet_simps addWorkload_quiet [unfolded quietCrd_def] crd_create_def mountBody_def ensurePod_def
        waitForPodRunning.simps waitForMount.simps stackBind_def crd_updateStatus_def mountCleanup_def)
qed

lemma Mount_quiet_failed:
  "fst (run_state (Mount (quietEnv PodFailed) sampleCfg ''bucket'' ''o/d'' ''/t'' sampleOptions) samplePm)
     = Some (NotRunning (Terminal PodFailed))"
proof -
  have "buildArgs ''bucket'' ''o/d'' (''/mnt/hf/'' @ mountID ''/t'') sampleOptions \<noteq> Inl e" for e
    by (simp add: buildArgs_error_iff)
  then obtain args where args: "buildArgs ''bucket'' ''o/d'' (''/mnt/hf/'' @ mountID ''/t'') sampleOptions = Inr args"
    by (metis sum.exhaust)
  show ?thesis
    unfolding Mount_def Let_def args
    by (simp add: quiet_simps addWorkload_quiet [unfolded quietCrd_def] crd_create_def crd_delete_def mountBody_def
        ensurePod_def waitForPodRunning.simps mountCleanup_def afterWait_def)
qed

theorem Mount_binds_witness:
  "binds (snd (run_state (Mount (quietEnv PodRunning) sampleCfg ''bucket'' ''o/d'' ''/t'' sampleOptions) samplePm))
     = [(''/t'', pathJoin [mountBaseDir, mountID ''/t''])]"
proof -
  obtain s' where "run_state (Mount (quietEnv PodRunning) sampleCfg ''bucket'' ''o/d'' ''/t'' sampleOptions) samplePm = (None, s')"
    using Mount_quiet_ok by (metis prod.collapse)
  from Mount_binds [OF this] this show ?thesis by (simp add: samplePm_def)
qed

theorem Mount_crd_before_pod_witness:
  "\<exists>evs. log (snd (run_state (Mount (quietEnv PodRunning) sampleCfg ''bucket'' ''o/d'' ''/t'' sampleOptions) samplePm)) = evs
    \<and> (\<forall>pre pod e post. evs = pre @ PodCreate pod e # post \<longrightarrow>
         (\<exists>ce aw rest. pre = LockSource (pathJoin [mountBaseDir, mountID ''/t'']) # CrdCreate (hfMountName (mountID ''/t'')) ce
             # AddWorkload (hfMountName (mountID ''/t'')) ''u-1'' ''/t'' aw # rest
             \<and> ce \<in> {None, Some AlreadyExists}))"
proof -
  obtain s' where r: "run_state (Mount (quietEnv PodRunning) sampleCfg ''bucket'' ''o/d'' ''/t'' sampleOptions) samplePm = (None, s')"
    using Mount_quiet_ok by (metis prod.collapse)
  have uid: "WorkloadPodUID sampleOptions = ''u-1''" and l: "log samplePm = []"
    by (simp_all add: sampleOptions_def samplePm_def)
  show ?thesis
    using Mount_crd_before_pod [OF r]
    unfolding r snd_conv uid l append_Nil by (elim exE conjE) (intro exI conjI, assumption+)
qed


lemma unmountAll_quiet:
  "run_state (unmountAll (quietEnv ph) p) s = ((), s\<lparr>log := log s @ [Unmounted p (Some EINVAL)]\<rparr>)"
proof -
  have "(32 :: nat) = Suc 31" by simp
  then show ?thesis unfolding unmountAll_def by (simp only: unmountLoop.simps) (simp add: quiet_simps)
qed

lemma Unmount_quiet_ok: "fst (run_state (Unmount (quietEnv ph) ''/t'') s) = None"
proof -
  have "removePath (quietEnv ph) p = State_Monad.return None" for p by (simp add: quietEnv_def)
  then show ?thesis
    by (simp add: Unmount_def unmountLocked_def Let_def run_bind call_def ask_def note_ev_def getVars_def
        setVars_def unmountAll_quiet case_prod_beta split: option.split)
qed

theorem Unmount_effects_witness:
  "\<exists>s'. run_state (Unmount (quietEnv PodRunning) ''/t'') (samplePm\<lparr>vars := [(''/t'', ''/s''), (''/u'', ''/s'')]\<rparr>) = (None, s')
     \<and> binds s' = [(''/u'', ''/s'')]"
proof -
  obtain s' where "run_state (Unmount (quietEnv PodRunning) ''/t'') (samplePm\<lparr>vars := [(''/t'', ''/s''), (''/u'', ''/s'')]\<rparr>) = (None, s')"
    using Unmount_quiet_ok by (metis prod.collapse)
  with Unmount_effects [OF this] show ?thesis by (auto split: if_splits)
qed

theorem mount_unmount_roundtrip_witness:
  "trackedTargets (snd (podUnmount (quietEnv PodRunning) ''/t''
      (snd (podMount (quietEnv PodRunning) sampleCfg ''bucket'' ''o/d'' sampleOptions ''/t'' samplePm)))) = {}"
proof -
  have "fst (podMount (quietEnv PodRunning) sampleCfg ''bucket'' ''o/d'' sampleOptions ''/t'' samplePm)"
    using Mount_quiet_ok by (simp add: podMount_def case_prod_beta)
  moreover have "fst (podUnmount (quietEnv PodRunning) ''/t'' s)" for s
    using Unmount_quiet_ok [of PodRunning s] by (simp add: podUnmount_def case_prod_beta)
  ultimately show ?thesis
    using mount_unmount_roundtrip [of "''/t''" samplePm "quietEnv PodRunning" sampleCfg "''bucket''" "''o/d''" sampleOptions]
    by (simp add: trackedTargets_def samplePm_def)
qed

end
