(* ===== verification/Node_Pods.thy ===== *)
theory Node_Pods
  imports Node_Proofs Pod_Mounter
begin

text \<open>
  The node service on top of the pod mounter, as \<open>runNode\<close> of \<open>cmd/hf-csi-driver/main.go\<close> composes
  them: the world below the node service is the state of the pod mounter together with the one
  kernel, file system and API server both use. A locale states what the node service needs of
  a mounter with a table of bound targets; its lemmas follow the table through publish and
  unpublish, and the pod mounter is its instance.
\<close>

section \<open>What publishing needs of a mounter\<close>

locale tracked_mounter =
  fixes d :: "('w, 'q, 'e) Driver"
    and table :: "'w \<Rightarrow> (string, string) gomap"
    and sourceOf :: "string \<Rightarrow> string"
  assumes mount_table: "run_state (mMount (mounter d) st sid t opts) w = (r, w') \<Longrightarrow>
      table w' = (if r = None then put_key t (sourceOf t) (table w) else table w)"
    and unmount_table: "run_state (mUnmount (mounter d) t) w = (r, w') \<Longrightarrow>
      table w' = (if r = None then delete_key t (table w) else table w)"
    and query_table: "run_state (mIsMountPoint (mounter d) t) w = (mp, w') \<Longrightarrow> table w' = table w"
      "run_state (mCheckHealth (mounter d) t) w = (r, w') \<Longrightarrow> table w' = table w"
    and file_table: "run_state (osMkdirAll (hostOf d) p) w = (me, w') \<Longrightarrow> table w' = table w"
      "run_state (osRemove (hostOf d) p) w = (re, w') \<Longrightarrow> table w' = table w"
      "run_state (osCreateTemp (hostOf d) p) w = (ct, w') \<Longrightarrow> table w' = table w"
      "run_state (fdWrite (hostOf d) fd p) w = (we, w') \<Longrightarrow> table w' = table w"
      "run_state (closeFd (hostOf d) fd) w = (ce, w') \<Longrightarrow> table w' = table w"
      "run_state (osRename (hostOf d) p q) w = (ne, w') \<Longrightarrow> table w' = table w"
begin

text \<open>Programs that leave the table as it is.\<close>

definition keeps :: "('w host, 'a) state \<Rightarrow> bool" where
  "keeps m \<longleftrightarrow> (\<forall>s. table (world (snd (run_state m s))) = table (world s))"

lemma keepsD: "keeps m \<Longrightarrow> run_state m s = (r, s') \<Longrightarrow> table (world s') = table (world s)"
  unfolding keeps_def by (metis snd_conv)

lemma keeps_return: "keeps (State_Monad.return x)"
  by (simp add: keeps_def)

lemma keeps_bind: "keeps m \<Longrightarrow> (\<And>x. keeps (f x)) \<Longrightarrow> keeps (State_Monad.bind m f)"
  by (simp add: keeps_def run_bind split: prod.splits) (metis snd_conv)

lemma keeps_ask: "(\<And>w r w'. run_state m w = (r, w') \<Longrightarrow> table w' = table w) \<Longrightarrow> keeps (ask m)"
  by (simp add: keeps_def ask_def split: prod.splits)

lemma keeps_note: "keeps (note_ev ev)"
  by (simp add: keeps_def note_ev_def)

lemma keeps_call: "(\<And>w r w'. run_state m w = (r, w') \<Longrightarrow> table w' = table w) \<Longrightarrow> keeps (call m ev)"
  unfolding call_def by (intro keeps_bind keeps_ask keeps_note keeps_return)

lemma keeps_vars: "keeps getVars" "keeps (setVars v)"
  by (simp_all add: keeps_def getVars_def setVars_def)

lemma keeps_if: "keeps m \<Longrightarrow> keeps n \<Longrightarrow> keeps (if c then m else n)"
  by simp

lemma keeps_cases:
  "keeps m \<Longrightarrow> (\<And>y. keeps (n y)) \<Longrightarrow> keeps (case x of None \<Rightarrow> m | Some y \<Rightarrow> n y)"
  "(\<And>a. keeps (k a)) \<Longrightarrow> (\<And>b. keeps (l b)) \<Longrightarrow> keeps (case z of Inl a \<Rightarrow> k a | Inr b \<Rightarrow> l b)"
  "(\<And>a b. keeps (f a b)) \<Longrightarrow> keeps (case p of (a, b) \<Rightarrow> f a b)"
  by (auto split: option.split sum.split prod.split)

lemma keeps_whenM: "keeps m \<Longrightarrow> keeps (whenM c m)"
  by (auto simp: whenM_def intro: keeps_bind keeps_return)

lemmas keeps_intros = keeps_return keeps_bind keeps_note keeps_vars keeps_if keeps_cases keeps_whenM

lemma keeps_files:
  "keeps (call (osMkdirAll (hostOf d) p) me)" "keeps (call (osRemove (hostOf d) p) re)"
  "keeps (call (osCreateTemp (hostOf d) p) ct)" "keeps (call (fdWrite (hostOf d) fd p) we)"
  "keeps (call (closeFd (hostOf d) fd) ce)" "keeps (call (osRename (hostOf d) p q) ne)"
  "keeps (call (mIsMountPoint (mounter d) t) ip)" "keeps (ask (mCheckHealth (mounter d) t))"
  by (intro keeps_call keeps_ask; erule query_table file_table)+

lemma keeps_writeTokenFile: "keeps (writeTokenFile (hostOf d) p tok)"
  unfolding writeTokenFile_def sysClose_def Let_def by (intro keeps_intros keeps_files)

lemma keeps_cleanups: "keeps (cleanupTokenFile d v)" "keeps (cleanupSidecarSocket (hostOf d) v)"
  unfolding cleanupTokenFile_def cleanupSidecarSocket_def Let_def by (intro keeps_intros keeps_files)+

text \<open>Programs whose result says how the table moves.\<close>

definition moves :: "('w host, 'a) state \<Rightarrow> ('a \<Rightarrow> (string, string) gomap \<Rightarrow> (string, string) gomap \<Rightarrow> bool) \<Rightarrow> bool" where
  "moves m R \<longleftrightarrow> (\<forall>s. case run_state m s of (r, s') \<Rightarrow> R r (table (world s)) (table (world s')))"

lemma movesD: "moves m R \<Longrightarrow> run_state m s = (r, s') \<Longrightarrow> R r (table (world s)) (table (world s'))"
  unfolding moves_def by (metis case_prodD)

lemma moves_return: "(\<And>t. R x t t) \<Longrightarrow> moves (State_Monad.return x) R"
  by (simp add: moves_def)

lemma moves_after:
  assumes "keeps m" "\<And>x. moves (f x) R"
  shows "moves (State_Monad.bind m f) R"
  unfolding moves_def
proof
  fix s
  obtain x s1 r s2 where m: "run_state m s = (x, s1)" and f: "run_state (f x) s1 = (r, s2)" by (metis surj_pair)
  from keepsD [OF assms(1) m] movesD [OF assms(2) f] m f
  show "case run_state (State_Monad.bind m f) s of (r, s') \<Rightarrow> R r (table (world s)) (table (world s'))"
    by (simp add: run_bind)
qed

lemma moves_then:
  assumes "moves m R" "keeps k"
  shows "moves (do { r \<leftarrow> m; _ \<leftarrow> k; State_Monad.return r }) R"
  unfolding moves_def
proof
  fix s
  obtain r s1 u s2 where m: "run_state m s = (r, s1)" and k: "run_state k s1 = (u, s2)" by (metis surj_pair)
  from movesD [OF assms(1) m] keepsD [OF assms(2) k] m k
  show "case run_state (do { r \<leftarrow> m; _ \<leftarrow> k; State_Monad.return r }) s of
      (r, s') \<Rightarrow> R r (table (world s)) (table (world s'))"
    by (simp add: run_bind)
qed

lemma moves_keeps: "keeps m \<Longrightarrow> (\<And>r t. R r t t) \<Longrightarrow> moves m R"
  unfolding moves_def by (auto simp: keepsD split: prod.splits)

lemma moves_if: "(c \<Longrightarrow> moves m R) \<Longrightarrow> (\<not> c \<Longrightarrow> moves n R) \<Longrightarrow> moves (if c then m else n) R"
  by simp

lemma moves_cases:
  "(x = None \<Longrightarrow> moves m R) \<Longrightarrow> (\<And>y. x = Some y \<Longrightarrow> moves (n y) R) \<Longrightarrow> moves (case x of None \<Rightarrow> m | Some y \<Rightarrow> n y) R"
  by (auto split: option.split)

lemma moves_mount:
  "moves (do { me \<leftarrow> call (mMount (mounter d) st sid t opts) ev; State_Monad.return (map_option MountFailed me) })
     (\<lambda>r b b'. b' = (if r = None then put_key t (sourceOf t) b else b))"
  by (auto simp: moves_def run_bind call_def ask_def note_ev_def dest: mount_table split: prod.splits)

lemma moves_unmount:
  "moves (do { ue \<leftarrow> call (mUnmount (mounter d) t) ev; State_Monad.return (map_option UnmountFailed ue) })
     (\<lambda>r b b'. b' = (if r = None then delete_key t b else b))"
  by (auto simp: moves_def run_bind call_def ask_def note_ev_def dest: unmount_table split: prod.splits)

lemma moves_publishNew:
  assumes "\<not> willUseSidecar req"
  shows "moves (publishNew d req cap)
    (\<lambda>r b b'. b' = (if r = None then put_key (pubTargetPath req) (sourceOf (pubTargetPath req)) b else b))"
  unfolding publishNew_def Let_def if_not_P [OF assms]
  by (intro moves_after moves_cases moves_return moves_mount keeps_files keeps_intros keeps_writeTokenFile) auto

lemma keeps_republish:
  assumes "\<not> willUseSidecar req"
  shows "keeps (republish d req minor)"
  unfolding republish_def Let_def if_not_P [OF assms]
  by (intro keeps_intros keeps_files keeps_writeTokenFile)

text \<open>What the check of the target decides: \<open>Inr (0, True)\<close> is a healthy mount.\<close>

lemma targetState_run:
  "targetState d False t = do { mp \<leftarrow> call (mIsMountPoint (mounter d) t) (\<lambda>_. TargetStat t);
     State_Monad.return (case snd mp of
                  None \<Rightarrow> Inr (0, fst mp)
                | Some e \<Rightarrow> if corruptedMnt d e then Inr (0, False)
                    else if e \<noteq> ENOENT then Inl (MountPointCheckFailed e) else Inr (0, fst mp)) }"
  by (simp add: targetState_def)

lemma publish_table:
  assumes "\<not> willUseSidecar req" "run_state (NodePublishVolume d req) s = (r, s')"
    "run_state (mIsMountPoint (mounter d) (pubTargetPath req)) (world s) = (mp, w)"
  shows "table (world s') = (if r = None \<and> publishGuard req = None \<and> mp \<noteq> (True, None)
        \<and> \<not> (\<exists>e. mp = (True, Some e) \<and> \<not> corruptedMnt d e)
      then put_key (pubTargetPath req) (sourceOf (pubTargetPath req)) (table (world s)) else table (world s))"
proof (cases "publishGuard req")
  case None
  have w: "table w = table (world s)" by (rule query_table(1) [OF assms(3)])
  let ?s = "s\<lparr>world := w, log := log s @ [TargetStat (pubTargetPath req)]\<rparr>"
  have run: "run_state (NodePublishVolume d req) s = run_state
      (case (case snd mp of None \<Rightarrow> Inr (0, fst mp)
             | Some e \<Rightarrow> if corruptedMnt d e then Inr (0, False)
                 else if e \<noteq> ENOENT then Inl (MountPointCheckFailed e) else Inr (0, fst mp)) of
         Inl e \<Rightarrow> State_Monad.return (Some e)
       | Inr (minor, mounted) \<Rightarrow>
           if mounted then republish d req minor else publishNew d req (the (the (pubCapability req)))) ?s"
    using assms(1,3) None by (simp add: NodePublishVolume_def targetState_def run_bind call_def ask_def note_ev_def)
  consider (err) e where "mp = (fst mp, Some e)" "\<not> corruptedMnt d e" "e \<noteq> ENOENT"
    | (old) "fst mp" "snd mp = None \<or> snd mp = Some ENOENT \<and> \<not> corruptedMnt d ENOENT"
    | (new) "\<not> fst mp \<and> (snd mp = None \<or> snd mp = Some ENOENT) \<or> (\<exists>e. snd mp = Some e \<and> corruptedMnt d e)"
    by (metis not_None_eq prod.collapse)
  then show ?thesis
  proof cases
    case err
    then show ?thesis using run assms(2) w by (cases mp) auto
  next
    case old
    then have "run_state (republish d req 0) ?s = (r, s')" using run assms(2) by auto
    from keepsD [OF keeps_republish [OF assms(1)] this] old w show ?thesis by (cases mp) auto
  next
    case new
    then have "run_state (publishNew d req (the (the (pubCapability req)))) ?s = (r, s')"
      using run assms(2) by (auto split: if_splits)
    from movesD [OF moves_publishNew [OF assms(1)] this] new None w show ?thesis by (cases mp) auto
  qed
qed (use assms(2) in \<open>simp add: NodePublishVolume_def\<close>)

lemma unpublish_table:
  assumes "run_state (NodeUnpublishVolume d v t) s = (r, s')" "t \<notin> sidecarVolumes (vars s)" "v \<noteq> []" "t \<noteq> []"
    "run_state (mIsMountPoint (mounter d) t) (world s) = (mp, w)"
  shows "table (world s') = (if r = None \<and> (mp = (True, None) \<or> (\<exists>e. snd mp = Some e \<and> corruptedMnt d e))
      then delete_key t (table (world s)) else table (world s))"
proof -
  have w: "table w = table (world s)" by (rule query_table(1) [OF assms(5)])
  let ?s = "s\<lparr>world := w, log := log s @ [TargetStat t]\<rparr>"
  let ?unmount = "do { ue \<leftarrow> call (mUnmount (mounter d) t) (\<lambda>e. MounterUnmount t (e = None)); State_Monad.return (map_option UnmountFailed ue) }"
  have tail: "moves (do { r \<leftarrow> m; _ \<leftarrow> do { cleanupSidecarSocket (hostOf d) v; cleanupTokenFile d v }; State_Monad.return r }) R"
    if "moves m R" for m :: "('w host, 'e nodeErr option) state" and R
    by (rule moves_then [OF that]) (intro keeps_intros keeps_cleanups)
  define body :: "('w host, 'e nodeErr option) state" where "body = (case snd mp of
       Some e \<Rightarrow> if corruptedMnt d e then ?unmount
                 else if e = ENOENT then State_Monad.return None else State_Monad.return (Some (MountPointCheckFailed e))
     | None \<Rightarrow> if \<not> fst mp then
           do { re \<leftarrow> call (osRemove (hostOf d) t) (PathRemoved t);
                State_Monad.return (if re \<noteq> None \<and> re \<noteq> Some ENOENT then Some (TargetRemoveFailed (the re)) else None) }
         else ?unmount)"
  have check: "run_state (call (mIsMountPoint (mounter d) t) (\<lambda>_. TargetStat t)) s = (mp, ?s)"
    using assms(5) by (simp add: run_bind call_def ask_def note_ev_def)
  have mounted: "run_state (unpublishMounted d t) s = run_state body ?s"
    unfolding unpublishMounted_def body_def Let_def by (simp only: run_bind check prod.case)
  have "run_state (do { r \<leftarrow> body; _ \<leftarrow> do { cleanupSidecarSocket (hostOf d) v; cleanupTokenFile d v }; State_Monad.return r }) ?s
      = (r, s')"
    using assms by (simp add: NodeUnpublishVolume_def mounted getVars_def run_bind split: prod.splits)
  moreover have "moves body (\<lambda>r b b'. b' = (if r = None \<and> (mp = (True, None) \<or> (\<exists>e. snd mp = Some e \<and> corruptedMnt d e))
      then delete_key t b else b))"
  proof (cases "mp = (True, None) \<or> (\<exists>e. snd mp = Some e \<and> corruptedMnt d e)")
    case True
    then have "body = ?unmount" by (auto simp: body_def)
    with moves_unmount True show ?thesis by simp
  next
    case False
    have "keeps body"
      using False unfolding body_def by (cases mp) (auto split: option.split intro!: keeps_intros keeps_files)
    with False show ?thesis by (intro moves_keeps) auto
  qed
  ultimately show ?thesis using movesD [OF tail] w by fastforce
qed

end

section \<open>The pod mounter below the node service\<close>

datatype podMountErr = PodMountErr mountErr | PodUnmountErr unmountErr | PodHealthErr healthErr

definition liftErr :: "('e \<Rightarrow> 'f) \<Rightarrow> ('s, 'e option) state \<Rightarrow> ('s, 'f option) state" where
  "liftErr f m = do { r \<leftarrow> m; State_Monad.return (map_option f r) }"

definition podMounter :: "('v, 'q) env \<Rightarrow> 'q pmConfig \<Rightarrow> ('v pm, 'q, podMountErr) Mounter" where
  "podMounter env cfg =
     \<lparr>mMount = (\<lambda>st sid t opts. liftErr PodMountErr (Mount env cfg st sid t opts)),
      mUnmount = (\<lambda>t. liftErr PodUnmountErr (Unmount env t)),
      mIsMountPoint = (\<lambda>t. ask (isMountPoint env t)), mCheckHealth = (\<lambda>t. liftErr PodHealthErr (CheckHealth env t))\<rparr>"

text \<open>The calls of the node service to the kernel and the file system pass the variables of the
  pod mounter by.\<close>

definition liftHost :: "'v hostEnv \<Rightarrow> 'v pm hostEnv" where
  "liftHost h =
     \<lparr>parseMountInfo = ask (parseMountInfo h), procMountinfo = ask (procMountinfo h), getenv = (\<lambda>x. ask (getenv h x)),
      openFuse = ask (openFuse h), ioctlClone = (\<lambda>x y. ask (ioctlClone h x y)), closeFd = (\<lambda>x. ask (closeFd h x)),
      mountFuse = (\<lambda>x y z. ask (mountFuse h x y z)), sysUnmount = (\<lambda>x. ask (sysUnmount h x)),
      osMkdirAll = (\<lambda>x. ask (osMkdirAll h x)), osChown = (\<lambda>x. ask (osChown h x)), osLchown = (\<lambda>x. ask (osLchown h x)),
      osRemove = (\<lambda>x. ask (osRemove h x)), osReadFile = (\<lambda>x. ask (osReadFile h x)), osWriteFile = (\<lambda>x y. ask (osWriteFile h x y)),
      osSymlink = (\<lambda>x y. ask (osSymlink h x y)), osLstat = (\<lambda>x. ask (osLstat h x)), openDir = (\<lambda>x. ask (openDir h x)),
      openat2 = (\<lambda>x y z. ask (openat2 h x y z)), fdWrite = (\<lambda>x y. ask (fdWrite h x y)), fdReadAll = (\<lambda>x. ask (fdReadAll h x)),
      fdChown = (\<lambda>x. ask (fdChown h x)), netListen = (\<lambda>x. ask (netListen h x)), netAccept = (\<lambda>x y. ask (netAccept h x y)),
      closeListener = (\<lambda>x. ask (closeListener h x)), closeConn = (\<lambda>x. ask (closeConn h x)), connFile = (\<lambda>x. ask (connFile h x)),
      sendmsg = (\<lambda>x y z. ask (sendmsg h x y z)), osCreateTemp = (\<lambda>x. ask (osCreateTemp h x)), osRename = (\<lambda>x y. ask (osRename h x y))\<rparr>"

text \<open>\<open>NewDriver\<close>, with the calls that the code reaches through global functions as arguments.\<close>

definition DefaultCacheBase :: string where
  "DefaultCacheBase = ''/var/lib/hf-csi-driver/cache''"

definition NewDriver ::
  "string \<Rightarrow> string \<Rightarrow> ('w, 'q, 'e) Mounter \<Rightarrow> (string \<Rightarrow> ('w, oserr option) state) \<Rightarrow> 'w hostEnv
    \<Rightarrow> (oserr \<Rightarrow> bool) \<Rightarrow> 'q quantityOps \<Rightarrow> ('w, 'q, 'e) Driver" where
  "NewDriver node base m unmount host corrupted ops =
     \<lparr>drvNodeID = node, cacheBase = (if base = [] then DefaultCacheBase else base), mounter = m,
      fuseUnmountFn = unmount, hostOf = host, corruptedMnt = corrupted, drvQuantityOps = ops\<rparr>"

text \<open>The driver of \<open>runNode\<close>: it shares the node and the cache directory with the pod mounter.\<close>

definition nodeDriver :: "('v, 'q) env \<Rightarrow> 'q pmConfig \<Rightarrow> 'v hostEnv \<Rightarrow> ('v pm, 'q, podMountErr) Driver" where
  "nodeDriver env cfg h =
     NewDriver (nodeID cfg) (cacheDir cfg) (podMounter env cfg) (\<lambda>p. ask (fuseUnmount env p)) (liftHost h)
       (isCorruptedMnt env) (quantityOps cfg)"

lemmas nodeDriver_simps = nodeDriver_def NewDriver_def

lemma liftErr_run: "run_state (liftErr f m) s = (r, s') \<Longrightarrow> \<exists>e. r = map_option f e \<and> run_state m s = (e, s')"
  by (auto simp: liftErr_def run_bind split: prod.splits)

lemma ask_vars: "run_state (ask m) s = (r, s') \<Longrightarrow> vars s' = vars s"
  by (auto simp: ask_def split: prod.splits)

lemma eff_CheckHealth: "eff (CheckHealth env t) (\<lambda>_ b' _. b' = b) b"
  unfolding CheckHealth_def Let_def by (intro eff_intros) auto

lemma CheckHealth_vars: "run_state (CheckHealth env t) s = (r, s') \<Longrightarrow> binds s' = binds s"
  using effD [OF eff_CheckHealth] by blast

interpretation node_pods: tracked_mounter "nodeDriver env cfg h" "vars" "\<lambda>t. pathJoin [mountBaseDir, mountID t]"
  for env :: "('v, 'q) env" and cfg :: "'q pmConfig" and h :: "'v hostEnv"
  by unfold_locales
     (auto simp: nodeDriver_simps podMounter_def liftHost_def
       dest!: liftErr_run Mount_binds_cases Unmount_binds_cases CheckHealth_vars dest: ask_vars)

text \<open>
  (C8) Publishing, all the way down: a mount-pod volume that is published through the node service
  is recorded by the pod mounter for its target exactly when the request is valid, the target was
  not a healthy mount already and the call succeeds; a failed or repeated publish leaves every
  recorded bind as it was, whatever the kernel, the file system and the API server answer.
\<close>

theorem publish_through_pod_mounter:
  assumes "run_state (NodePublishVolume (nodeDriver env cfg h) req) s = (r, s')" "\<not> willUseSidecar req"
    "run_state (isMountPoint env (pubTargetPath req)) (world (world s)) = (mp, w)" "mp = (True, None) \<or> \<not> fst mp"
  shows "binds (world s') = (if r = None \<and> publishGuard req = None \<and> mp \<noteq> (True, None)
      then put_key (pubTargetPath req) (pathJoin [mountBaseDir, mountID (pubTargetPath req)]) (binds (world s))
      else binds (world s))"
proof -
  have "run_state (mIsMountPoint (mounter (nodeDriver env cfg h)) (pubTargetPath req)) (world s) = (mp, (world s)\<lparr>world := w\<rparr>)"
    using assms(3) by (simp add: nodeDriver_simps podMounter_def ask_def)
  from node_pods.publish_table [OF assms(2,1) this] assms(4) show ?thesis by auto
qed

text \<open>
  (C9) Unpublishing, all the way down: the pod mounter forgets the bind of the target exactly when
  the target was still a mount, healthy or corrupted, and the call succeeds; an unpublish of a
  target that is no mount any more, or one that fails, leaves every recorded bind.
\<close>

theorem unpublish_through_pod_mounter:
  assumes "run_state (NodeUnpublishVolume (nodeDriver env cfg h) v t) s = (r, s')" "t \<notin> sidecarVolumes (vars s)" "v \<noteq> []" "t \<noteq> []"
    "run_state (isMountPoint env t) (world (world s)) = (mp, w)"
  shows "binds (world s') = (if r = None \<and> (mp = (True, None) \<or> (\<exists>e. snd mp = Some e \<and> isCorruptedMnt env e))
      then delete_key t (binds (world s)) else binds (world s))"
proof -
  have "run_state (mIsMountPoint (mounter (nodeDriver env cfg h)) t) (world s) = (mp, (world s)\<lparr>world := w\<rparr>)"
    using assms(5) by (simp add: nodeDriver_simps podMounter_def ask_def)
  from node_pods.unpublish_table [OF assms(1-4) this] show ?thesis by (simp add: nodeDriver_simps)
qed

section \<open>Instances\<close>

text \<open>Everything is accepted, and only the target \<open>/t\<close> is no mount yet.\<close>

definition freshEnv :: "(unit, nat) env" where
  "freshEnv = (quietEnv PodRunning)\<lparr>isMountPoint := (\<lambda>p. State_Monad.return (p \<noteq> ''/t'', None))\<rparr>"

definition podRequest :: publishRequest where
  "podRequest =
     \<lparr>pubVolumeId = ''v'', pubTargetPath = ''/t'',
      pubCapability = Some (Some \<lparr>capMountFlags = [''read-only''], capVolumeMountGroup = []\<rparr>),
      pubVolumeContext = [volumeCtxSourceType \<mapsto> ''bucket'', volumeCtxSourceID \<mapsto> ''o/d'', volumeCtxMountMode \<mapsto> MountModeMountPod],
      pubSecrets = Map.empty, pubReadonly = False\<rparr>"

definition stackedState :: "unit pm host" where
  "stackedState = \<lparr>vars = \<lparr>sidecarVolumes = {}, pendingSidecarMinors = {}\<rparr>,
     world = \<lparr>vars = [(''/u'', ''/s'')], world = (), log = []\<rparr>, log = []\<rparr>"

lemma podRequest_facts:
  "\<not> willUseSidecar podRequest" "publishGuard podRequest = None" "pubTargetPath podRequest = ''/t''"
  "publishToken podRequest = []" "lookupStr (pubVolumeContext podRequest) volumeCtxSourceType = ''bucket''"
  by (simp_all add: willUseSidecar_def publishGuard_def podRequest_def getWithDefault_def lookupStr_def volumeCtx_defs
      publishToken_def Let_def)

lemma Mount_fresh_ok: "fst (run_state (Mount freshEnv sampleCfg ''bucket'' sid ''/t'' opts) s) = None"
proof -
  have "buildArgs ''bucket'' sid (''/mnt/hf/'' @ mountID ''/t'') opts \<noteq> Inl e" for e
    by (simp add: buildArgs_error_iff)
  then obtain args where args: "buildArgs ''bucket'' sid (''/mnt/hf/'' @ mountID ''/t'') opts = Inr args"
    by (metis sum.exhaust)
  have src: "pathJoin [mountBaseDir, mountID ''/t''] \<noteq> ''/t''" unfolding sourcePath_eq unfolding mountBaseDir_def by simp
  show ?thesis
    unfolding Mount_def Let_def args
    by (simp add: freshEnv_def quietEnv_def quietCrd_def phasePod_def run_bind call_def ask_def note_ev_def getVars_def setVars_def
        addWorkload_quiet [unfolded quietCrd_def] crd_create_def mountBody_def ensurePod_def src
        waitForPodRunning.simps waitForMount.simps stackBind_def crd_updateStatus_def mountCleanup_def)
qed

lemma publish_fresh_ok:
  "fst (run_state (NodePublishVolume (nodeDriver freshEnv sampleCfg (sampleHost acc)) podRequest) stackedState) = None"
proof -
  have "fst (run_state (mMount (mounter (nodeDriver freshEnv sampleCfg (sampleHost acc))) ''bucket'' sid ''/t'' opts) w) = None" for sid opts w
    using Mount_fresh_ok by (simp add: nodeDriver_simps podMounter_def liftErr_def run_bind case_prod_beta)
  moreover have "run_state (mIsMountPoint (mounter (nodeDriver freshEnv sampleCfg (sampleHost acc))) ''/t'') w = ((False, None), w)" for w
    by (simp add: nodeDriver_simps podMounter_def ask_def freshEnv_def)
  moreover have "hostOf (nodeDriver freshEnv sampleCfg (sampleHost acc)) = liftHost (sampleHost acc)" by (simp add: nodeDriver_simps)
  ultimately show ?thesis
    by (simp add: NodePublishVolume_def targetState_def publishNew_def Let_def podRequest_facts run_bind call_def note_ev_def
        ask_def case_prod_beta)
qed

theorem publish_through_pod_mounter_witness:
  "\<exists>s'. run_state (NodePublishVolume (nodeDriver freshEnv sampleCfg (sampleHost (Inr 1))) podRequest) stackedState = (None, s')
     \<and> binds (world s') = [(''/u'', ''/s''), (''/t'', pathJoin [mountBaseDir, mountID ''/t''])]"
proof -
  obtain s' where r: "run_state (NodePublishVolume (nodeDriver freshEnv sampleCfg (sampleHost (Inr 1))) podRequest) stackedState = (None, s')"
    using publish_fresh_ok by (metis prod.collapse)
  have mp: "run_state (isMountPoint freshEnv (pubTargetPath podRequest)) w = ((False, None), w)" for w
    by (simp add: freshEnv_def podRequest_facts)
  have "binds (world s') = put_key ''/t'' (pathJoin [mountBaseDir, mountID ''/t'']) (binds (world stackedState))"
    using publish_through_pod_mounter [OF r podRequest_facts(1) mp] by (simp add: podRequest_facts)
  with r show ?thesis by (simp add: stackedState_def)
qed

lemma unpublish_quiet_ok:
  "t \<notin> sidecarVolumes (vars s) \<Longrightarrow> t = ''/t'' \<Longrightarrow>
     fst (run_state (NodeUnpublishVolume (nodeDriver (quietEnv ph) sampleCfg (sampleHost acc)) ''v'' t) s) = None"
proof -
  have "fst (run_state (mUnmount (mounter (nodeDriver (quietEnv ph) sampleCfg (sampleHost acc))) ''/t'') w) = None" for w
    using Unmount_quiet_ok by (simp add: nodeDriver_simps podMounter_def liftErr_def run_bind case_prod_beta)
  moreover have "run_state (mIsMountPoint (mounter (nodeDriver (quietEnv ph) sampleCfg (sampleHost acc))) p) w = ((True, None), w)" for p w
    by (simp add: nodeDriver_simps podMounter_def ask_def quietEnv_def)
  moreover assume "t \<notin> sidecarVolumes (vars s)" "t = ''/t''"
  ultimately show ?thesis
    by (simp add: NodeUnpublishVolume_def unpublishMounted_def Let_def run_bind call_def note_ev_def getVars_def
        ask_def case_prod_beta)
qed

theorem unpublish_through_pod_mounter_witness:
  "\<exists>s'. run_state (NodeUnpublishVolume (nodeDriver (quietEnv PodRunning) sampleCfg (sampleHost (Inr 1))) ''v'' ''/t'')
        (stackedState\<lparr>world := \<lparr>vars = [(''/u'', ''/s''), (''/t'', ''/s'')], world = (), log = []\<rparr>\<rparr>) = (None, s')
     \<and> binds (world s') = [(''/u'', ''/s'')]"
proof -
  let ?s = "stackedState\<lparr>world := \<lparr>vars = [(''/u'', ''/s''), (''/t'', ''/s'')], world = (), log = []\<rparr>\<rparr>"
  obtain s' where r: "run_state (NodeUnpublishVolume (nodeDriver (quietEnv PodRunning) sampleCfg (sampleHost (Inr 1))) ''v'' ''/t'') ?s
      = (None, s')"
    using unpublish_quiet_ok [of "''/t''" ?s PodRunning "Inr 1"] by (cases "run_state (NodeUnpublishVolume (nodeDriver (quietEnv PodRunning)
      sampleCfg (sampleHost (Inr 1))) ''v'' ''/t'') ?s") (simp add: stackedState_def)
  have mp: "run_state (isMountPoint (quietEnv PodRunning) ''/t'') w = ((True, None), w)" for w by (simp add: quietEnv_def)
  from unpublish_through_pod_mounter [OF r _ _ _ mp] r show ?thesis by (simp add: stackedState_def)
qed

end
