(* ===== verification/Pod_Cleanup.thy ===== *)
theory Pod_Cleanup
  imports Pod_Mounter
begin

text \<open>
  The background work of the pod mounter (\<open>pkg/driver/podmounter.go\<close>): reacting to changes of
  mount pods, cleaning up sources nobody uses, healing sources whose pod died, rebinding targets,
  the periodic scans and the recovery after a restart. A \<open>go\<close> statement is an event \<open>Spawn\<close>; the
  task runs later, under the source lock where the code takes it. The iteration order of Go maps
  is the order of the association lists, which the theorems leave open.
\<close>

section \<open>References to a source\<close>

definition listLivePodUIDsOnNode :: "('w, 'q) env \<Rightarrow> 'q pmConfig \<Rightarrow> ('w pm, kerr + string list) state" where
  "listLivePodUIDsOnNode env cfg =
     do { r \<leftarrow> ask (nodePodList env (nodeID cfg));
          let uids = (case r of Inl e \<Rightarrow> Inl e | Inr pods \<Rightarrow> Inr (map podUID (filter (\<lambda>p. \<not> isPodTerminal p) pods)));
          note_ev (LivePodsRead (case uids of Inl _ \<Rightarrow> None | Inr us \<Rightarrow> Some us));
          State_Monad.return uids }"

fun dropRefs :: "('w, 'q) env \<Rightarrow> string list \<Rightarrow> string list \<Rightarrow> ('w pm, string list) state" where
  "dropRefs env live [] = State_Monad.return []"
| "dropRefs env live (ref # refs) =
     (let uid = podUIDFromTarget ref in
      if uid = [] \<or> uid \<in> set live
      then do { alive \<leftarrow> dropRefs env live refs; State_Monad.return (ref # alive) }
      else
        do { unmountAll env ref;
             mp \<leftarrow> ask (isMountPoint env ref);
             let stillMounted = (fst mp \<or> snd mp \<noteq> None \<and> snd mp \<noteq> Some ENOENT);
             if stillMounted then do { alive \<leftarrow> dropRefs env live refs; State_Monad.return (ref # alive) }
             else do { b \<leftarrow> getVars; setVars (delete_key ref b); dropRefs env live refs } })"

definition dropDeadPodRefs :: "('w, 'q) env \<Rightarrow> 'q pmConfig \<Rightarrow> string list \<Rightarrow> ('w pm, string list) state" where
  "dropDeadPodRefs env cfg refs =
     (if refs = [] then State_Monad.return refs
      else
        do { live \<leftarrow> listLivePodUIDsOnNode env cfg;
             case live of Inl _ \<Rightarrow> State_Monad.return refs | Inr us \<Rightarrow> dropRefs env us refs })"

definition targetsOfSource :: "string \<Rightarrow> (string, string) gomap \<Rightarrow> string list" where
  "targetsOfSource source b = map fst (filter (\<lambda>ts. snd ts = source) b)"

fun unmountTargets :: "('w, 'q) env \<Rightarrow> string list \<Rightarrow> ('w pm, unit) state" where
  "unmountTargets env [] = State_Monad.return ()"
| "unmountTargets env (t # ts) = do { unmountAll env t; unmountTargets env ts }"

definition releaseSource :: "('w, 'q) env \<Rightarrow> string \<Rightarrow> ('w pm, unit) state" where
  "releaseSource env mountPath =
     do { unmountAll env mountPath;
          b \<leftarrow> getVars;
          let staleTargets = targetsOfSource mountPath b;
          setVars (fold delete_key staleTargets b);
          unmountTargets env staleTargets;
          _ \<leftarrow> call (removePath env mountPath) (Removed mountPath);
          State_Monad.return () }"

definition cleanupSource :: "('w, 'q) env \<Rightarrow> 'q pmConfig \<Rightarrow> string \<Rightarrow> ('w pm, unit) state" where
  "cleanupSource env cfg mountPath =
     do { note_ev (LockSource mountPath);
          r \<leftarrow> ask (getMountRefs env mountPath);
          note_ev (RefsRead mountPath (case r of Inl _ \<Rightarrow> None | Inr refs \<Rightarrow> Some refs));
          (case r of
             Inl _ \<Rightarrow> State_Monad.return ()
           | Inr refs \<Rightarrow>
               do { alive \<leftarrow> dropDeadPodRefs env cfg refs;
                    if alive \<noteq> [] then note_ev (Spawn (HealSource mountPath))
                    else releaseSource env mountPath });
          note_ev (UnlockSource mountPath) }"

section \<open>Rebinding\<close>

text \<open>The target is looked up again before each rebind, as the code does.\<close>

fun rebindLoop :: "('w, 'q) env \<Rightarrow> string \<Rightarrow> string list \<Rightarrow> ('w pm, unit) state" where
  "rebindLoop env mountPath [] = State_Monad.return ()"
| "rebindLoop env mountPath (target # ts) =
     do { b \<leftarrow> getVars;
          if map_of b target \<noteq> Some mountPath then rebindLoop env mountPath ts
          else
            do { mi \<leftarrow> ask (selfMountinfo env);
                 if boundToCurrentSource mi target mountPath then rebindLoop env mountPath ts
                 else do { _ \<leftarrow> stackBind env mountPath target; rebindLoop env mountPath ts } } }"

definition rebindTargets :: "('w, 'q) env \<Rightarrow> string \<Rightarrow> ('w pm, unit) state" where
  "rebindTargets env mountPath =
     do { note_ev (LockSource mountPath);
          ok \<leftarrow> pollUntilMounted env mountPath 30;
          whenM ok (do { b \<leftarrow> getVars; rebindLoop env mountPath (targetsOfSource mountPath b) });
          note_ev (UnlockSource mountPath) }"

section \<open>Healing\<close>

text \<open>What \<open>tryHealSource\<close> reads from the CRD: source type and ID, arguments, resources.\<close>

definition healSpec ::
  "'q quantityOps \<Rightarrow> (string, json) gomap option \<Rightarrow> (string \<times> string \<times> string list \<times> 'q MountResources) option" where
  "healSpec ops spec =
     (let rawArgs = asList (specAt spec ''mountArgs'') in
      if rawArgs = [] then None
      else Some (asString (specAt spec ''sourceType''), asString (specAt spec ''sourceID''),
        List.map_filter (\<lambda>a. case a of JString s \<Rightarrow> Some s | _ \<Rightarrow> None) rawArgs,
        (case specAt spec ''resources'' of Some (JMap raw) \<Rightarrow> MountResourcesFromUnstructured ops raw | _ \<Rightarrow> noResources)))"

definition recreatePod :: "('w, 'q) env \<Rightarrow> 'q mountPod \<Rightarrow> string \<Rightarrow> string \<Rightarrow> bool \<Rightarrow> ('w pm, unit) state" where
  "recreatePod env pod name mountPath stale =
     do { gone \<leftarrow> (if stale then
                    do { _ \<leftarrow> call (podDelete env name) (\<lambda>_. PodDelete name);
                         n \<leftarrow> ask (ticks env);
                         waitForPodDeletion env name n }
                  else State_Monad.return True);
          whenM gone
            (do { ce \<leftarrow> call (podCreate env pod) (PodCreate name);
                  whenM (ce = None)
                    (do { n \<leftarrow> ask (ticks env);
                          we \<leftarrow> waitForPodRunning env name n;
                          case we of
                            Some _ \<Rightarrow> do { _ \<leftarrow> call (podDelete env name) (\<lambda>_. PodDelete name); State_Monad.return () }
                          | None \<Rightarrow> rebindTargets env mountPath }) }) }"

definition tryHealSource :: "('w, 'q) env \<Rightarrow> 'q pmConfig \<Rightarrow> string \<Rightarrow> ('w pm, unit) state" where
  "tryHealSource env cfg mountPath =
     (let volumeID = Base mountPath; name = mountPodPrefix @ volumeID; crdName = hfMountName volumeID in
      do { r \<leftarrow> ask (podGet env name);
           let heal = (\<lambda>stale.
             do { s \<leftarrow> ask (crd_get (crd env) crdName);
                  case s of
                    Inl _ \<Rightarrow> State_Monad.return ()
                  | Inr spec \<Rightarrow>
                      (case healSpec (quantityOps cfg) spec of
                         None \<Rightarrow> State_Monad.return ()
                       | Some (st, sid, args, res) \<Rightarrow>
                           recreatePod env (buildMountPod cfg name volumeID st sid mountPath args res) name mountPath stale) });
           case r of
             Inl e \<Rightarrow> if e \<noteq> NotFound then State_Monad.return () else heal False
           | Inr pod \<Rightarrow>
               if \<not> podDeletionTimestamp pod \<and> \<not> isPodTerminal pod then rebindTargets env mountPath else heal True })"

section \<open>Adoption\<close>

definition adoptRef :: "string \<Rightarrow> (string, string) gomap \<times> string list \<Rightarrow> string \<Rightarrow> (string, string) gomap \<times> string list" where
  "adoptRef mountPath st ref =
     (if ref = mountPath then st
      else if map_of (fst st) ref = None then (put_key ref mountPath (fst st), snd st @ [ref])
      else st)"

fun registerRestored :: "('w, 'q) env \<Rightarrow> string \<Rightarrow> string list \<Rightarrow> ('w pm, unit) state" where
  "registerRestored env crdName [] = State_Monad.return ()"
| "registerRestored env crdName (ref # refs) =
     (let uid = podUIDFromTarget ref in
      do { whenM (uid \<noteq> []) (call (addWorkload (crd env) crdName uid ref) (AddWorkload crdName uid ref));
           registerRestored env crdName refs })"

definition lateAdopt :: "('w, 'q) env \<Rightarrow> string \<Rightarrow> ('w pm, unit) state" where
  "lateAdopt env mountPath =
     do { ok \<leftarrow> pollUntilMounted env mountPath 15;
          whenM ok
            (do { r \<leftarrow> ask (getMountRefs env mountPath);
                  note_ev (RefsRead mountPath (case r of Inl _ \<Rightarrow> None | Inr refs \<Rightarrow> Some refs));
                  case r of
                    Inl _ \<Rightarrow> State_Monad.return ()
                  | Inr refs \<Rightarrow>
                      do { b \<leftarrow> getVars;
                           let adopted = foldl (adoptRef mountPath) (b, []) refs;
                           setVars (fst adopted);
                           registerRestored env (hfMountName (Base mountPath)) (snd adopted);
                           note_ev (Spawn (RebindTargets mountPath)) } }) }"

fun retryRefs :: "('w, 'q) env \<Rightarrow> string \<Rightarrow> nat \<Rightarrow> ('w pm, string list) state" where
  "retryRefs env mountPath 0 = State_Monad.return []"
| "retryRefs env mountPath (Suc n) =
     do { r \<leftarrow> ask (getMountRefs env mountPath);
          note_ev (RefsRead mountPath (case r of Inl _ \<Rightarrow> None | Inr refs \<Rightarrow> Some refs));
          case r of Inl _ \<Rightarrow> retryRefs env mountPath n | Inr refs \<Rightarrow> State_Monad.return refs }"

fun crdTargets :: "('w, 'q) env \<Rightarrow> json list \<Rightarrow> ('w pm, string list) state" where
  "crdTargets env [] = State_Monad.return []"
| "crdTargets env (w # ws) =
     (let path = asString (wField w ''targetPath'') in
      if path = [] then crdTargets env ws
      else
        do { e \<leftarrow> ask (statPath env (Dir path));
             rest \<leftarrow> crdTargets env ws;
             State_Monad.return (if e = Some ENOENT then rest else path # rest) })"

definition adoptSource :: "('w, 'q) env \<Rightarrow> string \<Rightarrow> ('w pm, unit) state" where
  "adoptSource env mountPath =
     do { refs \<leftarrow> retryRefs env mountPath 3;
          s \<leftarrow> ask (crd_get (crd env) (hfMountName (Base mountPath)));
          targets \<leftarrow> (case s of Inl _ \<Rightarrow> State_Monad.return [] | Inr spec \<Rightarrow> crdTargets env (workloadsOf spec));
          b \<leftarrow> getVars;
          setVars (fold (\<lambda>ref. put_key ref mountPath) (filter (\<lambda>ref. ref \<noteq> mountPath) refs @ targets) b);
          note_ev (Spawn (RebindTargets mountPath)) }"

definition recoverPod :: "('w, 'q) env \<Rightarrow> ('q, 'x) pod_scheme \<Rightarrow> ('w pm, unit) state" where
  "recoverPod env pod =
     (let mountPath = lookupStr (podAnnotations pod) annotMountPath in
      if mountPath = [] \<or> podDeletionTimestamp pod then State_Monad.return ()
      else
        do { mp \<leftarrow> ask (isMountPoint env mountPath);
             case snd mp of
               Some e \<Rightarrow>
                 whenM (isCorruptedMnt env e)
                   (do { _ \<leftarrow> call (fuseUnmount env mountPath) (Unmounted mountPath);
                         call (podDelete env (podName pod)) (\<lambda>_. PodDelete (podName pod)) })
             | None \<Rightarrow>
                 if fst mp then adoptSource env mountPath
                 else if isPodTerminal pod then
                   do { _ \<leftarrow> call (podDelete env (podName pod)) (\<lambda>_. PodDelete (podName pod)); State_Monad.return () }
                 else
                   do { ok \<leftarrow> pollUntilMounted env mountPath 30;
                        if ok then adoptSource env mountPath else State_Monad.return () } })"

fun recoverPods :: "('w, 'q) env \<Rightarrow> 'q pod list \<Rightarrow> ('w pm, unit) state" where
  "recoverPods env [] = State_Monad.return ()"
| "recoverPods env (p # ps) = do { recoverPod env p; recoverPods env ps }"

text \<open>The goroutines of \<open>Recover\<close> touch \<open>binds\<close> once each, under its mutex; one order of them is
  modelled, the order of the list, which is itself arbitrary.\<close>

definition Recover :: "('w, 'q) env \<Rightarrow> 'q pmConfig \<Rightarrow> ('w pm, kerr option) state" where
  "Recover env cfg =
     do { r \<leftarrow> ask (podList env (sanitizeLabelValue (nodeID cfg)));
          case r of
            Inl e \<Rightarrow> State_Monad.return (Some e)
          | Inr pods \<Rightarrow> do { recoverPods env pods; State_Monad.return None } }"

section \<open>Events of mount pods\<close>

definition podAdded :: "('q, 'x) pod_scheme \<Rightarrow> ('w pm, unit) state" where
  "podAdded pod =
     (let mountPath = lookupStr (podAnnotations pod) annotMountPath in
      if mountPath = [] \<or> podStatusPhase pod \<noteq> PodRunning then State_Monad.return ()
      else
        do { b \<leftarrow> getVars;
             whenM (\<not> list_ex (\<lambda>ts. snd ts = mountPath) b) (note_ev (Spawn (LateAdopt mountPath))) })"

definition handlePodUpdate :: "('q, 'x) pod_scheme \<Rightarrow> ('q, 'x) pod_scheme \<Rightarrow> ('w pm, unit) state" where
  "handlePodUpdate oldPod newPod =
     (let mountPath = lookupStr (podAnnotations newPod) annotMountPath;
          phaseChanged = podStatusPhase oldPod \<noteq> podStatusPhase newPod;
          restarted = sint (totalRestartCount oldPod) < sint (totalRestartCount newPod)
      in if mountPath = [] then State_Monad.return ()
         else
           do { whenM (podStatusPhase newPod = PodRunning \<and> (phaseChanged \<or> restarted))
                  (note_ev (Spawn (RebindTargets mountPath)));
                whenM (phaseChanged \<and> isPodTerminal newPod) (note_ev (Spawn (CleanupSource mountPath))) })"

definition handlePodDelete :: "('w, 'q) env \<Rightarrow> 'q pmConfig \<Rightarrow> ('q, 'x) pod_scheme \<Rightarrow> ('w pm, unit) state" where
  "handlePodDelete env cfg pod =
     (let mountPath = lookupStr (podAnnotations pod) annotMountPath in
      if mountPath = [] then State_Monad.return () else cleanupSource env cfg mountPath)"

section \<open>Periodic scans\<close>

text \<open>A pod that serves its mount: neither finished nor being deleted.\<close>

definition servingPod :: "('q, 'x) pod_scheme \<Rightarrow> bool" where
  "servingPod p = (\<not> isPodTerminal p \<and> \<not> podDeletionTimestamp p)"

text \<open>The map \<open>podsByName\<close>: empty when the list failed, the last pod of a name otherwise.\<close>

definition scanEntry :: "('w, 'q) env \<Rightarrow> 'q pmConfig \<Rightarrow> 'q pod list \<Rightarrow> string \<times> bool \<Rightarrow> ('w pm, unit) state" where
  "scanEntry env cfg pods entry =
     (let mountPath = pathJoin [mountBaseDir, fst entry]; name = mountPodPrefix @ fst entry;
          pod = find (\<lambda>p. podName p = name) (rev pods) in
      if \<not> snd entry then State_Monad.return ()
      else
        do { mp \<leftarrow> ask (isMountPoint env mountPath);
             let corrupted = (case snd mp of None \<Rightarrow> False | Some e \<Rightarrow> isCorruptedMnt env e);
             if snd mp \<noteq> None \<and> \<not> corrupted then State_Monad.return ()
             else if \<not> fst mp \<and> \<not> corrupted then State_Monad.return ()
             else case pod of
                 None \<Rightarrow> cleanupSource env cfg mountPath
               | Some p \<Rightarrow>
                   if \<not> servingPod p then cleanupSource env cfg mountPath else State_Monad.return () })"

fun scanEntries :: "('w, 'q) env \<Rightarrow> 'q pmConfig \<Rightarrow> 'q pod list \<Rightarrow> (string \<times> bool) list \<Rightarrow> ('w pm, unit) state" where
  "scanEntries env cfg pods [] = State_Monad.return ()"
| "scanEntries env cfg pods (e # es) = do { scanEntry env cfg pods e; scanEntries env cfg pods es }"

definition runCleanupScan :: "('w, 'q) env \<Rightarrow> 'q pmConfig \<Rightarrow> ('w pm, unit) state" where
  "runCleanupScan env cfg =
     do { d \<leftarrow> ask (readDirEntries env mountBaseDir);
          case d of
            Inl _ \<Rightarrow> State_Monad.return ()
          | Inr entries \<Rightarrow>
              do { r \<leftarrow> ask (podList env (sanitizeLabelValue (nodeID cfg)));
                   note_ev (MountPodsRead (case r of Inl _ \<Rightarrow> None | Inr pods \<Rightarrow> Some (map (\<lambda>p. (podName p, servingPod p)) pods)));
                   scanEntries env cfg (case r of Inl _ \<Rightarrow> [] | Inr pods \<Rightarrow> pods) entries } }"

definition staleAfter :: int where
  "staleAfter = 2 * 60 * int second"

text \<open>The result of the stale cleaner is logged: the entries that remain, if it succeeded.\<close>

definition staleCRD :: "('w, 'q) env \<Rightarrow> string list \<Rightarrow> hfObj \<Rightarrow> ('w pm, unit) state" where
  "staleCRD env live item =
     (let name = objName item; mountPath = asString (specAt (objSpec item) ''mountPath'');
          pod = asString (specAt (objSpec item) ''mountPodName'') in
      do { r \<leftarrow> call (removeStaleWorkloads (crd env) name (\<lambda>uid. uid \<in> set live) staleAfter)
                  (\<lambda>r. StaleRemoved name (if snd r = None then Some (fst r) else None));
           if snd r \<noteq> None \<or> 0 < fst r then State_Monad.return ()
           else
             do { p \<leftarrow> ask (podGet env pod);
                  case p of
                    Inl e \<Rightarrow>
                      if e = NotFound then
                        do { whenM (mountPath \<noteq> [])
                               (do { _ \<leftarrow> call (fuseUnmount env mountPath) (Unmounted mountPath);
                                     call (removePath env mountPath) (Removed mountPath) });
                             _ \<leftarrow> call (crd_delete (crd env) name) (\<lambda>_. CrdDelete name);
                             State_Monad.return () }
                      else State_Monad.return ()
                  | Inr _ \<Rightarrow> do { _ \<leftarrow> call (podDelete env pod) (\<lambda>_. PodDelete pod); State_Monad.return () } } })"

fun staleCRDs :: "('w, 'q) env \<Rightarrow> string list \<Rightarrow> hfObj list \<Rightarrow> ('w pm, unit) state" where
  "staleCRDs env live [] = State_Monad.return ()"
| "staleCRDs env live (i # is) = do { staleCRD env live i; staleCRDs env live is }"

definition cleanupStaleCRDs :: "('w, 'q) env \<Rightarrow> 'q pmConfig \<Rightarrow> ('w pm, unit) state" where
  "cleanupStaleCRDs env cfg =
     do { r \<leftarrow> ask (crd_list (crd env) (nodeID cfg));
          case r of
            Inl _ \<Rightarrow> State_Monad.return ()
          | Inr crds \<Rightarrow>
              if crds = [] then State_Monad.return ()
              else
                do { l \<leftarrow> listLivePodUIDsOnNode env cfg;
                     case l of Inl _ \<Rightarrow> State_Monad.return () | Inr live \<Rightarrow> staleCRDs env live crds } }"

text \<open>One tick of \<open>periodicCleanup\<close>.\<close>

definition periodicTick :: "('w, 'q) env \<Rightarrow> 'q pmConfig \<Rightarrow> ('w pm, unit) state" where
  "periodicTick env cfg = do { runCleanupScan env cfg; cleanupStaleCRDs env cfg }"

end
