(* ===== verification/Cleanup_Proofs.thy ===== *)
theory Cleanup_Proofs
  imports Pod_Cleanup
begin

text \<open>
  Theorems on the background work of the pod mounter: a source in use is never released, a
  healed pod is the pod that was mounted, rebinding only stacks, adoption never steals a bind, and
  what the periodic scans delete.
\<close>

section \<open>Releasing a source\<close>

definition dead :: "string list \<Rightarrow> string \<Rightarrow> bool" where
  "dead live ref \<longleftrightarrow> podUIDFromTarget ref \<noteq> [] \<and> podUIDFromTarget ref \<notin> set live"

definition dropLog ::
  "string list \<Rightarrow> string list \<Rightarrow> string list \<Rightarrow> (string, string) gomap \<Rightarrow> (string, string) gomap \<Rightarrow> event list \<Rightarrow> bool" where
  "dropLog live refs alive b b' evs \<longleftrightarrow>
     (\<forall>ev\<in>set evs. \<exists>ref e. ev = Unmounted ref e \<and> ref \<in> set refs \<and> dead live ref)
     \<and> set alive \<subseteq> set refs \<and> {ref \<in> set refs. \<not> dead live ref} \<subseteq> set alive
     \<and> (\<exists>gone. set refs - set alive \<subseteq> gone \<and> gone \<subseteq> {ref \<in> set refs. dead live ref}
          \<and> b' = filter (\<lambda>ts. fst ts \<notin> gone) b)"

lemma delete_key_filter: "delete_key k m = filter (\<lambda>ts. fst ts \<noteq> k) m"
  by (simp add: AList.delete_eq) (metis (mono_tags, lifting) case_prod_beta filter_cong)

lemma popped_only: "popped path n evs \<Longrightarrow> \<forall>ev\<in>set evs. \<exists>e. ev = Unmounted path e"
  using set_popped by blast

lemma dropLog_kept:
  assumes "dropLog live refs alive b b' evs" "\<forall>ev\<in>set pops. \<exists>e. ev = Unmounted ref e" "pops = [] \<or> dead live ref"
  shows "dropLog live (ref # refs) (ref # alive) b b' (pops @ evs)"
proof -
  obtain gone where "set refs - set alive \<subseteq> gone" "gone \<subseteq> {ref \<in> set refs. dead live ref}" "b' = filter (\<lambda>ts. fst ts \<notin> gone) b"
    using assms(1) unfolding dropLog_def by blast
  then have "\<exists>gone. set (ref # refs) - set (ref # alive) \<subseteq> gone \<and> gone \<subseteq> {r \<in> set (ref # refs). dead live r}
      \<and> b' = filter (\<lambda>ts. fst ts \<notin> gone) b" by (intro exI [of _ gone]) auto
  then show ?thesis using assms unfolding dropLog_def by auto
qed

lemma dropLog_gone:
  assumes "dropLog live refs alive (delete_key ref b) b' evs" "\<forall>ev\<in>set pops. \<exists>e. ev = Unmounted ref e" "dead live ref"
  shows "dropLog live (ref # refs) alive b b' (pops @ evs)"
proof -
  obtain gone where "set refs - set alive \<subseteq> gone" "gone \<subseteq> {ref \<in> set refs. dead live ref}"
      "b' = filter (\<lambda>ts. fst ts \<notin> gone) (delete_key ref b)"
    using assms(1) unfolding dropLog_def by blast
  then have "\<exists>gone. set (ref # refs) - set alive \<subseteq> gone \<and> gone \<subseteq> {r \<in> set (ref # refs). dead live r}
      \<and> b' = filter (\<lambda>ts. fst ts \<notin> gone) b"
    using assms(3) by (intro exI [of _ "insert ref gone"]) (auto simp: delete_key_filter)
  then show ?thesis using assms unfolding dropLog_def by auto
qed

lemma eff_dropRefs:
  "eff (dropRefs env live refs) (\<lambda>alive b' evs. dropLog live refs alive b b' evs) b"
proof (induction refs arbitrary: b)
  case Nil
  show ?case by (auto simp: dropLog_def intro!: eff_intros)
next
  case (Cons ref refs)
  show ?case
    unfolding dropRefs.simps Let_def
    apply (intro eff_intros eff_mono [OF Cons])
    subgoal for alive b' evs using dropLog_kept [of live refs alive b b' evs "[]" ref] by simp
    subgoal for pops mp alive b' evs
      using dropLog_kept [of live refs alive b b' evs pops ref] by (auto simp: dead_def dest: popped_only)
    subgoal for pops mp alive b' evs
      using dropLog_gone [of live refs alive ref b b' evs pops] by (auto simp: dead_def dest: popped_only)
    done
qed

text \<open>What \<open>cleanupSource\<close> has decided on: the references, and the live pods when it asked.\<close>

definition releasedLog :: "string \<Rightarrow> string list \<Rightarrow> event list \<Rightarrow> bool" where
  "releasedLog src stale evs \<longleftrightarrow>
     (\<exists>pops rest e. popped src 32 pops \<and> evs = pops @ rest @ [Removed src e]
        \<and> (\<forall>ev\<in>set rest. \<exists>t e. ev = Unmounted t e \<and> t \<in> set stale))"

lemma eff_unmountTargets:
  "eff (unmountTargets env ts) (\<lambda>_ b' evs. b' = b \<and> (\<forall>ev\<in>set evs. \<exists>t e. ev = Unmounted t e \<and> t \<in> set ts)) b"
proof (induction ts)
  case Nil
  show ?case by (auto intro!: eff_intros)
next
  case (Cons t ts)
  show ?case
    unfolding unmountTargets.simps
    by (intro eff_intros eff_mono [OF Cons]) (use popped_only [of t 32] in fastforce)
qed

lemma fold_delete: "fold delete_key ks b = filter (\<lambda>ts. fst ts \<notin> set ks) b"
  by (induction ks arbitrary: b) (auto simp: delete_key_filter conj_commute intro: filter_cong)

lemma set_targetsOfSource: "set (targetsOfSource src b) = {t. (t, src) \<in> set b}"
  by (force simp: targetsOfSource_def)

lemma releasedLogI:
  assumes "popped src 32 pops" "\<forall>ev\<in>set rest. \<exists>t e. ev = Unmounted t e \<and> t \<in> set stale"
  shows "releasedLog src stale (pops @ rest @ [Removed src e])"
  unfolding releasedLog_def using assms by blast

lemma eff_releaseSource [eff_intros]:
  assumes "\<And>evs. releasedLog src (targetsOfSource src b) evs \<Longrightarrow>
    Q () (filter (\<lambda>ts. (fst ts, src) \<notin> set b) b) evs"
  shows "eff (releaseSource env src) Q b"
proof -
  have b: "fold delete_key (targetsOfSource src b) b = filter (\<lambda>ts. (fst ts, src) \<notin> set b) b"
    by (simp add: fold_delete set_targetsOfSource)
  show ?thesis
    unfolding releaseSource_def Let_def b
    apply (intro eff_intros eff_mono [OF eff_unmountTargets])
    subgoal for pops u b' evs e using assms [OF releasedLogI [of src pops evs]] by (simp add: b)
    done
qed

definition dropsLog ::
  "string list \<Rightarrow> string list \<Rightarrow> (string, string) gomap \<Rightarrow> (string, string) gomap \<Rightarrow> event list \<Rightarrow> bool" where
  "dropsLog refs alive b b' evs \<longleftrightarrow>
     (refs = [] \<and> alive = [] \<and> evs = [] \<and> b' = b)
     \<or> (evs = [LivePodsRead None] \<and> alive = refs \<and> b' = b)
     \<or> (\<exists>live d. evs = LivePodsRead (Some live) # d \<and> dropLog live refs alive b b' d)"

lemma eff_dropDeadPodRefs [eff_intros]:
  assumes "\<And>alive b' evs. dropsLog refs alive b b' evs \<Longrightarrow> Q alive b' evs"
  shows "eff (dropDeadPodRefs env cfg refs) Q b"
  unfolding dropDeadPodRefs_def listLivePodUIDsOnNode_def Let_def
  by (intro eff_intros eff_mono [OF eff_dropRefs]) (auto intro!: assms simp: dropsLog_def)

definition cleanupLog :: "string \<Rightarrow> (string, string) gomap \<Rightarrow> (string, string) gomap \<Rightarrow> event list \<Rightarrow> bool" where
  "cleanupLog src b b' evs \<longleftrightarrow>
     (evs = [LockSource src, RefsRead src None, UnlockSource src] \<and> b' = b)
     \<or> (\<exists>refs alive b1 dr mid. dropsLog refs alive b b1 dr
          \<and> evs = LockSource src # RefsRead src (Some refs) # dr @ mid @ [UnlockSource src]
          \<and> (if alive \<noteq> [] then mid = [Spawn (HealSource src)] \<and> b' = b1
             else releasedLog src (targetsOfSource src b1) mid \<and> b' = filter (\<lambda>ts. (fst ts, src) \<notin> set b1) b1))"

lemma cleanupLogI:
  assumes "dropsLog refs alive b b1 dr"
    "if alive \<noteq> [] then mid = [Spawn (HealSource src)] \<and> b' = b1
     else releasedLog src (targetsOfSource src b1) mid \<and> b' = filter (\<lambda>ts. (fst ts, src) \<notin> set b1) b1"
  shows "cleanupLog src b b' (LockSource src # RefsRead src (Some refs) # dr @ mid @ [UnlockSource src])"
  unfolding cleanupLog_def using assms by blast

lemma eff_cleanupSource:
  "eff (cleanupSource env cfg src) (\<lambda>_ b' evs. cleanupLog src b b' evs) b"
  unfolding cleanupSource_def
  apply (intro eff_intros)
  subgoal by (simp add: cleanupLog_def)
  subgoal for r refs alive b1 dr using cleanupLogI [of refs alive b b1 dr] by simp
  subgoal for r refs alive b1 dr mid using cleanupLogI [of refs alive b b1 dr mid src] by simp
  done

text \<open>A reference that may still be used, as far as the cleanup has learned: it is not a kubelet
  path, or the pods could not be listed, or its pod was listed as live.\<close>

definition inUse :: "event list \<Rightarrow> string \<Rightarrow> bool" where
  "inUse evs ref \<longleftrightarrow> podUIDFromTarget ref = [] \<or> LivePodsRead None \<in> set evs
     \<or> (\<exists>us. LivePodsRead (Some us) \<in> set evs \<and> podUIDFromTarget ref \<in> set us)"

lemma dropLog_reads: "dropLog live refs alive b b' evs \<Longrightarrow> LivePodsRead x \<notin> set evs"
  by (auto simp: dropLog_def)

lemma releasedLog_events: "releasedLog src stale evs \<Longrightarrow> ev \<in> set evs \<Longrightarrow> (\<exists>t e. ev = Unmounted t e) \<or> (\<exists>e. ev = Removed src e)"
  unfolding releasedLog_def by (elim exE conjE) (use set_popped in fastforce)

lemma filter_keeps: "\<not> P k \<Longrightarrow> map_of (filter (\<lambda>ts. \<not> P (fst ts)) b) k = map_of b k"
  by (induction b) auto

lemma dropsLog_inUse:
  assumes "dropsLog refs alive b b' evs" "ref \<in> set refs" "inUse evs ref"
  shows "ref \<in> set alive" "Unmounted ref e \<notin> set evs" "map_of b' ref = map_of b ref"
proof -
  consider "evs = [LivePodsRead None]" "alive = refs" "b' = b"
    | live d where "evs = LivePodsRead (Some live) # d" "dropLog live refs alive b b' d"
    using assms(1,2) unfolding dropsLog_def by auto
  then have "ref \<in> set alive \<and> Unmounted ref e \<notin> set evs \<and> map_of b' ref = map_of b ref"
  proof cases
    case 1
    then show ?thesis using assms(2) by auto
  next
    case 2
    then have "\<not> dead live ref" using assms(3) dropLog_reads [OF 2(2)] by (auto simp: inUse_def dead_def)
    moreover obtain gone where "gone \<subseteq> {ref \<in> set refs. dead live ref}" "b' = filter (\<lambda>ts. fst ts \<notin> gone) b"
      using 2(2) unfolding dropLog_def by blast
    ultimately show ?thesis using 2 assms(2) filter_keeps [of "\<lambda>t. t \<in> gone" ref b] by (auto simp: dropLog_def)
  qed
  then show "ref \<in> set alive" "Unmounted ref e \<notin> set evs" "map_of b' ref = map_of b ref" by auto
qed

lemma dropsLog_events: "dropsLog refs alive b b' evs \<Longrightarrow> ev \<in> set evs \<Longrightarrow>
    (\<exists>x. ev = LivePodsRead x) \<or> (\<exists>t e. ev = Unmounted t e \<and> t \<in> set refs \<and> podUIDFromTarget t \<noteq> [])"
  unfolding dropsLog_def by (auto simp: dropLog_def dead_def) metis

text \<open>
  (C27) A source in use is never released: if \<open>cleanupSource\<close> learns of a reference that may still
  be used (of a live pod, of an unknown path, or at a time when the pods cannot be listed), it
  unmounts neither that reference nor the source, keeps the bind of the reference and starts a heal,
  for every answer of the kernel and of the API server; all of this under the lock of the source.
\<close>

theorem cleanupSource_keeps_used:
  assumes "run_state (cleanupSource env cfg src) s = (u, s')" "podUIDFromTarget src = []"
    "RefsRead src (Some refs) \<in> set (newEvents s s')" "ref \<in> set refs" "inUse (newEvents s s') ref"
  shows "Spawn (HealSource src) \<in> set (newEvents s s')
    \<and> (\<forall>e. Unmounted ref e \<notin> set (newEvents s s') \<and> Unmounted src e \<notin> set (newEvents s s') \<and> Removed src e \<notin> set (newEvents s s'))
    \<and> map_of (binds s') ref = map_of (binds s) ref
    \<and> hd (newEvents s s') = LockSource src \<and> last (newEvents s s') = UnlockSource src"
proof -
  have "cleanupLog src (binds s) (binds s') (newEvents s s')"
    by (rule eff_newEvents [OF eff_cleanupSource assms(1)])
  then obtain refs' alive b1 dr mid where *: "dropsLog refs' alive (binds s) b1 dr"
      "newEvents s s' = LockSource src # RefsRead src (Some refs') # dr @ mid @ [UnlockSource src]"
      "if alive \<noteq> [] then mid = [Spawn (HealSource src)] \<and> binds s' = b1
       else releasedLog src (targetsOfSource src b1) mid \<and> binds s' = filter (\<lambda>ts. (fst ts, src) \<notin> set b1) b1"
    using assms(3) unfolding cleanupLog_def by auto
  have refs: "refs' = refs"
    using assms(3) * dropsLog_events [OF *(1)] releasedLog_events by (fastforce split: if_splits)
  have "inUse dr ref"
    using assms(5) * releasedLog_events unfolding inUse_def by (fastforce split: if_splits)
  note d = dropsLog_inUse [OF *(1) _ this, unfolded refs, OF assms(4)]
  from d(1) have "alive \<noteq> []" by auto
  with *(3) have mid: "mid = [Spawn (HealSource src)]" "binds s' = b1" by auto
  show ?thesis
    unfolding *(2) mid using d(2,3) dropsLog_events [OF *(1)] assms(2) by auto
qed

section \<open>Rebinding\<close>

definition rebindLog :: "string \<Rightarrow> (string, string) gomap \<Rightarrow> event list \<Rightarrow> bool" where
  "rebindLog src b evs \<longleftrightarrow>
     (\<forall>ev\<in>set evs. \<exists>t. map_of b t = Some src \<and> (ev = MkdirAll t \<or> (\<exists>e. ev = Bound src t e) \<or> (\<exists>e. ev = Unmounted t e)))
     \<and> (\<forall>t e. Unmounted t e \<in> set evs \<longrightarrow> (\<exists>e'. Bound src t (Some e') \<in> set evs))"

lemma bindLog_detach: "bindLog src t r evs \<Longrightarrow> Unmounted t' e \<in> set evs \<Longrightarrow> \<exists>e'. Bound src t' (Some e') \<in> set evs"
  by (auto simp: bindLog_def dest!: set_popped)

lemma rebindLog_step:
  assumes "map_of b t = Some src" "bindLog src t r evs" "rebindLog src b rest"
  shows "rebindLog src b (evs @ rest)"
proof -
  have "\<exists>t. map_of b t = Some src \<and> (ev = MkdirAll t \<or> (\<exists>e. ev = Bound src t e) \<or> (\<exists>e. ev = Unmounted t e))"
    if "ev \<in> set (evs @ rest)" for ev
    using that assms(1,3) bindLog_events [OF assms(2), of ev] unfolding rebindLog_def set_append by blast
  moreover have "\<exists>e'. Bound src t' (Some e') \<in> set (evs @ rest)" if "Unmounted t' e \<in> set (evs @ rest)" for t' e
    using that assms(3) bindLog_detach [OF assms(2), of t' e] unfolding rebindLog_def set_append by blast
  ultimately show ?thesis unfolding rebindLog_def by blast
qed

lemma eff_rebindLoop: "eff (rebindLoop env src ts) (\<lambda>_ b' evs. b' = b \<and> rebindLog src b evs) b"
proof (induction ts)
  case Nil
  show ?case by (auto simp: rebindLog_def intro!: eff_intros)
next
  case (Cons t ts)
  show ?case
    unfolding rebindLoop.simps
    by (intro eff_intros eff_mono [OF Cons]) (auto intro: rebindLog_step)
qed

lemma eff_rebindTargets [eff_intros]:
  assumes "\<And>mid. rebindLog src b mid \<Longrightarrow> Q () b (LockSource src # mid @ [UnlockSource src])"
  shows "eff (rebindTargets env src) Q b"
  unfolding rebindTargets_def
  by (intro eff_intros eff_mono [OF eff_rebindLoop]) (use assms assms [of "[]"] in \<open>auto simp: rebindLog_def\<close>)

text \<open>
  Rebinding repairs without tearing down: \<open>rebindTargets\<close> never changes which target belongs
  to which source, touches only targets recorded for this source, under its lock, and detaches a
  target only after stacking a bind on top of it has failed, so the propagation of a running
  container is kept whenever the kernel allows it.
\<close>

theorem rebindTargets_stacks:
  assumes "run_state (rebindTargets env src) s = (u, s')"
  shows "binds s' = binds s
    \<and> (\<exists>mid. newEvents s s' = LockSource src # mid @ [UnlockSource src]
       \<and> (\<forall>ev\<in>set mid. \<exists>t. map_of (binds s) t = Some src
            \<and> (ev = MkdirAll t \<or> (\<exists>e. ev = Bound src t e) \<or> (\<exists>e. ev = Unmounted t e)))
       \<and> (\<forall>t e. Unmounted t e \<in> set mid \<longrightarrow> (\<exists>e'. Bound src t (Some e') \<in> set mid)))"
proof -
  have "eff (rebindTargets env src) (\<lambda>_ b' evs. b' = binds s \<and>
      (\<exists>mid. rebindLog src (binds s) mid \<and> evs = LockSource src # mid @ [UnlockSource src])) (binds s)"
    by (intro eff_intros) auto
  from eff_newEvents [OF this assms] show ?thesis unfolding rebindLog_def by blast
qed

section \<open>Healing\<close>

lemma healSpec_specMap:
  assumes "hfMountArgs s \<noteq> []"
  shows "healSpec ops (Some (put_key ''workloads'' (JList ws) (specMap ops s))) =
    Some (hfSourceType s, hfSourceID s, hfMountArgs s,
      (case ToUnstructured ops (hfResources s) of None \<Rightarrow> noResources | Some raw \<Rightarrow> MountResourcesFromUnstructured ops raw))"
proof -
  have "List.map_filter (\<lambda>a. case a of JString x \<Rightarrow> Some x | _ \<Rightarrow> None) (map JString xs) = xs" for xs
    by (induction xs) (auto simp: List.map_filter_simps)
  then show ?thesis
    using assms by (simp add: healSpec_def specAt_def specMap_def split: option.splits)
qed

lemma stored_resources:
  assumes "print_law ops"
  shows "res_equiv ops (case ToUnstructured ops r of None \<Rightarrow> noResources | Some raw \<Rightarrow> MountResourcesFromUnstructured ops raw) r"
proof (cases "ToStringMap ops r = []")
  case True
  with map_of_ToStringMap [of ops r] show ?thesis
    by (simp add: ToUnstructured_def noResources_def res_equiv_def q_equiv_def)
next
  case False
  with res_equiv_printed [OF assms] show ?thesis
    by (simp add: ToUnstructured_def MountResourcesFromUnstructured_def stringEntries_JString)
qed

text \<open>
  (C28) A healed pod is the pod that \<open>Mount\<close> created: whatever workloads have been registered since,
  reading back the CRD that \<open>Mount\<close> stored gives the same source, exactly the same arguments and
  equivalent resources, and from the path of the source alone \<open>tryHealSource\<close> finds the same names,
  so the pod it builds differs from the original at most in how equal quantities are written.
\<close>

theorem heal_rebuilds_mount_pod:
  assumes "print_law (quantityOps cfg)" "buildArgs st sid (''/mnt/hf/'' @ mountID tgt) opts = Inr args"
    "src = pathJoin [mountBaseDir, mountID tgt]" "name = mountPodPrefix @ mountID tgt"
    "spec = specMap (quantityOps cfg) \<lparr>hfNodeName = nodeID cfg, hfSourceType = st, hfSourceID = sid, hfMountPodName = name,
       hfMountPath = src, hfMountArgs = args, hfResources = Resources opts\<rparr>"
  shows "\<exists>res. healSpec (quantityOps cfg) (Some (put_key ''workloads'' (JList ws) spec)) = Some (st, sid, args, res)
    \<and> res_equiv (quantityOps cfg) res (Resources opts)
    \<and> Base src = mountID tgt \<and> mountPodPrefix @ Base src = name
    \<and> buildMountPod cfg (mountPodPrefix @ Base src) (Base src) st sid src args res
        = (buildMountPod cfg name (mountID tgt) st sid src args (Resources opts))
            \<lparr>podContainers := [mountContainer cfg (mountID tgt) st sid src args res]\<rparr>"
proof -
  have "args \<noteq> []" using buildArgs_target [OF assms(2)] by auto
  then have heal: "\<exists>res. healSpec (quantityOps cfg) (Some (put_key ''workloads'' (JList ws) spec)) = Some (st, sid, args, res)
      \<and> res_equiv (quantityOps cfg) res (Resources opts)"
    unfolding assms(5) using stored_resources [OF assms(1)] by (subst healSpec_specMap) auto
  have "Base src = mountID tgt"
    using mountIDFromSource_mountID [of tgt] by (simp add: assms(3) mountIDFromSource_def)
  with heal show ?thesis by (auto simp: assms(4) buildMountPod_def)
qed

section \<open>Adoption\<close>

lemma foldl_adoptRef:
  assumes "foldl (adoptRef src) (b, r) refs = (b', r')"
  shows "map_of b' t = (if map_of b t = None \<and> t \<in> set refs \<and> t \<noteq> src then Some src else map_of b t)"
    and "t \<in> set r' \<longleftrightarrow> t \<in> set r \<or> map_of b t = None \<and> t \<in> set refs \<and> t \<noteq> src"
proof -
  have "map_of b' t = (if map_of b t = None \<and> t \<in> set refs \<and> t \<noteq> src then Some src else map_of b t)
    \<and> (t \<in> set r' \<longleftrightarrow> t \<in> set r \<or> map_of b t = None \<and> t \<in> set refs \<and> t \<noteq> src)"
    using assms
  proof (induction refs arbitrary: b r)
    case (Cons ref refs)
    show ?case
    proof (cases "ref = src \<or> map_of b ref \<noteq> None")
      case True
      then have "adoptRef src (b, r) ref = (b, r)" by (auto simp: adoptRef_def)
      with Cons.prems have "foldl (adoptRef src) (b, r) refs = (b', r')" by simp
      from Cons.IH [OF this] True show ?thesis by (cases "t = ref") auto
    next
      case False
      then have "adoptRef src (b, r) ref = (put_key ref src b, r @ [ref])" by (auto simp: adoptRef_def)
      with Cons.prems have "foldl (adoptRef src) (put_key ref src b, r @ [ref]) refs = (b', r')" by simp
      from Cons.IH [OF this] False show ?thesis by (cases "t = ref") simp_all
    qed
  qed simp
  then show "map_of b' t = (if map_of b t = None \<and> t \<in> set refs \<and> t \<noteq> src then Some src else map_of b t)"
    and "t \<in> set r' \<longleftrightarrow> t \<in> set r \<or> map_of b t = None \<and> t \<in> set refs \<and> t \<noteq> src" by blast+
qed

definition registerLog :: "string \<Rightarrow> string list \<Rightarrow> event list \<Rightarrow> bool" where
  "registerLog crdName refs evs \<longleftrightarrow>
     (\<forall>ev\<in>set evs. \<exists>ref e. ev = AddWorkload crdName (podUIDFromTarget ref) ref e \<and> ref \<in> set refs)
     \<and> (\<forall>ref\<in>set refs. podUIDFromTarget ref \<noteq> [] \<longrightarrow> (\<exists>e. AddWorkload crdName (podUIDFromTarget ref) ref e \<in> set evs))"

lemma registerLog_Cons:
  assumes "registerLog crdName refs evs"
  shows "podUIDFromTarget ref \<noteq> [] \<Longrightarrow> registerLog crdName (ref # refs) (AddWorkload crdName (podUIDFromTarget ref) ref e # evs)"
    "podUIDFromTarget ref = [] \<Longrightarrow> registerLog crdName (ref # refs) evs"
  using assms by (simp_all add: registerLog_def) blast+

lemma eff_registerRestored:
  "eff (registerRestored env crdName refs) (\<lambda>_ b' evs. b' = b \<and> registerLog crdName refs evs) b"
proof (induction refs)
  case Nil
  show ?case by (auto simp: registerLog_def intro!: eff_intros)
next
  case (Cons ref refs)
  show ?case
    unfolding registerRestored.simps Let_def
    by (intro eff_intros eff_mono [OF Cons]) (auto simp: registerLog_Cons)
qed

text \<open>
  Late adoption restores what the kernel shows and steals nothing: a bind that is already
  recorded keeps its source; of the references of the source that are not recorded, all and only
  these are recorded for it; each of them that belongs to a pod is registered in the CRD, so the
  stale cleaner does not take the mount away; and a rebind is started last.
\<close>

theorem lateAdopt_restores:
  assumes "run_state (lateAdopt env src) s = (u, s')" "RefsRead src (Some refs) \<in> set (newEvents s s')"
  shows "map_of (binds s') t = (if map_of (binds s) t = None \<and> t \<in> set refs \<and> t \<noteq> src then Some src else map_of (binds s) t)
    \<and> (t \<in> set refs \<and> t \<noteq> src \<and> map_of (binds s) t = None \<and> podUIDFromTarget t \<noteq> [] \<longrightarrow>
         (\<exists>e. AddWorkload (hfMountName (Base src)) (podUIDFromTarget t) t e \<in> set (newEvents s s')))
    \<and> last (newEvents s s') = Spawn (RebindTargets src)"
proof -
  have "eff (lateAdopt env src) (\<lambda>_ b' evs. evs = [] \<or> evs = [RefsRead src None]
      \<or> (\<exists>refs r reg. evs = RefsRead src (Some refs) # reg @ [Spawn (RebindTargets src)]
           \<and> foldl (adoptRef src) (binds s, []) refs = (b', r) \<and> registerLog (hfMountName (Base src)) r reg)) (binds s)"
    unfolding lateAdopt_def Let_def
    by (intro eff_intros eff_mono [OF eff_registerRestored]) (auto simp: prod_eq_iff)
  from eff_newEvents [OF this assms(1)] assms(2)
  obtain refs' r reg where *: "newEvents s s' = RefsRead src (Some refs') # reg @ [Spawn (RebindTargets src)]"
      "foldl (adoptRef src) (binds s, []) refs' = (binds s', r)" "registerLog (hfMountName (Base src)) r reg" by auto
  have "refs' = refs" using assms(2) * by (auto simp: registerLog_def)
  with foldl_adoptRef [OF *(2), of t] * show ?thesis
    unfolding registerLog_def by auto
qed

text \<open>Failed reads of the references, and the successful one that ends them.\<close>

definition readsLog :: "string \<Rightarrow> nat \<Rightarrow> string list \<Rightarrow> event list \<Rightarrow> bool" where
  "readsLog src n refs evs \<longleftrightarrow> length evs \<le> n
     \<and> (evs = replicate n (RefsRead src None) \<and> refs = []
        \<or> (\<exists>k. evs = replicate k (RefsRead src None) @ [RefsRead src (Some refs)]))"

lemma readsLog_intros:
  "readsLog src 0 [] []"
  "readsLog src (Suc n) refs [RefsRead src (Some refs)]"
  "readsLog src n refs evs \<Longrightarrow> readsLog src (Suc n) refs (RefsRead src None # evs)"
proof -
  assume "readsLog src n refs evs"
  then consider "evs = replicate n (RefsRead src None)" "refs = []"
    | k where "length evs \<le> n" "evs = replicate k (RefsRead src None) @ [RefsRead src (Some refs)]"
    unfolding readsLog_def by blast
  then show "readsLog src (Suc n) refs (RefsRead src None # evs)"
  proof cases
    case 2
    then have "RefsRead src None # evs = replicate (Suc k) (RefsRead src None) @ [RefsRead src (Some refs)]" by simp
    with 2(1) show ?thesis unfolding readsLog_def by (metis Suc_le_mono length_Cons)
  qed (simp add: readsLog_def)
qed (auto simp: readsLog_def intro: exI [of _ 0])

lemma eff_retryRefs: "eff (retryRefs env src n) (\<lambda>refs b' evs. b' = b \<and> readsLog src n refs evs) b"
proof (induction n)
  case 0
  show ?case by (auto intro!: eff_intros readsLog_intros)
next
  case (Suc n)
  show ?case
    unfolding retryRefs.simps by (intro eff_intros eff_mono [OF Suc]) (auto simp: readsLog_intros)
qed

lemma eff_crdTargets: "eff (crdTargets env ws) (\<lambda>_ b' evs. b' = b \<and> evs = []) b"
proof (induction ws)
  case Nil
  show ?case by (auto intro!: eff_intros)
next
  case (Cons w ws)
  show ?case
    unfolding crdTargets.simps Let_def by (intro eff_intros eff_mono [OF Cons]) auto
qed

lemma map_of_fold_put: "map_of (fold (\<lambda>t. put_key t src) ts b) t = (if t \<in> set ts then Some src else map_of b t)"
  by (induction ts arbitrary: b) auto

definition adoptLog :: "string \<Rightarrow> (string, string) gomap \<Rightarrow> (string, string) gomap \<Rightarrow> event list \<Rightarrow> bool" where
  "adoptLog src b b' evs \<longleftrightarrow>
     (\<exists>refs targets reads. readsLog src 3 refs reads \<and> evs = reads @ [Spawn (RebindTargets src)]
        \<and> b' = fold (\<lambda>t. put_key t src) (filter (\<lambda>ref. ref \<noteq> src) refs @ targets) b)"

lemma adoptLogI:
  "readsLog src 3 refs reads \<Longrightarrow>
     adoptLog src b (fold (\<lambda>t. put_key t src) (filter (\<lambda>ref. ref \<noteq> src) refs @ targets) b) (reads @ [Spawn (RebindTargets src)])"
  unfolding adoptLog_def by blast

lemma eff_adoptSource: "eff (adoptSource env src) (\<lambda>_ b' evs. adoptLog src b b' evs) b"
  unfolding adoptSource_def
  apply (intro eff_intros eff_mono [OF eff_retryRefs] eff_mono [OF eff_crdTargets])
  subgoal for refs b' evs by (simp only: append_Nil append_Nil2) (auto dest: adoptLogI [where targets = "[]"])
  subgoal for refs b' evs r spec targets b'' evs' by (auto dest: adoptLogI [where targets = targets])
  done


section \<open>Periodic scans\<close>

definition staleLog :: "hfObj \<Rightarrow> event list \<Rightarrow> bool" where
  "staleLog item evs \<longleftrightarrow>
     (\<exists>n rest. evs = StaleRemoved (objName item) n # rest
        \<and> (rest \<noteq> [] \<longrightarrow> n = Some 0)
        \<and> (\<forall>ev\<in>set rest. ev = CrdDelete (objName item) \<or> ev = PodDelete (asString (specAt (objSpec item) ''mountPodName''))
             \<or> (\<exists>e. ev = Unmounted (asString (specAt (objSpec item) ''mountPath'')) e)
             \<or> (\<exists>e. ev = Removed (asString (specAt (objSpec item) ''mountPath'')) e)))"

lemma eff_staleCRD [eff_intros]:
  assumes "\<And>evs. staleLog item evs \<Longrightarrow> Q () b evs"
  shows "eff (staleCRD env live item) Q b"
  unfolding staleCRD_def Let_def
  by (intro eff_intros) (auto intro!: assms simp: staleLog_def)

definition staleLogs :: "hfObj list \<Rightarrow> event list \<Rightarrow> bool" where
  "staleLogs items evs \<longleftrightarrow> (\<exists>parts. evs = concat parts \<and> list_all2 staleLog items parts)"

lemma staleLogs_Cons: "staleLog i evs \<Longrightarrow> staleLogs is rest \<Longrightarrow> staleLogs (i # is) (evs @ rest)"
  unfolding staleLogs_def by (metis concat.simps(2) list.rel_intros(2))

lemma eff_staleCRDs: "eff (staleCRDs env live items) (\<lambda>_ b' evs. b' = b \<and> staleLogs items evs) b"
proof (induction items)
  case Nil
  show ?case by (auto simp: staleLogs_def intro!: eff_intros)
next
  case (Cons i items)
  show ?case
    unfolding staleCRDs.simps
    by (intro eff_intros eff_mono [OF Cons]) (auto simp: staleLogs_Cons)
qed

lemma staleLogs_part:
  assumes "staleLogs items evs" "ev \<in> set evs"
  obtains item part where "item \<in> set items" "staleLog item part" "ev \<in> set part" "set part \<subseteq> set evs"
proof -
  obtain parts where *: "evs = concat parts" "list_all2 staleLog items parts"
    using assms(1) unfolding staleLogs_def by blast
  with assms(2) obtain part where "part \<in> set parts" "ev \<in> set part" by auto
  with * that show thesis by (metis concat_eq_Nil_conv in_set_conv_nth list_all2_conv_all_nth UN_upper set_concat)
qed

lemma staleLogs_decided:
  assumes "staleLogs items evs" "ev \<in> set evs" "\<And>n x. ev \<noteq> StaleRemoved n x"
  shows "\<exists>n. StaleRemoved n (Some 0) \<in> set evs \<and> (\<forall>n'. ev = CrdDelete n' \<longrightarrow> n' = n)"
proof -
  obtain item part where *: "staleLog item part" "ev \<in> set part" "set part \<subseteq> set evs"
    using staleLogs_part [OF assms(1,2)] by blast
  from *(1,2) assms(3) have "StaleRemoved (objName item) (Some 0) \<in> set part \<and> (\<forall>n'. ev = CrdDelete n' \<longrightarrow> n' = objName item)"
    by (auto simp: staleLog_def)
  with *(3) show ?thesis by blast
qed


lemma find_serving:
  fixes pods :: "'q pod list"
  shows "map_of (rev (map (\<lambda>p. (podName p, servingPod p)) pods)) n = map_option servingPod (find (\<lambda>p. podName p = n) (rev pods))"
proof -
  have "map_of (map (\<lambda>p. (podName p, servingPod p)) ps) n = map_option servingPod (find (\<lambda>p. podName p = n) ps)" for ps :: "'q pod list"
    by (induction ps) auto
  then show ?thesis by (simp add: rev_map)
qed

definition scanLog :: "(string \<rightharpoonup> bool) \<Rightarrow> string list \<Rightarrow> event list \<Rightarrow> bool" where
  "scanLog serving names evs \<longleftrightarrow>
     (\<forall>src. LockSource src \<in> set evs \<longrightarrow>
        (\<exists>n\<in>set names. src = pathJoin [mountBaseDir, n] \<and> serving (mountPodPrefix @ n) \<noteq> Some True))
     \<and> (\<forall>x. MountPodsRead x \<notin> set evs)"

lemma cleanupLog_locks:
  assumes c: "cleanupLog src b b' evs"
  shows "(\<forall>p. LockSource p \<in> set evs \<longrightarrow> p = src) \<and> (\<forall>x. MountPodsRead x \<notin> set evs)"
proof -
  from c consider "evs = [LockSource src, RefsRead src None, UnlockSource src]"
    | refs alive b1 dr mid where "dropsLog refs alive b b1 dr"
        "evs = LockSource src # RefsRead src (Some refs) # dr @ mid @ [UnlockSource src]"
        "mid = [Spawn (HealSource src)] \<or> releasedLog src (targetsOfSource src b1) mid"
    unfolding cleanupLog_def by (metis (full_types))
  then show ?thesis
  proof cases
    case 2
    have "LockSource p \<notin> set dr \<and> MountPodsRead x \<notin> set dr" for p x using dropsLog_events [OF 2(1)] by blast
    moreover have "LockSource p \<notin> set mid \<and> MountPodsRead x \<notin> set mid" for p x using 2(3) releasedLog_events by fastforce
    ultimately show ?thesis using 2(2) by auto
  qed auto
qed

lemma eff_scanEntry:
  "eff (scanEntry env cfg pods entry)
     (\<lambda>_ b' evs. scanLog (\<lambda>n. map_option servingPod (find (\<lambda>p. podName p = n) (rev pods))) [fst entry] evs) b"
  unfolding scanEntry_def Let_def
  by (intro eff_intros eff_mono [OF eff_cleanupSource]) (auto simp: scanLog_def dest!: cleanupLog_locks)

lemma scanLog_append: "scanLog sv xs evs \<Longrightarrow> scanLog sv ys evs' \<Longrightarrow> scanLog sv (xs @ ys) (evs @ evs')"
  unfolding scanLog_def by auto

lemma eff_scanEntries:
  "eff (scanEntries env cfg pods entries)
     (\<lambda>_ b' evs. scanLog (\<lambda>n. map_option servingPod (find (\<lambda>p. podName p = n) (rev pods))) (map fst entries) evs) b"
proof (induction entries arbitrary: b)
  case Nil
  show ?case by (auto simp: scanLog_def intro!: eff_intros)
next
  case (Cons e es)
  show ?case
    unfolding scanEntries.simps
    by (intro eff_intros eff_mono [OF eff_scanEntry] eff_mono [OF Cons]) (use scanLog_append in fastforce)
qed


text \<open>
  A source nobody refers to is released completely: the cleanup detaches the layers of the
  source, forgets exactly the binds recorded for it and removes its directory last.
\<close>

theorem cleanupSource_releases:
  assumes "run_state (cleanupSource env cfg src) s = (u, s')" "RefsRead src (Some []) \<in> set (newEvents s s')"
  shows "binds s' = filter (\<lambda>ts. (fst ts, src) \<notin> set (binds s)) (binds s)
    \<and> (\<exists>e. last (butlast (newEvents s s')) = Removed src e) \<and> (\<exists>e. Unmounted src e \<in> set (newEvents s s'))
    \<and> Spawn (HealSource src) \<notin> set (newEvents s s')"
proof -
  have "cleanupLog src (binds s) (binds s') (newEvents s s')"
    by (rule eff_newEvents [OF eff_cleanupSource assms(1)])
  then obtain refs alive b1 dr mid where *: "dropsLog refs alive (binds s) b1 dr"
      "newEvents s s' = LockSource src # RefsRead src (Some refs) # dr @ mid @ [UnlockSource src]"
      "if alive \<noteq> [] then mid = [Spawn (HealSource src)] \<and> binds s' = b1
       else releasedLog src (targetsOfSource src b1) mid \<and> binds s' = filter (\<lambda>ts. (fst ts, src) \<notin> set b1) b1"
    using assms(2) unfolding cleanupLog_def by auto
  have "refs = []"
    using assms(2) * dropsLog_events [OF *(1)] releasedLog_events by (fastforce split: if_splits)
  with *(1) have d: "alive = []" "b1 = binds s" "Unmounted src e \<notin> set dr" "Spawn x \<notin> set dr" for e x
    by (auto simp: dropsLog_def dropLog_def)
  with *(3) have r: "releasedLog src (targetsOfSource src (binds s)) mid" by simp
  then obtain pops rest e where "popped src 32 pops" "mid = pops @ rest @ [Removed src e]" unfolding releasedLog_def by blast
  moreover have "\<exists>e. Unmounted src e \<in> set pops" if "popped src 32 pops" using that by (auto simp: popped_def numeral_eq_Suc)
  moreover have "Spawn x \<notin> set mid" for x using releasedLog_events [OF r] by fastforce
  ultimately show ?thesis using *(2,3) d by (auto simp: butlast_append)
qed

section \<open>Instances\<close>

text \<open>A node whose kernel shows the given references, and whose API server lists the given pods.\<close>

definition nodeEnv :: "string list \<Rightarrow> (kerr + nat pod list) \<Rightarrow> (kerr + nat pod list) \<Rightarrow> (unit, nat) env" where
  "nodeEnv refs mountPods nodePods = (quietEnv PodRunning)
     \<lparr>getMountRefs := (\<lambda>_. State_Monad.return (Inr refs)), podList := (\<lambda>_. State_Monad.return mountPods),
      nodePodList := (\<lambda>_. State_Monad.return nodePods), readDirEntries := (\<lambda>_. State_Monad.return (Inr [(''v1'', True)]))\<rparr>"

definition sampleSource :: string where
  "sampleSource = ''/var/lib/hf-csi-driver/mnt/v1''"

definition sampleTarget :: string where
  "sampleTarget = podsPrefix @ ''u1'' @ slash # ''volumes/v/mount''"

lemma sampleTarget_uid: "podUIDFromTarget sampleTarget = ''u1''"
  unfolding sampleTarget_def by (subst podUIDFromTarget_prefix) auto

lemma nodeEnv_sel:
  "getMountRefs (nodeEnv refs ps ns) p = State_Monad.return (Inr refs)"
  "podList (nodeEnv refs ps ns) l = State_Monad.return ps" "nodePodList (nodeEnv refs ps ns) l = State_Monad.return ns"
  "readDirEntries (nodeEnv refs ps ns) p = State_Monad.return (Inr [(''v1'', True)])"
  "isMountPoint (nodeEnv refs ps ns) p = State_Monad.return (True, None)"
  "fuseUnmount (nodeEnv refs ps ns) p = State_Monad.return (Some EINVAL)"
  "removePath (nodeEnv refs ps ns) p = State_Monad.return None"
  "selfMountinfo (nodeEnv refs ps ns) = State_Monad.return None"
  "crd (nodeEnv refs ps ns) = quietCrd"
  by (simp_all add: nodeEnv_def quietEnv_def)

lemma sample_distinct: "''/s'' \<noteq> sampleSource" "''/t'' \<noteq> sampleTarget" "sampleTarget \<noteq> sampleSource"
  by (simp_all add: sampleSource_def sampleTarget_def podsPrefix_def)

lemma sampleSource_join: "pathJoin [mountBaseDir, ''v1''] = sampleSource"
  by (simp add: sampleSource_def mountBaseDir_def pathJoin_def) code_simp

lemmas node_simps = nodeEnv_sel samplePm_def run_bind call_def ask_def note_ev_def getVars_def setVars_def newEvents_def whenM_def

lemma unmountAll_node: "run_state (unmountAll (nodeEnv refs ps ns) p) s = ((), s\<lparr>log := log s @ [Unmounted p (Some EINVAL)]\<rparr>)"
proof -
  have "(32 :: nat) = Suc 31" by simp
  then show ?thesis unfolding unmountAll_def by (simp only: unmountLoop.simps) (simp add: node_simps)
qed

text \<open>The pod of the target is live.\<close>

theorem cleanupSource_keeps_used_witness:
  "\<exists>s'. run_state (cleanupSource (nodeEnv [sampleTarget] (Inr []) (Inr [phasePod PodRunning\<lparr>podUID := ''u1''\<rparr>])) sampleCfg sampleSource)
      (samplePm\<lparr>vars := [(sampleTarget, sampleSource)]\<rparr>) = ((), s')
    \<and> Spawn (HealSource sampleSource) \<in> set (log s') \<and> map_of (binds s') sampleTarget = Some sampleSource"
proof -
  let ?s = "samplePm\<lparr>vars := [(sampleTarget, sampleSource)]\<rparr>"
  obtain s' where r: "run_state (cleanupSource (nodeEnv [sampleTarget] (Inr []) (Inr [phasePod PodRunning\<lparr>podUID := ''u1''\<rparr>]))
      sampleCfg sampleSource) ?s = ((), s')" by (metis surj_pair unit.exhaust)
  then have e: "newEvents ?s s' = [LockSource sampleSource, RefsRead sampleSource (Some [sampleTarget]), LivePodsRead (Some [''u1'']),
      Spawn (HealSource sampleSource), UnlockSource sampleSource]"
    by (auto simp: node_simps cleanupSource_def dropDeadPodRefs_def listLivePodUIDsOnNode_def sampleTarget_uid isPodTerminal_def
        phasePod_def)
  have "podUIDFromTarget sampleSource = []" by (simp add: sampleSource_def podUIDFromTarget_def podsPrefix_def CutPrefix_def)
  from cleanupSource_keeps_used [OF r this, unfolded e, of "[sampleTarget]" sampleTarget] r show ?thesis
    using e by (auto simp: inUse_def sampleTarget_uid newEvents_def samplePm_def)
qed

theorem cleanupSource_releases_witness:
  "\<exists>s'. run_state (cleanupSource (nodeEnv [] (Inr []) (Inr [])) sampleCfg sampleSource)
      (samplePm\<lparr>vars := [(sampleTarget, sampleSource), (''/t'', ''/s'')]\<rparr>) = ((), s') \<and> binds s' = [(''/t'', ''/s'')]"
proof -
  let ?s = "samplePm\<lparr>vars := [(sampleTarget, sampleSource), (''/t'', ''/s'')]\<rparr>"
  obtain s' where r: "run_state (cleanupSource (nodeEnv [] (Inr []) (Inr [])) sampleCfg sampleSource) ?s = ((), s')"
    by (metis surj_pair unit.exhaust)
  then have "RefsRead sampleSource (Some []) \<in> set (newEvents ?s s')"
    by (auto simp: cleanupSource_def dropDeadPodRefs_def releaseSource_def unmountAll_node node_simps targetsOfSource_def
        sample_distinct)
  from cleanupSource_releases [OF r this] r sample_distinct show ?thesis by simp
qed

theorem rebindTargets_stacks_witness:
  "\<exists>s'. run_state (rebindTargets (nodeEnv [] (Inr []) (Inr [])) sampleSource) (samplePm\<lparr>vars := [(sampleTarget, sampleSource)]\<rparr>) = ((), s')
     \<and> binds s' = [(sampleTarget, sampleSource)] \<and> hd (log s') = LockSource sampleSource"
proof -
  let ?s = "samplePm\<lparr>vars := [(sampleTarget, sampleSource)]\<rparr>"
  obtain s' where r: "run_state (rebindTargets (nodeEnv [] (Inr []) (Inr [])) sampleSource) ?s = ((), s')"
    by (metis surj_pair unit.exhaust)
  from rebindTargets_stacks [OF r] r show ?thesis by (auto simp: newEvents_def samplePm_def)
qed

theorem heal_rebuilds_mount_pod_witness:
  "\<exists>args res. buildArgs ''bucket'' ''o/d'' (''/mnt/hf/'' @ mountID ''/t'') sampleOptions = Inr args
     \<and> healSpec sampleOps (Some (put_key ''workloads'' (JList []) (specMap sampleOps
          \<lparr>hfNodeName = ''n'', hfSourceType = ''bucket'', hfSourceID = ''o/d'', hfMountPodName = mountPodPrefix @ mountID ''/t'',
           hfMountPath = pathJoin [mountBaseDir, mountID ''/t''], hfMountArgs = args, hfResources = Resources sampleOptions\<rparr>)))
        = Some (''bucket'', ''o/d'', args, res)"
proof -
  have "buildArgs ''bucket'' ''o/d'' (''/mnt/hf/'' @ mountID ''/t'') sampleOptions \<noteq> Inl e" for e
    by (simp add: buildArgs_error_iff)
  then obtain args where args: "buildArgs ''bucket'' ''o/d'' (''/mnt/hf/'' @ mountID ''/t'') sampleOptions = Inr args"
    by (metis sum.exhaust)
  have cfg: "quantityOps sampleCfg = sampleOps" "nodeID sampleCfg = ''n''" by (simp_all add: sampleCfg_def)
  from heal_rebuilds_mount_pod [OF _ args refl refl refl, of sampleCfg "[]", unfolded cfg, OF sampleOps_laws(2)] args
  show ?thesis by blast
qed

theorem lateAdopt_restores_witness:
  "\<exists>s'. run_state (lateAdopt (nodeEnv [sampleSource, sampleTarget] (Inr []) (Inr [])) sampleSource) samplePm = ((), s')
     \<and> map_of (binds s') sampleTarget = Some sampleSource \<and> last (log s') = Spawn (RebindTargets sampleSource)"
proof -
  obtain s' where r: "run_state (lateAdopt (nodeEnv [sampleSource, sampleTarget] (Inr []) (Inr [])) sampleSource) samplePm = ((), s')"
    by (metis surj_pair unit.exhaust)
  then have "RefsRead sampleSource (Some [sampleSource, sampleTarget]) \<in> set (newEvents samplePm s')"
    by (auto simp: lateAdopt_def node_simps numeral_eq_Suc addWorkload_quiet adoptRef_def sample_distinct sampleTarget_uid)
  from lateAdopt_restores [OF r this, of sampleTarget] r show ?thesis
    by (auto simp: newEvents_def samplePm_def sample_distinct)
qed



text \<open>
  The other side of the condition: when the list of mount pods fails, the scan takes every mounted
  source for orphaned. Here the kernel shows a healthy mount without binds, whose pod may well be
  running; the scan detaches it and removes its directory.
\<close>

theorem runCleanupScan_failed_list:
  "\<exists>s'. run_state (runCleanupScan (nodeEnv [] (Inl (KubeErr ''timeout'')) (Inr [])) sampleCfg) samplePm = ((), s')
     \<and> log s' = [MountPodsRead None, LockSource sampleSource, RefsRead sampleSource (Some []), Unmounted sampleSource (Some EINVAL),
         Removed sampleSource None, UnlockSource sampleSource]"
  by (auto simp: runCleanupScan_def scanEntry_def node_simps sampleSource_join
      cleanupSource_def dropDeadPodRefs_def releaseSource_def unmountAll_node targetsOfSource_def)


end
