(* ===== verification/Vol_Data.thy ===== *)
theory Vol_Data
  imports Effects Naming Kube_Types "HOL-Library.List_Lexorder" "HOL-Library.Char_ord"
begin

text \<open>
  The reconciler of \<open>vol_data.json\<close> files (\<open>pkg/driver/voldata_reconciler.go\<close>): which volumes
  on the node are ours, the repair of one volume directory and one sweep over all of them.
  The API server, the clock and the file system are the record \<open>volEnv\<close> of calls with arbitrary
  answers; calls that change a file are logged. The encoder is \<open>encoding/json\<close> for a map of
  strings, with its sorting of keys and its HTML escaping.
\<close>

section \<open>Encoding\<close>

definition hexDigit :: "nat \<Rightarrow> char" where
  "hexDigit d = (if d < 10 then char_of (48 + d) else char_of (87 + d))"

definition hexEscape :: "nat \<Rightarrow> string" where
  "hexEscape r = [CHR 0x5C, CHR ''u'', hexDigit (r div 4096 mod 16), hexDigit (r div 256 mod 16), hexDigit (r div 16 mod 16), hexDigit (r mod 16)]"

definition htmlSafe :: "nat \<Rightarrow> bool" where
  "htmlSafe r \<longleftrightarrow> 0x20 \<le> r \<and> r < 0x80 \<and> r \<notin> {0x22, 0x5C, 0x3C, 0x3E, 0x26}"

definition jsonRune :: "nat \<times> string \<Rightarrow> string" where
  "jsonRune rb =
     (case rb of (r, bytes) \<Rightarrow>
        if r < 0x80 then
          if htmlSafe r then bytes
          else if r = 0x5C \<or> r = 0x22 then CHR 0x5C # bytes
          else if r = 8 then [CHR 0x5C, CHR ''b''] else if r = 12 then [CHR 0x5C, CHR ''f'']
          else if r = 10 then [CHR 0x5C, CHR ''n''] else if r = 13 then [CHR 0x5C, CHR ''r'']
          else if r = 9 then [CHR 0x5C, CHR ''t''] else hexEscape r
        else if r = RuneError \<and> length bytes = 1 then hexEscape RuneError
        else if r = 0x2028 \<or> r = 0x2029 then hexEscape r
        else bytes)"

definition jsonString :: "string \<Rightarrow> string" where
  "jsonString s = CHR 0x22 # concat (map jsonRune (runes s)) @ [CHR 0x22]"

definition marshalStrings :: "(string, string) gomap \<Rightarrow> string" where
  "marshalStrings kvs =
     CHR ''{'' # Join (map (\<lambda>kv. jsonString (fst kv) @ CHR '':'' # jsonString (snd kv)) (sort_key fst kvs)) '','' @ [CHR ''}'']"

section \<open>Ownership\<close>

record fileInfo =
  fiIsDir :: bool
  fiModTime :: int

type_synonym fd = nat

datatype volEvent =
    Created string "oserr option"
  | Written string string "oserr option"
  | ClosedFile string "oserr option"
  | RemovedFile string "oserr option"

record ('w, 'q) volEnv =
  volPodList :: "string \<Rightarrow> ('w, kerr + 'q pod list) state"
  lstat :: "string \<Rightarrow> ('w, oserr + fileInfo) state"
  clock :: "('w, int) state"
  createExclusive :: "string \<Rightarrow> ('w, oserr + fd) state"
  writeFd :: "fd \<Rightarrow> string \<Rightarrow> ('w, oserr option) state"
  closeFd :: "fd \<Rightarrow> ('w, oserr option) state"
  removeFile :: "string \<Rightarrow> ('w, oserr option) state"

type_synonym 'w vsys = "(unit, 'w, volEvent) sys"

text \<open>The map from pod UID to the set of volume names.\<close>

type_synonym ownedVolumes = "(string, (string, unit) gomap) gomap"

definition ownVolume :: "string \<Rightarrow> ownedVolumes \<Rightarrow> volume \<Rightarrow> ownedVolumes" where
  "ownVolume uid owned v =
     (case volCSI v of
        None \<Rightarrow> owned
      | Some c \<Rightarrow>
          if csiDriver c \<noteq> DriverName then owned
          else put_key uid (put_key (volName v) () (case map_of owned uid of None \<Rightarrow> [] | Some vs \<Rightarrow> vs)) owned)"

definition ownedOf :: "('q, 'x) pod_scheme list \<Rightarrow> ownedVolumes" where
  "ownedOf pods = foldl (\<lambda>owned p. foldl (ownVolume (podUID p)) owned (podVolumes p)) [] pods"

definition NodeOwnedVolumeLister :: "('w, 'q) volEnv \<Rightarrow> string \<Rightarrow> ('w vsys, kerr + ownedVolumes) state" where
  "NodeOwnedVolumeLister env nodeName =
     do { r \<leftarrow> ask (volPodList env nodeName);
          State_Monad.return (case r of Inl e \<Rightarrow> Inl e | Inr pods \<Rightarrow> Inr (ownedOf pods)) }"

section \<open>Repair\<close>

definition volDataStaleThreshold :: int where
  "volDataStaleThreshold = 2 * 60 * 1000000000"

definition recoveryData :: "string \<Rightarrow> string \<Rightarrow> (string, string) gomap" where
  "recoveryData name node =
     [(''driverName'', DriverName), (''specVolID'', name), (''volumeHandle'', ''recovered-'' @ name),
      (''nodeName'', node), (''volumeLifecycleMode'', ''Ephemeral''), (''attachmentID'', [])]"

text \<open>The descriptor is written and closed; a failure of either removes the file.\<close>

definition writeRecovery :: "('w, 'q) volEnv \<Rightarrow> string \<Rightarrow> string \<Rightarrow> fd \<Rightarrow> ('w vsys, bool) state" where
  "writeRecovery env dataPath buf f =
     do { we \<leftarrow> call (writeFd env f buf) (Written dataPath buf);
          if we \<noteq> None then
            do { _ \<leftarrow> call (closeFd env f) (ClosedFile dataPath);
                 _ \<leftarrow> call (removeFile env dataPath) (RemovedFile dataPath);
                 State_Monad.return False }
          else
            do { ce \<leftarrow> call (closeFd env f) (ClosedFile dataPath);
                 if ce \<noteq> None then
                   do { _ \<leftarrow> call (removeFile env dataPath) (RemovedFile dataPath); State_Monad.return False }
                 else State_Monad.return True } }"

definition repairVolData :: "('w, 'q) volEnv \<Rightarrow> string \<Rightarrow> string \<Rightarrow> string \<Rightarrow> ('w vsys, bool) state" where
  "repairVolData env volDir name node =
     (let dataPath = pathJoin [volDir, ''vol_data.json'']; buf = marshalStrings (recoveryData name node) in
      do { l \<leftarrow> ask (lstat env dataPath);
           if l \<noteq> Inl ENOENT then State_Monad.return False
           else
             do { d \<leftarrow> ask (lstat env volDir);
                  case d of
                    Inl _ \<Rightarrow> State_Monad.return False
                  | Inr info \<Rightarrow>
                      if \<not> fiIsDir info then State_Monad.return False
                      else
                        do { now \<leftarrow> ask (clock env);
                             if now - fiModTime info < volDataStaleThreshold then State_Monad.return False
                             else
                               do { c \<leftarrow> call (createExclusive env dataPath) (\<lambda>c. Created dataPath (case c of Inl e \<Rightarrow> Some e | Inr _ \<Rightarrow> None));
                                    case c of
                                      Inl _ \<Rightarrow> State_Monad.return False
                                    | Inr f \<Rightarrow> writeRecovery env dataPath buf f } } } })"

text \<open>One sweep; the result is the counter \<open>repaired\<close>, which the code only logs.\<close>

definition volDirOf :: "string \<Rightarrow> string \<Rightarrow> string \<Rightarrow> string" where
  "volDirOf podsDir uid name = pathJoin [podsDir, uid, ''volumes'', ''kubernetes.io~csi'', name]"

fun repairVolumes :: "('w, 'q) volEnv \<Rightarrow> string \<Rightarrow> string \<Rightarrow> string \<Rightarrow> string list \<Rightarrow> ('w vsys, nat) state" where
  "repairVolumes env podsDir node uid [] = State_Monad.return 0"
| "repairVolumes env podsDir node uid (v # vs) =
     do { ok \<leftarrow> repairVolData env (volDirOf podsDir uid v) v node;
          n \<leftarrow> repairVolumes env podsDir node uid vs;
          State_Monad.return (if ok then Suc n else n) }"

fun repairOwned :: "('w, 'q) volEnv \<Rightarrow> string \<Rightarrow> string \<Rightarrow> ownedVolumes \<Rightarrow> ('w vsys, nat) state" where
  "repairOwned env podsDir node [] = State_Monad.return 0"
| "repairOwned env podsDir node ((uid, vols) # owned) =
     do { n \<leftarrow> repairVolumes env podsDir node uid (map fst vols);
          k \<leftarrow> repairOwned env podsDir node owned;
          State_Monad.return (n + k) }"

definition reconcileVolData :: "('w, 'q) volEnv \<Rightarrow> string \<Rightarrow> string \<Rightarrow> ('w vsys, nat) state" where
  "reconcileVolData env podsDir node =
     do { r \<leftarrow> NodeOwnedVolumeLister env node;
          case r of Inl _ \<Rightarrow> State_Monad.return 0 | Inr owned \<Rightarrow> repairOwned env podsDir node owned }"

text \<open>The loop of \<open>StartVolDataReconciler\<close>, stopped after \<open>ticks\<close> ticks of its ticker.\<close>

definition DefaultVolDataReconcileInterval :: int where
  "DefaultVolDataReconcileInterval = 5 * 60 * 1000000000"

fun reconcilerLoop :: "('w, 'q) volEnv \<Rightarrow> string \<Rightarrow> string \<Rightarrow> nat \<Rightarrow> ('w vsys, unit) state" where
  "reconcilerLoop env podsDir node 0 = do { _ \<leftarrow> reconcileVolData env podsDir node; State_Monad.return () }"
| "reconcilerLoop env podsDir node (Suc ticks) =
     do { _ \<leftarrow> reconcileVolData env podsDir node; reconcilerLoop env podsDir node ticks }"

text \<open>The result is the interval of the ticker.\<close>

definition StartVolDataReconciler ::
  "('w, 'q) volEnv \<Rightarrow> string \<Rightarrow> string \<Rightarrow> int \<Rightarrow> nat \<Rightarrow> ('w vsys, int) state" where
  "StartVolDataReconciler env kubeletRoot node interval ticks =
     do { reconcilerLoop env (pathJoin [kubeletRoot, ''pods'']) node ticks;
          State_Monad.return (if interval \<le> 0 then DefaultVolDataReconcileInterval else interval) }"

section \<open>What the lister owns\<close>

definition ours :: "volume \<Rightarrow> bool" where
  "ours v \<longleftrightarrow> (\<exists>c. volCSI v = Some c \<and> csiDriver c = DriverName)"

definition owns :: "ownedVolumes \<Rightarrow> string \<Rightarrow> string \<Rightarrow> bool" where
  "owns owned uid name \<longleftrightarrow> (\<exists>vs. map_of owned uid = Some vs \<and> map_of vs name = Some ())"

lemma owns_ownVolume: "owns (ownVolume uid owned v) u n \<longleftrightarrow> owns owned u n \<or> (u = uid \<and> n = volName v \<and> ours v)"
  by (auto simp: ownVolume_def owns_def ours_def split: option.splits if_splits)

lemma owns_volumes:
  "owns (foldl (ownVolume uid) owned vols) u n \<longleftrightarrow> owns owned u n \<or> (u = uid \<and> (\<exists>v\<in>set vols. n = volName v \<and> ours v))"
  by (induction vols arbitrary: owned) (auto simp: owns_ownVolume)

lemma owns_pods:
  fixes pods :: "('q, 'x) pod_scheme list"
  shows "owns (foldl (\<lambda>owned p. foldl (ownVolume (podUID p)) owned (podVolumes p)) owned pods) u n \<longleftrightarrow>
    owns owned u n \<or> (\<exists>p\<in>set pods. podUID p = u \<and> (\<exists>v\<in>set (podVolumes p). n = volName v \<and> ours v))"
  by (induction pods arbitrary: owned) (auto simp: owns_volumes)

lemma owns_ownedOf: "owns (ownedOf pods) u n \<longleftrightarrow> (\<exists>p\<in>set pods. podUID p = u \<and> (\<exists>v\<in>set (podVolumes p). n = volName v \<and> ours v))"
  unfolding ownedOf_def owns_pods by (simp add: owns_def)

lemma keys_ok_ownVolume: "keys_ok owned \<Longrightarrow> keys_ok (ownVolume uid owned v)"
  by (auto simp: ownVolume_def split: option.splits)

lemma keys_ok_ownedOf:
  fixes pods :: "('q, 'x) pod_scheme list"
  shows "keys_ok (ownedOf pods)"
proof -
  have vols: "keys_ok owned \<Longrightarrow> keys_ok (foldl (ownVolume uid) owned vols)" for uid vols owned
    by (induction vols arbitrary: owned) (auto intro: keys_ok_ownVolume)
  have "keys_ok owned \<Longrightarrow> keys_ok (foldl (\<lambda>owned p. foldl (ownVolume (podUID p)) owned (podVolumes p)) owned pods)" for owned
    by (induction pods arbitrary: owned) (auto intro: vols)
  then show ?thesis unfolding ownedOf_def by simp
qed

section \<open>Effects of a repair\<close>

definition repairLog :: "string \<Rightarrow> string \<Rightarrow> bool \<Rightarrow> volEvent list \<Rightarrow> bool" where
  "repairLog p buf r evs \<longleftrightarrow>
     (\<not> r \<and> (evs = [] \<or> (\<exists>e. evs = [Created p (Some e)])))
     \<or> (r \<and> evs = [Created p None, Written p buf None, ClosedFile p None])
     \<or> (\<not> r \<and> (\<exists>e ce re. evs = [Created p None, Written p buf (Some e), ClosedFile p ce, RemovedFile p re]))
     \<or> (\<not> r \<and> (\<exists>e re. evs = [Created p None, Written p buf None, ClosedFile p (Some e), RemovedFile p re]))"

lemma eff_repairVolData [eff_intros]:
  assumes "\<And>r evs. repairLog (pathJoin [volDir, ''vol_data.json'']) (marshalStrings (recoveryData name node)) r evs \<Longrightarrow> Q r b evs"
  shows "eff (repairVolData env volDir name node) Q b"
proof -
  have Q: "Q r () evs" if "repairLog (pathJoin [volDir, ''vol_data.json'']) (marshalStrings (recoveryData name node)) r evs" for r evs
    using assms [OF that] by simp
  show ?thesis
    unfolding repairVolData_def writeRecovery_def Let_def
    by (intro eff_intros) (auto intro!: Q simp: repairLog_def)
qed

fun filePath :: "volEvent \<Rightarrow> string" where
  "filePath (Created p e) = p"
| "filePath (Written p b e) = p"
| "filePath (ClosedFile p e) = p"
| "filePath (RemovedFile p e) = p"

text \<open>
  A repair creates, never replaces: for every answer of the file system the only file
  touched is the missing \<open>vol_data.json\<close> of the directory, written or removed only after this very
  call created it exclusively; it reports success exactly when the complete content was written
  and the descriptor closed without error, and in every other case removes what it created; every
  descriptor it opened is closed once.
\<close>

theorem repairVolData_exclusive:
  assumes "run_state (repairVolData env volDir name node) s = (r, s')"
    "p = pathJoin [volDir, ''vol_data.json'']" "buf = marshalStrings (recoveryData name node)"
  shows "(r \<longleftrightarrow> newEvents s s' = [Created p None, Written p buf None, ClosedFile p None])
    \<and> (\<forall>ev\<in>set (newEvents s s'). filePath ev = p)
    \<and> (newEvents s s' \<noteq> [] \<longrightarrow> (\<exists>e. hd (newEvents s s') = Created p e \<and> (e \<noteq> None \<longrightarrow> length (newEvents s s') = 1)))
    \<and> (\<not> r \<and> Created p None \<in> set (newEvents s s') \<longrightarrow> (\<exists>e. last (newEvents s s') = RemovedFile p e))
    \<and> length (filter (\<lambda>ev. \<exists>e. ev = ClosedFile p e) (newEvents s s'))
        = length (filter (\<lambda>ev. ev = Created p None) (newEvents s s'))"
proof -
  have "eff (repairVolData env volDir name node) (\<lambda>r _ evs. repairLog p buf r evs) (vars s)"
    unfolding assms(2,3) by (intro eff_intros)
  from eff_newEvents [OF this assms(1)] show ?thesis unfolding repairLog_def by auto
qed

section \<open>Effects of a sweep\<close>

definition sweepLog :: "(string \<Rightarrow> string \<Rightarrow> bool) \<Rightarrow> string \<Rightarrow> nat \<Rightarrow> volEvent list \<Rightarrow> bool" where
  "sweepLog own podsDir n evs \<longleftrightarrow>
     (\<forall>ev\<in>set evs. \<exists>uid v. own uid v \<and> filePath ev = pathJoin [volDirOf podsDir uid v, ''vol_data.json''])
     \<and> length (filter (\<lambda>ev. \<exists>p. ev = Created p None) evs) = n + length (filter (\<lambda>ev. \<exists>p e. ev = RemovedFile p e) evs)"

lemma sweepLog_step:
  assumes "repairLog (pathJoin [volDirOf podsDir uid v, ''vol_data.json'']) buf r evs" "own uid v" "sweepLog own podsDir n rest"
  shows "sweepLog own podsDir (if r then Suc n else n) (evs @ rest)"
proof -
  have "\<forall>ev\<in>set evs. filePath ev = pathJoin [volDirOf podsDir uid v, ''vol_data.json'']"
    using assms(1) unfolding repairLog_def by auto
  moreover have "length (filter (\<lambda>ev. \<exists>p. ev = Created p None) evs)
      = (if r then 1 else 0) + length (filter (\<lambda>ev. \<exists>p e. ev = RemovedFile p e) evs)"
    using assms(1) unfolding repairLog_def by auto
  ultimately show ?thesis using assms(2,3) unfolding sweepLog_def by auto
qed

lemma sweepLog_append: "sweepLog own podsDir n evs \<Longrightarrow> sweepLog own podsDir k evs' \<Longrightarrow> sweepLog own podsDir (n + k) (evs @ evs')"
  unfolding sweepLog_def by auto

lemma sweepLog_Nil: "sweepLog own podsDir 0 []"
  by (simp add: sweepLog_def)

lemma eff_repairVolumes:
  "\<forall>v\<in>set vs. own uid v \<Longrightarrow> eff (repairVolumes env podsDir node uid vs) (\<lambda>n _ evs. sweepLog own podsDir n evs) b"
proof (induction vs arbitrary: b)
  case Nil
  show ?case by (auto simp: sweepLog_Nil intro!: eff_intros)
next
  case (Cons v vs)
  then have *: "eff (repairVolumes env podsDir node uid vs) (\<lambda>n _ evs. sweepLog own podsDir n evs) b" "own uid v" for b by simp_all
  show ?case
    unfolding repairVolumes.simps
    apply (intro eff_intros eff_mono [OF *(1)])
    subgoal for r evs n b' evs' using sweepLog_step [of podsDir uid v _ r evs own n evs'] *(2) by simp
    done
qed

lemma eff_repairOwned:
  "\<forall>(uid, vs)\<in>set owned. \<forall>v\<in>fst ` set vs. own uid v \<Longrightarrow>
     eff (repairOwned env podsDir node owned) (\<lambda>n _ evs. sweepLog own podsDir n evs) b"
proof (induction owned arbitrary: b)
  case Nil
  show ?case by (auto simp: sweepLog_Nil intro!: eff_intros)
next
  case (Cons uv owned)
  obtain uid vs where uv: "uv = (uid, vs)" by (cases uv)
  have 1: "eff (repairVolumes env podsDir node uid (map fst vs)) (\<lambda>n _ evs. sweepLog own podsDir n evs) b" for b
    using Cons.prems uv by (intro eff_repairVolumes) auto
  have 2: "eff (repairOwned env podsDir node owned) (\<lambda>n _ evs. sweepLog own podsDir n evs) b" for b
    using Cons by simp
  show ?case
    unfolding uv repairOwned.simps
    by (intro eff_intros eff_mono [OF 1] eff_mono [OF 2]) (simp add: sweepLog_append)
qed

text \<open>
  (C32) Ownership: a sweep creates, writes or removes only the \<open>vol_data.json\<close> of a volume directory
  \<open>pods/<uid>/volumes/kubernetes.io~csi/<name>\<close> for which a listed pod with this UID has an inline CSI
  volume of this name and of this driver; when the pods cannot be listed it touches nothing; and
  the number it reports is the number of files it created and left in place.
\<close>

theorem reconcileVolData_owned:
  assumes "run_state (reconcileVolData env podsDir node) s = (n, s')" "run_state (volPodList env node) (world s) = (pods, w)"
  shows "(\<forall>ev\<in>set (newEvents s s'). \<exists>ps p v. pods = Inr ps \<and> p \<in> set ps \<and> v \<in> set (podVolumes p) \<and> ours v
      \<and> filePath ev = pathJoin [volDirOf podsDir (podUID p) (volName v), ''vol_data.json''])
    \<and> length (filter (\<lambda>ev. \<exists>p. ev = Created p None) (newEvents s s'))
       = n + length (filter (\<lambda>ev. \<exists>p e. ev = RemovedFile p e) (newEvents s s'))"
proof -
  have "sweepLog (\<lambda>uid v. \<exists>ps. pods = Inr ps \<and> owns (ownedOf ps) uid v) podsDir n (newEvents s s')"
  proof (cases pods)
    case (Inl e)
    with assms show ?thesis
      by (auto simp: reconcileVolData_def NodeOwnedVolumeLister_def run_bind ask_def newEvents_def sweepLog_def)
  next
    case (Inr ps)
    have "\<forall>(uid, vs)\<in>set (ownedOf ps). \<forall>v\<in>fst ` set vs. owns (ownedOf ps) uid v"
      using keys_ok_mem_iff [OF keys_ok_ownedOf [of ps]] by (fastforce simp: owns_def dest: weak_map_of_SomeI)
    then have "eff (repairOwned env podsDir node (ownedOf ps)) (\<lambda>n _ evs. sweepLog (owns (ownedOf ps)) podsDir n evs) (vars (s\<lparr>world := w\<rparr>))"
      by (rule eff_repairOwned)
    moreover have "run_state (repairOwned env podsDir node (ownedOf ps)) (s\<lparr>world := w\<rparr>) = (n, s')"
      using assms Inr by (simp add: reconcileVolData_def NodeOwnedVolumeLister_def run_bind ask_def)
    ultimately show ?thesis using eff_newEvents Inr by (fastforce simp: newEvents_def)
  qed
  then show ?thesis unfolding sweepLog_def owns_ownedOf by blast
qed

section \<open>Reading the file back\<close>

text \<open>A reader of JSON objects of strings, for characters below 128, as RFC 8259 defines them.\<close>

definition unhexDigit :: "char \<Rightarrow> nat option" where
  "unhexDigit c =
     (let n = of_char c in
      if 48 \<le> n \<and> n \<le> 57 then Some (n - 48) else if 97 \<le> n \<and> n \<le> 102 then Some (n - 87)
      else if 65 \<le> n \<and> n \<le> 70 then Some (n - 55) else None)"

fun unhex4 :: "char list \<Rightarrow> nat option" where
  "unhex4 [a, b, c, d] =
     Option.bind (unhexDigit a) (\<lambda>a. Option.bind (unhexDigit b) (\<lambda>b. Option.bind (unhexDigit c) (\<lambda>c.
       Option.bind (unhexDigit d) (\<lambda>d. Some (((a * 16 + b) * 16 + c) * 16 + d)))))"
| "unhex4 _ = None"

definition simpleEscape :: "char \<Rightarrow> char option" where
  "simpleEscape c =
     (if c = CHR 0x22 \<or> c = CHR 0x5C \<or> c = CHR ''/'' then Some c
      else if c = CHR ''b'' then Some (CHR 0x08) else if c = CHR ''f'' then Some (CHR 0x0C)
      else if c = CHR ''n'' then Some (CHR 0x0A) else if c = CHR ''r'' then Some (CHR 0x0D)
      else if c = CHR ''t'' then Some (CHR 0x09) else None)"

text \<open>The body of a string up to its closing quote, and what follows it.\<close>

fun readBody :: "string \<Rightarrow> (string \<times> string) option" where
  "readBody [] = None"
| "readBody (c # s) =
     (if c = CHR 0x22 then Some ([], s)
      else if c = CHR 0x5C then
        (case s of
           [] \<Rightarrow> None
         | e # s' \<Rightarrow>
             if e = CHR ''u'' then
               (case unhex4 (take 4 s') of
                  None \<Rightarrow> None
                | Some n \<Rightarrow> if 128 \<le> n then None else map_option (\<lambda>(x, r). (char_of n # x, r)) (readBody (drop 4 s')))
             else
               (case simpleEscape e of
                  None \<Rightarrow> None
                | Some d \<Rightarrow> map_option (\<lambda>(x, r). (d # x, r)) (readBody s')))
      else if (of_char c :: nat) < 32 \<or> 128 \<le> (of_char c :: nat) then None
      else map_option (\<lambda>(x, r). (c # x, r)) (readBody s))"

definition readString :: "string \<Rightarrow> (string \<times> string) option" where
  "readString s = (case s of [] \<Rightarrow> None | c # s' \<Rightarrow> if c = CHR 0x22 then readBody s' else None)"

lemma of_char_less_256 [simp]: "(of_char (c :: char) :: nat) < 256"
  by (metis of_char_mod_256 mod_less_divisor zero_less_numeral)

lemma unhexDigit_hexDigit: "d < 16 \<Longrightarrow> unhexDigit (hexDigit d) = Some d"
  by (auto simp: unhexDigit_def hexDigit_def Let_def)

lemma unhex4_hexEscape: "r < 65536 \<Longrightarrow> unhex4 (drop 2 (hexEscape r)) = Some r"
proof -
  have r: "r = 16 * (r div 16) + r mod 16" "r div 16 = 16 * (r div 256) + r div 16 mod 16" "r div 256 = 16 * (r div 4096) + r div 256 mod 16"
    using div_mult2_eq [of r 16 16] div_mult2_eq [of r 256 16] by (simp_all add: mult_div_mod_eq)
  assume "r < 65536"
  then have "r div 4096 < 16" by (simp add: less_mult_imp_div_less)
  then show ?thesis by (simp add: hexEscape_def unhexDigit_hexDigit) (use r in linarith)
qed

lemma readBody_jsonRune:
  assumes "(of_char c :: nat) < 128"
  shows "readBody (jsonRune (of_char c, [c]) @ rest) = map_option (\<lambda>(x, r). (c # x, r)) (readBody rest)"
proof -
  let ?r = "of_char c :: nat"
  have c: "c = d" if "?r = of_char d" for d using that by (simp only: of_char_eq_iff)
  consider "htmlSafe ?r" | "?r = 0x5C" | "?r = 0x22" | "?r = 8" | "?r = 12" | "?r = 10" | "?r = 13" | "?r = 9"
    | "\<not> htmlSafe ?r" "?r \<notin> {0x5C, 0x22, 8, 12, 10, 13, 9}" by blast
  then show ?thesis
  proof cases
    case 1
    then have "c \<noteq> CHR 0x22" "c \<noteq> CHR 0x5C" "\<not> ?r < 32" by (auto simp: htmlSafe_def)
    with 1 assms show ?thesis by (simp add: jsonRune_def)
  next
    case 9
    have "unhex4 (take 4 (drop 2 (hexEscape ?r) @ rest)) = Some ?r"
      using unhex4_hexEscape [of ?r] assms by (simp add: hexEscape_def)
    with 9 assms show ?thesis by (simp add: jsonRune_def hexEscape_def)
  next
    case 2
    then have "c = CHR 0x5C" by (intro c) simp
    then show ?thesis by (simp add: jsonRune_def htmlSafe_def simpleEscape_def)
  next
    case 3
    then have "c = CHR 0x22" by (intro c) simp
    then show ?thesis by (simp add: jsonRune_def htmlSafe_def simpleEscape_def)
  next
    case 4
    then have "c = CHR 0x08" by (intro c) simp
    then show ?thesis by (simp add: jsonRune_def htmlSafe_def simpleEscape_def)
  next
    case 5
    then have "c = CHR 0x0C" by (intro c) simp
    then show ?thesis by (simp add: jsonRune_def htmlSafe_def simpleEscape_def)
  next
    case 6
    then have "c = CHR 0x0A" by (intro c) simp
    then show ?thesis by (simp add: jsonRune_def htmlSafe_def simpleEscape_def)
  next
    case 7
    then have "c = CHR 0x0D" by (intro c) simp
    then show ?thesis by (simp add: jsonRune_def htmlSafe_def simpleEscape_def)
  next
    case 8
    then have "c = CHR 0x09" by (intro c) simp
    then show ?thesis by (simp add: jsonRune_def htmlSafe_def simpleEscape_def)
  qed
qed

lemma readString_jsonString: "ascii s \<Longrightarrow> readString (jsonString s @ rest) = Some (s, rest)"
proof -
  have "readBody (concat (map jsonRune (map (\<lambda>c. (of_char c, [c])) s)) @ CHR 0x22 # rest) = Some (s, rest)" if "ascii s"
    using that by (induction s) (simp_all add: readBody_jsonRune ascii_def)
  then show "ascii s \<Longrightarrow> ?thesis" by (simp add: readString_def jsonString_def runes_ascii)
qed

text \<open>The members of an object; every member takes a character, so the length is enough fuel.\<close>

fun readMembers :: "nat \<Rightarrow> string \<Rightarrow> (string, string) gomap option" where
  "readMembers 0 s = None"
| "readMembers (Suc n) s =
     (case readString s of
        Some (k, c # s2) \<Rightarrow>
          if c \<noteq> CHR '':'' then None
          else
            (case readString s2 of
               Some (v, d # s4) \<Rightarrow>
                 if d = CHR '','' then map_option (\<lambda>kvs. (k, v) # kvs) (readMembers n s4)
                 else if d = CHR ''}'' \<and> s4 = [] then Some [(k, v)] else None
             | _ \<Rightarrow> None)
      | _ \<Rightarrow> None)"

definition readObject :: "string \<Rightarrow> (string, string) gomap option" where
  "readObject s =
     (case s of
        [] \<Rightarrow> None
      | c # s' \<Rightarrow> if c \<noteq> CHR ''{'' then None else if s' = ''}'' then Some [] else readMembers (length s') s')"

definition jsonMember :: "string \<times> string \<Rightarrow> string" where
  "jsonMember kv = jsonString (fst kv) @ CHR '':'' # jsonString (snd kv)"

lemma readMembers_Join:
  "kvs \<noteq> [] \<Longrightarrow> list_all (\<lambda>kv. ascii (fst kv) \<and> ascii (snd kv)) kvs \<Longrightarrow> length kvs \<le> n \<Longrightarrow>
     readMembers n (Join (map jsonMember kvs) '','' @ ''}'') = Some kvs"
proof (induction n arbitrary: kvs)
  case (Suc n)
  then obtain k v kvs' where kvs: "kvs = (k, v) # kvs'" by (metis list.exhaust surj_pair)
  with Suc show ?case
    by (cases "kvs' = []") (simp_all add: jsonMember_def Join_Cons readString_jsonString)
qed simp

lemma length_Join: "kvs \<noteq> [] \<Longrightarrow> length kvs \<le> length (Join (map jsonMember kvs) '','')"
proof (induction kvs)
  case (Cons kv kvs)
  then show ?case by (cases "kvs = []") (auto simp: Join_Cons jsonMember_def jsonString_def)
qed simp

lemma readObject_marshalStrings:
  assumes "list_all (\<lambda>kv. ascii (fst kv) \<and> ascii (snd kv)) kvs"
  shows "readObject (marshalStrings kvs) = Some (sort_key fst kvs)"
proof (cases "kvs = []")
  case True
  then show ?thesis by (simp add: readObject_def marshalStrings_def)
next
  case False
  then have ne: "sort_key fst kvs \<noteq> []" by (metis length_0_conv length_sort)
  have "list_all (\<lambda>kv. ascii (fst kv) \<and> ascii (snd kv)) (sort_key fst kvs)" using assms by (simp add: list_all_iff)
  from readMembers_Join [OF ne this] length_Join [OF ne]
  have "readMembers (length (Join (map jsonMember (sort_key fst kvs)) '','') + 1) (Join (map jsonMember (sort_key fst kvs)) '','' @ ''}'')
      = Some (sort_key fst kvs)" by (simp del: readMembers.simps)
  moreover have "Join (map jsonMember (sort_key fst kvs)) '','' \<noteq> []" using length_Join [OF ne] ne by auto
  ultimately show ?thesis
    by (simp add: readObject_def marshalStrings_def jsonMember_def [abs_def] del: readMembers.simps)
qed

text \<open>
  The file of a repair is what kubelet needs: for names in ASCII, as Kubernetes names are,
  reading the written bytes back as JSON gives an object with exactly the fields of the recovery
  data: this driver, the name of the volume, a handle and the node.
\<close>

theorem recoveryData_roundtrip:
  assumes "ascii name" "ascii node"
  shows "\<exists>kvs. readObject (marshalStrings (recoveryData name node)) = Some kvs
    \<and> map_of kvs = [''driverName'' \<mapsto> ''hf.csi.huggingface.co'', ''specVolID'' \<mapsto> name, ''volumeHandle'' \<mapsto> ''recovered-'' @ name,
         ''nodeName'' \<mapsto> node, ''volumeLifecycleMode'' \<mapsto> ''Ephemeral'', ''attachmentID'' \<mapsto> []]"
proof -
  have "readObject (marshalStrings (recoveryData name node)) = Some (sort_key fst (recoveryData name node))"
    using assms by (intro readObject_marshalStrings) (simp add: recoveryData_def DriverName_def ascii_def)
  moreover have "map_of (sort_key fst (recoveryData name node)) = map_of (recoveryData name node)"
    by (intro map_of_eqI) (auto simp: recoveryData_def)
  ultimately show ?thesis by (auto simp: recoveryData_def DriverName_def)
qed

section \<open>Instances\<close>

text \<open>A node with one pod that has one of our volumes, whose directory is old and lacks the file.\<close>

definition stuckVolume :: volume where
  "stuckVolume = \<lparr>volName = ''data'', volCSI = Some \<lparr>csiDriver = ''hf.csi.huggingface.co'', csiReadOnly = None, csiVolumeAttributes = Map.empty\<rparr>,
     volPVC = None, volEmptyDir = None, volHostPath = None\<rparr>"

definition stuckPod :: "nat pod" where
  "stuckPod =
     \<lparr>podName = ''p'', podNamespace = ''ns'', podUID = ''u1'', podLabels = Map.empty, podAnnotations = Map.empty,
      podDeletionTimestamp = True, podVolumes = [stuckVolume], podInitContainers = [], podContainers = [],
      podTerminationGracePeriodSeconds = None, podStatusPhase = PodPending, podContainerStatuses = []\<rparr>"

definition stuckDir :: string where
  "stuckDir = ''/k/pods/u1/volumes/kubernetes.io~csi/data''"

definition stuckEnv :: "(unit, nat) volEnv" where
  "stuckEnv =
     \<lparr>volPodList = (\<lambda>_. State_Monad.return (Inr [stuckPod])),
      lstat = (\<lambda>p. State_Monad.return (if p = stuckDir then Inr \<lparr>fiIsDir = True, fiModTime = 0\<rparr> else Inl ENOENT)),
      clock = State_Monad.return volDataStaleThreshold, createExclusive = (\<lambda>_. State_Monad.return (Inr 3)),
      writeFd = (\<lambda>_ _. State_Monad.return None), closeFd = (\<lambda>_. State_Monad.return None), removeFile = (\<lambda>_. State_Monad.return None)\<rparr>"

definition idleSys :: "unit vsys" where
  "idleSys = \<lparr>vars = (), world = (), log = []\<rparr>"

lemma stuckDir_paths: "volDirOf ''/k/pods'' ''u1'' ''data'' = stuckDir" "pathJoin [stuckDir, ''vol_data.json''] = stuckDir @ ''/vol_data.json''"
  unfolding volDirOf_def stuckDir_def by code_simp+

lemma repairVolData_stuck: "fst (run_state (repairVolData stuckEnv stuckDir ''data'' ''n'') s)"
  by (simp add: repairVolData_def writeRecovery_def Let_def stuckEnv_def stuckDir_paths run_bind ask_def call_def note_ev_def
      case_prod_beta)

theorem repairVolData_exclusive_witness:
  "\<exists>s'. run_state (repairVolData stuckEnv stuckDir ''data'' ''n'') idleSys = (True, s')
     \<and> log s' = [Created (stuckDir @ ''/vol_data.json'') None,
         Written (stuckDir @ ''/vol_data.json'') (marshalStrings (recoveryData ''data'' ''n'')) None, ClosedFile (stuckDir @ ''/vol_data.json'') None]"
proof -
  obtain s' where r: "run_state (repairVolData stuckEnv stuckDir ''data'' ''n'') idleSys = (True, s')"
    using repairVolData_stuck [of idleSys] by (metis prod.collapse)
  from repairVolData_exclusive [OF r refl refl] r show ?thesis by (simp add: newEvents_def idleSys_def stuckDir_paths)
qed

theorem reconcileVolData_owned_witness:
  "\<exists>s'. run_state (reconcileVolData stuckEnv ''/k/pods'' ''n'') idleSys = (1, s')
     \<and> length (filter (\<lambda>ev. \<exists>p. ev = Created p None) (log s')) = 1 + length (filter (\<lambda>ev. \<exists>p e. ev = RemovedFile p e) (log s'))"
proof -
  have "ownedOf [stuckPod] = [(''u1'', [(''data'', ())])]"
    by (simp add: ownedOf_def stuckPod_def ownVolume_def stuckVolume_def DriverName_def)
  then have "fst (run_state (reconcileVolData stuckEnv ''/k/pods'' ''n'') idleSys) = 1"
    using repairVolData_stuck
    by (simp add: reconcileVolData_def NodeOwnedVolumeLister_def run_bind ask_def stuckEnv_def [THEN arg_cong [where f = volPodList]]
        stuckDir_paths case_prod_beta)
  then obtain s' where r: "run_state (reconcileVolData stuckEnv ''/k/pods'' ''n'') idleSys = (1, s')"
    by (metis prod.collapse)
  from reconcileVolData_owned [OF r surjective_pairing] r show ?thesis by (simp add: newEvents_def idleSys_def)
qed

theorem recoveryData_roundtrip_witness:
  "\<exists>kvs. readObject (marshalStrings (recoveryData ''data'' ''node-1'')) = Some kvs \<and> map_of kvs ''specVolID'' = Some ''data''"
  using recoveryData_roundtrip [of "''data''" "''node-1''"] by (auto simp: ascii_def)

end
