(* ===== verification/Startup_Taint.thy ===== *)
theory Startup_Taint
  imports Effects Naming Kube_Types
begin

text \<open>
  The removal of the startup taint (\<open>pkg/driver/startup_taint.go\<close>): wait until kubelet lists the
  driver, then strip the taint by a test-and-set patch. The API server and the select on the
  context and the ticker are calls with arbitrary answers. Both loops poll for ever in the code;
  here they take the number of polls as fuel, and the result \<open>None\<close> means that the loop is still
  polling. A per-request deadline shows as an error of the request.
\<close>

section \<open>The program\<close>

record taint =
  taintKey :: string
  taintValue :: string
  taintEffect :: string

text \<open>The operations of a JSON patch on \<open>/spec/taints\<close>.\<close>

datatype taintOp = TestTaints "taint list" | ReplaceTaints "taint list"

datatype taintEvent =
    DriversRead "kerr + string list"
  | TaintsRead "kerr + taint list"
  | Patched "taintOp list" "kerr option"

text \<open>\<open>selectTick\<close> is the error of the context if it is done, nothing for a tick.\<close>

record 'w taintEnv =
  csiNodeGet :: "string \<Rightarrow> ('w, kerr + string list) state"
  nodeTaintsGet :: "string \<Rightarrow> ('w, kerr + taint list) state"
  nodePatch :: "string \<Rightarrow> taintOp list \<Rightarrow> ('w, kerr option) state"
  selectTick :: "('w, string option) state"

type_synonym 'w tsys = "(unit, 'w, taintEvent) sys"

fun waitForCSINodeDriver :: "'w taintEnv \<Rightarrow> string \<Rightarrow> nat \<Rightarrow> ('w tsys, string option option) state" where
  "waitForCSINodeDriver env node 0 = State_Monad.return None"
| "waitForCSINodeDriver env node (Suc polls) =
     do { r \<leftarrow> call (csiNodeGet env node) DriversRead;
          let registered = (case r of Inr drivers \<Rightarrow> list_ex (\<lambda>d. d = DriverName) drivers | Inl _ \<Rightarrow> False);
          if registered then State_Monad.return (Some None)
          else
            do { t \<leftarrow> ask (selectTick env);
                 case t of
                   Some e \<Rightarrow> State_Monad.return (Some (Some e))
                 | None \<Rightarrow> waitForCSINodeDriver env node polls } }"

definition tryRemoveNodeTaint :: "'w taintEnv \<Rightarrow> string \<Rightarrow> string \<Rightarrow> ('w tsys, kerr option) state" where
  "tryRemoveNodeTaint env node key =
     do { r \<leftarrow> call (nodeTaintsGet env node) TaintsRead;
          case r of
            Inl e \<Rightarrow> State_Monad.return (Some e)
          | Inr taints \<Rightarrow>
              (let kept = filter (\<lambda>t. taintKey t \<noteq> key) taints in
               if length kept = length taints then State_Monad.return None
               else call (nodePatch env node [TestTaints taints, ReplaceTaints kept]) (Patched [TestTaints taints, ReplaceTaints kept])) }"

fun removeNodeTaint :: "'w taintEnv \<Rightarrow> string \<Rightarrow> string \<Rightarrow> nat \<Rightarrow> ('w tsys, string option option) state" where
  "removeNodeTaint env node key 0 = State_Monad.return None"
| "removeNodeTaint env node key (Suc polls) =
     do { e \<leftarrow> tryRemoveNodeTaint env node key;
          if e = None then State_Monad.return (Some None)
          else
            do { t \<leftarrow> ask (selectTick env);
                 case t of
                   Some c \<Rightarrow> State_Monad.return (Some (Some c))
                 | None \<Rightarrow> removeNodeTaint env node key polls } }"

definition RemoveStartupTaint :: "'w taintEnv \<Rightarrow> string \<Rightarrow> string \<Rightarrow> nat \<Rightarrow> nat \<Rightarrow> ('w tsys, string option option) state" where
  "RemoveStartupTaint env node key polls tries =
     do { r \<leftarrow> waitForCSINodeDriver env node polls;
          case r of
            None \<Rightarrow> State_Monad.return None
          | Some (Some e) \<Rightarrow> State_Monad.return (Some (Some e))
          | Some None \<Rightarrow> removeNodeTaint env node key tries }"

section \<open>Safety\<close>

definition isRegistration :: "taintEvent \<Rightarrow> bool" where
  "isRegistration ev \<longleftrightarrow> (\<exists>ds. ev = DriversRead (Inr ds) \<and> DriverName \<in> set ds)"

definition waitLog :: "string option option \<Rightarrow> taintEvent list \<Rightarrow> bool" where
  "waitLog r evs \<longleftrightarrow> list_all (\<lambda>ev. \<exists>x. ev = DriversRead x) evs
     \<and> (if r = Some None then evs \<noteq> [] \<and> isRegistration (last evs) else \<not> list_ex isRegistration evs)"

lemma waitLog_Cons: "waitLog r evs \<Longrightarrow> \<not> isRegistration (DriversRead x) \<Longrightarrow> waitLog r (DriversRead x # evs)"
  by (auto simp: waitLog_def)

lemma eff_waitForCSINodeDriver: "eff (waitForCSINodeDriver env node n) (\<lambda>r _ evs. waitLog r evs) b"
proof (induction n arbitrary: b)
  case 0
  show ?case by (auto simp: waitLog_def intro!: eff_intros)
next
  case (Suc n)
  show ?case
    unfolding waitForCSINodeDriver.simps Let_def
    by (intro eff_intros eff_mono [OF Suc])
       (auto simp: waitLog_def isRegistration_def list_ex_iff split: sum.splits if_splits)
qed

text \<open>What one attempt, and the loop, may do: each patch tests the list it was computed from and
  replaces it by the list without the key.\<close>

definition stripLog :: "string \<Rightarrow> bool \<Rightarrow> taintEvent list \<Rightarrow> bool" where
  "stripLog key ok evs \<longleftrightarrow>
     list_all (\<lambda>ev. (\<exists>x. ev = TaintsRead x)
       \<or> (\<exists>old e. ev = Patched [TestTaints old, ReplaceTaints (filter (\<lambda>t. taintKey t \<noteq> key) old)] e
            \<and> TaintsRead (Inr old) \<in> set evs \<and> list_ex (\<lambda>t. taintKey t = key) old)) evs
     \<and> (ok \<longrightarrow> evs \<noteq> [] \<and> ((\<exists>ts. last evs = TaintsRead (Inr ts) \<and> list_all (\<lambda>t. taintKey t \<noteq> key) ts)
                         \<or> (\<exists>ops. last evs = Patched ops None)))
     \<and> (\<not> ok \<longrightarrow> (\<forall>ops. Patched ops None \<notin> set evs))"

lemma filter_shorter: "length (filter P xs) = length xs \<longleftrightarrow> list_all P xs"
  by (metis filter_True length_filter_less list_all_iff nat_neq_iff)

lemma eff_tryRemoveNodeTaint: "eff (tryRemoveNodeTaint env node key) (\<lambda>e _ evs. stripLog key (e = None) evs) b"
  unfolding tryRemoveNodeTaint_def Let_def
  by (intro eff_intros) (auto simp: stripLog_def filter_shorter list_all_iff list_ex_iff)

lemma stripLog_append: "stripLog key False evs \<Longrightarrow> stripLog key ok evs' \<Longrightarrow> stripLog key ok (evs @ evs')"
  unfolding stripLog_def by (auto simp: list_all_iff)

lemma eff_removeNodeTaint: "eff (removeNodeTaint env node key n) (\<lambda>r _ evs. stripLog key (r = Some None) evs) b"
proof (induction n arbitrary: b)
  case 0
  show ?case by (auto simp: stripLog_def intro!: eff_intros)
next
  case (Suc n)
  show ?case
    unfolding removeNodeTaint.simps
    by (intro eff_intros eff_mono [OF eff_tryRemoveNodeTaint] eff_mono [OF Suc]) (auto intro: stripLog_append)
qed

text \<open>What the API server does with such a patch to the current taints (RFC 6902): a failed test
  rejects the whole patch.\<close>

fun applyTaintOps :: "taintOp list \<Rightarrow> taint list \<Rightarrow> taint list option" where
  "applyTaintOps [] cur = Some cur"
| "applyTaintOps (TestTaints ts # ops) cur = (if cur = ts then applyTaintOps ops cur else None)"
| "applyTaintOps (ReplaceTaints ts # ops) cur = applyTaintOps ops ts"

text \<open>
  (C33) The taint protects until the driver is registered, and nothing else is touched: on every
  path and for every answer of the server no patch is sent before a CSINode that lists the driver
  has been read; whatever the taints of the node are when a patch arrives, if the server accepts
  it then exactly the taints with this key disappear, so a concurrent change is never overwritten;
  and success is reported only with the taint seen absent or its removal accepted.
\<close>

theorem RemoveStartupTaint_safe:
  assumes "run_state (RemoveStartupTaint env node key polls tries) s = (r, s')"
  shows "(\<forall>pre ops e post. newEvents s s' = pre @ Patched ops e # post \<longrightarrow>
            (\<exists>ds. DriversRead (Inr ds) \<in> set pre \<and> DriverName \<in> set ds))
    \<and> (\<forall>ops e cur cur'. Patched ops e \<in> set (newEvents s s') \<and> applyTaintOps ops cur = Some cur' \<longrightarrow>
            cur' = filter (\<lambda>t. taintKey t \<noteq> key) cur \<and> cur' \<noteq> cur)
    \<and> (r = Some None \<longrightarrow> (\<exists>ts. last (newEvents s s') = TaintsRead (Inr ts) \<and> list_all (\<lambda>t. taintKey t \<noteq> key) ts)
            \<or> (\<exists>ops. last (newEvents s s') = Patched ops None))
    \<and> (r \<noteq> Some None \<longrightarrow> (\<forall>ops. Patched ops None \<notin> set (newEvents s s')))"
proof -
  have "eff (RemoveStartupTaint env node key polls tries) (\<lambda>r _ evs.
      (\<exists>w. waitLog w evs \<and> w \<noteq> Some None \<and> r = w)
      \<or> (\<exists>wait strip. evs = wait @ strip \<and> waitLog (Some None) wait \<and> stripLog key (r = Some None) strip)) (vars s)"
    unfolding RemoveStartupTaint_def
    by (intro eff_intros eff_mono [OF eff_waitForCSINodeDriver] eff_mono [OF eff_removeNodeTaint]) auto
  from eff_newEvents [OF this assms]
  consider "waitLog r (newEvents s s')" "r \<noteq> Some None"
    | wait strip where "newEvents s s' = wait @ strip" "waitLog (Some None) wait" "stripLog key (r = Some None) strip"
    by blast
  then show ?thesis
  proof cases
    case 1
    then have no: "Patched ops e \<notin> set (newEvents s s')" for ops e by (auto simp: waitLog_def list_all_iff)
    then have "newEvents s s' \<noteq> pre @ Patched ops e # post" for pre ops e post by (metis in_set_conv_decomp)
    with no 1(2) show ?thesis by auto
  next
    case 2
    from 2(2) have wait: "Patched ops e \<notin> set wait" "\<exists>ds. DriversRead (Inr ds) \<in> set wait \<and> DriverName \<in> set ds" for ops e
      by (auto simp: waitLog_def list_all_iff isRegistration_def dest!: last_in_set)
    have A: "\<exists>ds. DriversRead (Inr ds) \<in> set pre \<and> DriverName \<in> set ds" if "newEvents s s' = pre @ Patched ops e # post" for pre ops e post
    proof -
      from that 2(1) obtain us where "wait = pre @ us \<and> us @ strip = Patched ops e # post \<or> wait @ us = pre"
        unfolding append_eq_append_conv2 [symmetric] by (metis append_eq_append_conv2)
      then have "set wait \<subseteq> set pre" using wait(1) [of ops e] by (auto simp: append_eq_Cons_conv)
      with wait(2) show ?thesis by blast
    qed
    have B: "cur' = filter (\<lambda>t. taintKey t \<noteq> key) cur \<and> cur' \<noteq> cur"
      if "Patched ops e \<in> set (newEvents s s')" "applyTaintOps ops cur = Some cur'" for ops e cur cur'
    proof -
      from that(1) 2(1) wait(1) have "Patched ops e \<in> set strip" by auto
      with 2(3) obtain old where "ops = [TestTaints old, ReplaceTaints (filter (\<lambda>t. taintKey t \<noteq> key) old)]"
          "list_ex (\<lambda>t. taintKey t = key) old" unfolding stripLog_def list_all_iff by blast
      with that(2) show ?thesis by (auto simp: list_ex_iff filter_id_conv split: if_splits)
    qed
    have last: "strip \<noteq> [] \<Longrightarrow> last (newEvents s s') = last strip" using 2(1) by simp
    have C: "r = Some None \<longrightarrow> (\<exists>ts. last (newEvents s s') = TaintsRead (Inr ts) \<and> list_all (\<lambda>t. taintKey t \<noteq> key) ts)
        \<or> (\<exists>ops. last (newEvents s s') = Patched ops None)"
      using 2(3) last unfolding stripLog_def by metis
    have D: "r \<noteq> Some None \<longrightarrow> (\<forall>ops. Patched ops None \<notin> set (newEvents s s'))"
      using 2(3) wait(1) unfolding stripLog_def 2(1) by auto
    from A B C D show ?thesis by blast
  qed
qed

section \<open>Liveness\<close>

text \<open>An outside that settles: some measure of its state never decreases, every tick of the ticker
  increases it and the context is never done; from \<open>T\<close> on the CSINode lists the driver, the node
  can be read and patches are accepted.\<close>

definition settles :: "'w taintEnv \<Rightarrow> string \<Rightarrow> ('w \<Rightarrow> nat) \<Rightarrow> nat \<Rightarrow> bool" where
  "settles env node time T \<longleftrightarrow>
     (\<forall>w. case run_state (selectTick env) w of (t, w') \<Rightarrow> t = None \<and> time w < time w')
     \<and> (\<forall>w. case run_state (csiNodeGet env node) w of (r, w') \<Rightarrow>
           time w \<le> time w' \<and> (T \<le> time w \<longrightarrow> (\<exists>ds. r = Inr ds \<and> DriverName \<in> set ds)))
     \<and> (\<forall>w. case run_state (nodeTaintsGet env node) w of (r, w') \<Rightarrow> time w \<le> time w' \<and> (T \<le> time w \<longrightarrow> (\<exists>ts. r = Inr ts)))
     \<and> (\<forall>ops w. case run_state (nodePatch env node ops) w of (e, w') \<Rightarrow> time w \<le> time w' \<and> (T \<le> time w \<longrightarrow> e = None))"

lemma settlesD:
  assumes "settles env node time T"
  shows "run_state (selectTick env) w = (t, w') \<Longrightarrow> t = None \<and> time w < time w'"
    "run_state (csiNodeGet env node) w = (r, w') \<Longrightarrow> time w \<le> time w' \<and> (T \<le> time w \<longrightarrow> (\<exists>ds. r = Inr ds \<and> DriverName \<in> set ds))"
    "run_state (nodeTaintsGet env node) w = (q, w') \<Longrightarrow> time w \<le> time w' \<and> (T \<le> time w \<longrightarrow> (\<exists>ts. q = Inr ts))"
    "run_state (nodePatch env node ops) w = (e, w') \<Longrightarrow> time w \<le> time w' \<and> (T \<le> time w \<longrightarrow> e = None)"
  using assms unfolding settles_def by (fastforce split: prod.splits)+

lemma wait_settles:
  assumes "settles env node time T" "0 < n \<and> T < time (world s) + n"
  shows "\<exists>s'. run_state (waitForCSINodeDriver env node n) s = (Some None, s') \<and> time (world s) \<le> time (world s')"
  using assms(2)
proof (induction n arbitrary: s)
  case (Suc n)
  obtain r w1 where r: "run_state (csiNodeGet env node) (world s) = (r, w1)" by (metis surj_pair)
  obtain t w2 where t: "run_state (selectTick env) w1 = (t, w2)" by (metis surj_pair)
  note le = settlesD(1) [OF assms(1) t] settlesD(2) [OF assms(1) r]
  show ?case
  proof (cases "\<exists>ds. r = Inr ds \<and> DriverName \<in> set ds")
    case True
    then show ?thesis using r le by (auto simp: run_bind call_def ask_def note_ev_def list_ex_iff)
  next
    case False
    let ?s = "s\<lparr>log := log s @ [DriversRead r], world := w2\<rparr>"
    have "\<not> T \<le> time (world s)" using False le by blast
    then have "0 < n \<and> T < time (world ?s) + n" using Suc.prems le by auto
    from Suc.IH [OF this] obtain s' where s': "run_state (waitForCSINodeDriver env node n) ?s = (Some None, s')" "time w2 \<le> time (world s')"
      by auto
    have "run_state (waitForCSINodeDriver env node (Suc n)) s = run_state (waitForCSINodeDriver env node n) ?s"
      using False r t le by (cases r) (auto simp: run_bind call_def ask_def note_ev_def list_ex_iff)
    with s' le show ?thesis by auto
  qed
qed simp

lemma try_settles:
  assumes "settles env node time T" "run_state (tryRemoveNodeTaint env node key) s = (e, s')"
  shows "time (world s) \<le> time (world s') \<and> (T \<le> time (world s) \<longrightarrow> e = None)"
proof -
  obtain r w1 where r: "run_state (nodeTaintsGet env node) (world s) = (r, w1)" by (metis surj_pair)
  note le = settlesD(3) [OF assms(1) r]
  show ?thesis
  proof (cases r)
    case (Inr ts)
    let ?ops = "[TestTaints ts, ReplaceTaints (filter (\<lambda>t. taintKey t \<noteq> key) ts)]"
    obtain e' w2 where "run_state (nodePatch env node ?ops) w1 = (e', w2)" by (metis surj_pair)
    with settlesD(4) [OF assms(1) this] le assms(2) r Inr show ?thesis
      by (auto simp: tryRemoveNodeTaint_def Let_def run_bind call_def ask_def note_ev_def split: if_splits)
  qed (use assms(2) r le in \<open>auto simp: tryRemoveNodeTaint_def run_bind call_def ask_def note_ev_def\<close>)
qed

lemma remove_settles:
  assumes "settles env node time T" "0 < n \<and> T < time (world s) + n"
  shows "fst (run_state (removeNodeTaint env node key n) s) = Some None"
  using assms(2)
proof (induction n arbitrary: s)
  case (Suc n)
  obtain e s1 where e: "run_state (tryRemoveNodeTaint env node key) s = (e, s1)" by (metis surj_pair)
  obtain t w2 where t: "run_state (selectTick env) (world s1) = (t, w2)" by (metis surj_pair)
  note le = settlesD(1) [OF assms(1) t] try_settles [OF assms(1) e]
  show ?case
  proof (cases "e = None")
    case False
    with Suc.prems le have "0 < n \<and> T < time (world (s1\<lparr>world := w2\<rparr>)) + n" by auto
    from Suc.IH [OF this] False e t le show ?thesis by (auto simp: run_bind ask_def)
  qed (use e in \<open>simp add: run_bind\<close>)
qed simp

text \<open>
  (C34) The taint goes away: if the outside settles, the removal succeeds, whatever errors came
  before; a poll for every unit of time up to \<open>T\<close> is enough fuel for each loop.
\<close>

theorem RemoveStartupTaint_terminates:
  assumes "settles env node time T"
  shows "fst (run_state (RemoveStartupTaint env node key (Suc T) (Suc T)) s) = Some None"
proof -
  obtain s' where "run_state (waitForCSINodeDriver env node (Suc T)) s = (Some None, s')"
    using wait_settles [OF assms, of "Suc T" s] by auto
  then show ?thesis
    using remove_settles [OF assms, of "Suc T" s' key] by (simp add: RemoveStartupTaint_def run_bind del: waitForCSINodeDriver.simps removeNodeTaint.simps)
qed

section \<open>Instances\<close>

text \<open>A server whose state counts the ticks: from the third on everything works, and the taint is
  on the node together with one of somebody else.\<close>

definition sampleTaints :: "taint list" where
  "sampleTaints = [\<lparr>taintKey = ''other'', taintValue = [], taintEffect = ''NoExecute''\<rparr>,
     \<lparr>taintKey = ''agent'', taintValue = [], taintEffect = ''NoSchedule''\<rparr>]"

definition countingEnv :: "nat taintEnv" where
  "countingEnv =
     \<lparr>csiNodeGet = (\<lambda>_. State (\<lambda>w. (if w < 3 then Inl NotFound else Inr [DriverName], w))),
      nodeTaintsGet = (\<lambda>_. State (\<lambda>w. (Inr sampleTaints, w))),
      nodePatch = (\<lambda>_ _. State (\<lambda>w. (if w < 3 then Some Conflict else None, w))),
      selectTick = State (\<lambda>w. (None, Suc w))\<rparr>"

theorem RemoveStartupTaint_terminates_witness:
  "fst (run_state (RemoveStartupTaint countingEnv ''n'' ''agent'' 4 4) \<lparr>vars = (), world = 0, log = []\<rparr>) = Some None"
proof -
  have "settles countingEnv ''n'' (\<lambda>w. w) 3" by (simp add: settles_def countingEnv_def)
  from RemoveStartupTaint_terminates [OF this] show ?thesis by (simp add: numeral_eq_Suc)
qed

theorem RemoveStartupTaint_safe_witness:
  "\<exists>s' :: nat tsys. run_state (RemoveStartupTaint countingEnv ''n'' ''agent'' 1 1) \<lparr>vars = (), world = 3, log = []\<rparr> = (Some None, s')
     \<and> log s' = [DriversRead (Inr [DriverName]), TaintsRead (Inr sampleTaints),
         Patched [TestTaints sampleTaints, ReplaceTaints [hd sampleTaints]] None]
     \<and> (\<forall>cur cur'. applyTaintOps [TestTaints sampleTaints, ReplaceTaints [hd sampleTaints]] cur = Some cur' \<longrightarrow>
          cur' = filter (\<lambda>t. taintKey t \<noteq> ''agent'') cur)"
proof -
  let ?s = "\<lparr>vars = (), world = 3, log = []\<rparr> :: nat tsys"
  let ?l = "[DriversRead (Inr [DriverName]), TaintsRead (Inr sampleTaints),
      Patched [TestTaints sampleTaints, ReplaceTaints [hd sampleTaints]] None]"
  have "run_state (waitForCSINodeDriver countingEnv ''n'' (Suc 0)) ?s = (Some None, ?s\<lparr>log := [DriversRead (Inr [DriverName])]\<rparr>)"
    by (simp add: countingEnv_def run_bind call_def ask_def note_ev_def)
  moreover have "run_state (removeNodeTaint countingEnv ''n'' ''agent'' (Suc 0)) (?s\<lparr>log := [DriversRead (Inr [DriverName])]\<rparr>)
      = (Some None, ?s\<lparr>log := ?l\<rparr>)"
    by (simp add: countingEnv_def run_bind call_def ask_def note_ev_def tryRemoveNodeTaint_def Let_def sampleTaints_def)
  ultimately obtain s' where r: "run_state (RemoveStartupTaint countingEnv ''n'' ''agent'' 1 1) ?s = (Some None, s')" and l: "log s' = ?l"
    by (simp add: RemoveStartupTaint_def run_bind del: waitForCSINodeDriver.simps removeNodeTaint.simps)
  have e: "newEvents ?s s' = log s'" by (simp add: newEvents_def)
  have c: "\<forall>ops e cur cur'. Patched ops e \<in> set ?l \<and> applyTaintOps ops cur = Some cur' \<longrightarrow>
      cur' = filter (\<lambda>t. taintKey t \<noteq> ''agent'') cur \<and> cur' \<noteq> cur"
    by (rule RemoveStartupTaint_safe [OF r, unfolded e l, THEN conjunct2, THEN conjunct1])
  have "Patched [TestTaints sampleTaints, ReplaceTaints [hd sampleTaints]] None \<in> set ?l" by simp
  with c r l show ?thesis by blast
qed

end
