(* ===== verification/Access_Mode.thy ===== *)
theory Access_Mode
  imports Webhook Node_Proofs
begin

text \<open>
  Two programs decide whether a volume is read-only: the webhook when it sizes the sidecar
  (\<open>volumeIsReadOnly\<close> of \<open>pkg/webhook/handler.go\<close>, from the attributes of the volume) and the driver
  when it sizes or rebuilds a mount pod (\<open>ReadOnlyFromArgs\<close> of \<open>pkg/driver/resources.go\<close>, from
  the arguments that \<open>NodePublishVolume\<close> and \<open>buildArgs\<close> derive from the request). They agree.
\<close>

lemma splitFlags_words:
  "''repo'' \<notin> set (splitFlags raw)"
  "''--read-only'' \<in> set (splitFlags raw) \<longleftrightarrow> list_ex (\<lambda>f. TrimSpace f = ''read-only'') (Split raw (CHR '',''))"
proof -
  have "\<not> list_ex (\<lambda>f. TrimSpace f = ''read-only'') (Split [] (CHR '',''))"
    by (simp add: TrimSpace_def TrimFunc_def)
  moreover have "''--read-only'' \<in> (\<lambda>f. ''--'' @ f) ` {w \<in> TrimSpace ` A. w \<noteq> []} \<longleftrightarrow> (\<exists>f\<in>A. TrimSpace f = ''read-only'')" for A
    by (force simp: image_iff)
  ultimately show "''--read-only'' \<in> set (splitFlags raw) \<longleftrightarrow> list_ex (\<lambda>f. TrimSpace f = ''read-only'') (Split raw (CHR '',''))"
    unfolding splitFlags_def by (cases "raw = []") (simp_all add: list_ex_iff)
qed (auto simp: splitFlags_def)

lemma extraArgs_words:
  "''repo'' \<notin> set (ExtraArgs (publishOptions d req cap))"
  "''--read-only'' \<in> set (ExtraArgs (publishOptions d req cap)) \<longleftrightarrow>
     ''read-only'' \<in> set (capMountFlags cap)
     \<or> list_ex (\<lambda>f. TrimSpace f = ''read-only'') (Split (lookupStr (pubVolumeContext req) volumeCtxMountFlags) (CHR '',''))"
  by (auto simp: publishOptions_def Let_def splitFlags_words)

text \<open>
  (C10) The webhook and the driver agree on the access mode: for a published volume whose
  attributes the driver sees as the webhook saw them, the arguments of the daemon are classified
  read-only exactly when the webhook takes the volume for read-only from its source type, its
  flags, the read-only bit of the request and its mount options. No option value, source ID or
  path may itself be one of the two words the classification looks for.
\<close>

theorem webhook_driver_access_mode:
  assumes "buildArgs (lookupStr (pubVolumeContext req) volumeCtxSourceType) sid tgt (publishOptions d req cap) = Inr args"
    "{''--read-only'', ''repo''} \<inter> (set (optionValues (publishOptions d req cap)) \<union> {sid, tgt}) = {}"
    "pubVolumeContext req volumeCtxSourceType = attrs volumeAttrSourceType"
    "pubVolumeContext req volumeCtxMountFlags = attrs volumeAttrMountFlags"
  shows "ReadOnlyFromArgs args \<longleftrightarrow>
    volumeIsReadOnly (Some (pubReadonly req \<or> ''read-only'' \<in> set (capMountFlags cap))) attrs"
proof -
  have "ReadOnly (publishOptions d req cap) = pubReadonly req" by (simp add: publishOptions_def Let_def)
  with ReadOnlyFromArgs_buildArgs [OF assms(1,2)] extraArgs_words [of d req cap] assms(3,4) show ?thesis
    by (auto simp: volumeIsReadOnly_def attr_def lookupStr_def)
qed

theorem webhook_driver_access_mode_witness:
  "\<exists>args. buildArgs ''bucket'' ''o/d'' ''/mnt/hf/0'' (publishOptions sampleDriver sampleRequest \<lparr>capMountFlags = [''read-only''], capVolumeMountGroup = []\<rparr>)
       = Inr args \<and> ReadOnlyFromArgs args \<and> volumeIsReadOnly (Some True) (pubVolumeContext sampleRequest)"
proof -
  let ?opts = "publishOptions sampleDriver sampleRequest \<lparr>capMountFlags = [''read-only''], capVolumeMountGroup = []\<rparr>"
  have st: "lookupStr (pubVolumeContext sampleRequest) volumeCtxSourceType = ''bucket''"
    by (simp add: sampleRequest_def lookupStr_def volumeCtx_defs)
  obtain args where args: "buildArgs ''bucket'' ''o/d'' ''/mnt/hf/0'' ?opts = Inr args"
    by (simp add: buildArgs_def Let_def)
  have keys: "volumeCtxSourceType = volumeAttrSourceType" "volumeCtxMountFlags = volumeAttrMountFlags"
    by (simp_all add: volumeCtxSourceType_def volumeAttrSourceType_def volumeCtxMountFlags_def volumeAttrMountFlags_def)
  have "CacheDir ?opts = ''/c/v''"
    by (simp add: publishOptions_def Let_def sampleRequest_def sampleDriver_def getWithDefault_def volumeCtx_defs volumeCtxCacheDir_def) code_simp
  then have "{''--read-only'', ''repo''} \<inter> (set (optionValues ?opts) \<union> {''o/d'', ''/mnt/hf/0''}) = {}"
    by (simp add: optionValues_def) (simp add: publishOptions_def Let_def sampleRequest_def lookupStr_def publishToken_def getWithDefault_def
        volumeCtx_defs volumeCtxHubEndpoint_def volumeCtxCacheSize_def volumeCtxPollInterval_def volumeCtxPollListingConcurrency_def
        volumeCtxMetadataTtl_def volumeCtxInodeSoftLimit_def volumeCtxLruSweepIntervalMs_def)
  with webhook_driver_access_mode [of sampleRequest "''o/d''" "''/mnt/hf/0''" sampleDriver
      "\<lparr>capMountFlags = [''read-only''], capVolumeMountGroup = []\<rparr>" args "pubVolumeContext sampleRequest", unfolded st] args keys
  show ?thesis by (simp add: volumeIsReadOnly_def)
qed

end
