(* ===== verification/Driver_Process.thy ===== *)
theory Driver_Process
  imports Effects Go_Paths
begin

text \<open>
  The process around the services: the endpoint (\<open>ParseEndpoint\<close> of \<open>pkg/driver/driver.go\<close> on a
  model of \<open>net/url\<close>), the start and stop of the driver (\<open>Run\<close>, \<open>Stop\<close>) and the start of a node
  (\<open>runNode\<close> of \<open>cmd/hf-csi-driver/main.go\<close>). The checks of hosts with brackets, which differ
  between releases of Go, are a parameter.
\<close>

section \<open>URLs\<close>

record URL =
  urlScheme :: string
  urlHost :: string
  urlPath :: string

definition isCTL :: "char \<Rightarrow> bool" where
  "isCTL c = ((of_char c :: nat) < 0x20 \<or> c = CHR 0x7F)"

definition isLetter :: "char \<Rightarrow> bool" where
  "isLetter c = (let n = of_char c :: nat in 65 \<le> n \<and> n \<le> 90 \<or> 97 \<le> n \<and> n \<le> 122)"

definition isHex :: "char \<Rightarrow> bool" where
  "isHex c = (let n = of_char c :: nat in 48 \<le> n \<and> n \<le> 57 \<or> 65 \<le> n \<and> n \<le> 70 \<or> 97 \<le> n \<and> n \<le> 102)"

definition hexVal :: "char \<Rightarrow> nat" where
  "hexVal c = (let n = of_char c in if n < 58 then n - 48 else if n < 71 then n - 55 else n - 87)"

definition cutAt :: "string \<Rightarrow> char \<Rightarrow> string \<times> string" where
  "cutAt s c = (case IndexByte s c of None \<Rightarrow> (s, []) | Some i \<Rightarrow> (take i s, drop (Suc i) s))"

text \<open>\<open>getScheme\<close>: the scheme and the rest, nothing when the scheme is missing before its colon.\<close>

fun schemeFrom :: "string \<Rightarrow> string \<Rightarrow> string \<Rightarrow> (string \<times> string) option" where
  "schemeFrom whole seen [] = Some ([], whole)"
| "schemeFrom whole seen (c # s) =
     (if isLetter c then schemeFrom whole (seen @ [c]) s
      else if isDigit c \<or> c \<in> set ''+-.'' then
        if seen = [] then Some ([], whole) else schemeFrom whole (seen @ [c]) s
      else if c = CHR '':'' then if seen = [] then None else Some (seen, s)
      else Some ([], whole))"

definition getScheme :: "string \<Rightarrow> (string \<times> string) option" where
  "getScheme s = schemeFrom s [] s"

definition hostSafe :: "char \<Rightarrow> bool" where
  "hostSafe c = (isLetter c \<or> isDigit c \<or> c \<in> set ''!$&()*+,;=:[]<>-_.~'' \<or> c = CHR 0x27 \<or> c = CHR 0x22)"

text \<open>\<open>unescape\<close>; in a host only bytes from 128 on and the percent sign may be escaped.\<close>

fun unescape :: "bool \<Rightarrow> string \<Rightarrow> string option" where
  "unescape host [] = Some []"
| "unescape host (c # s) =
     (if c = CHR 0x25 then
        (case s of
           a # b # s' \<Rightarrow>
             if isHex a \<and> isHex b \<and> \<not> (host \<and> hexVal a < 8 \<and> [a, b] \<noteq> ''25'')
             then map_option (\<lambda>t. char_of (16 * hexVal a + hexVal b) # t) (unescape host s') else None
         | _ \<Rightarrow> None)
      else if host \<and> (of_char c :: nat) < 0x80 \<and> \<not> hostSafe c then None
      else map_option (\<lambda>t. c # t) (unescape host s))"

definition lastIndex :: "string \<Rightarrow> char \<Rightarrow> nat option" where
  "lastIndex s c = map_option (\<lambda>i. length s - Suc i) (IndexByte (rev s) c)"

definition parseHost :: "(string \<Rightarrow> string option) \<Rightarrow> string \<Rightarrow> string option" where
  "parseHost bracketHost host =
     (if CHR ''['' \<in> set host then bracketHost host
      else case lastIndex host (CHR '':'') of
          Some i \<Rightarrow> if list_all isDigit (drop (Suc i) host) then unescape True host else None
        | None \<Rightarrow> unescape True host)"

definition validUserinfo :: "string \<Rightarrow> bool" where
  "validUserinfo s = list_all (\<lambda>c. isLetter c \<or> isDigit c \<or> c \<in> set ''-._:~!$&()*+,;=%@'' \<or> c = CHR 0x27) s"

definition parseAuthority :: "(string \<Rightarrow> string option) \<Rightarrow> string \<Rightarrow> string option" where
  "parseAuthority bracketHost authority =
     (case lastIndex authority (CHR ''@'') of
        None \<Rightarrow> parseHost bracketHost authority
      | Some i \<Rightarrow>
          (case parseHost bracketHost (drop (Suc i) authority) of
             None \<Rightarrow> None
           | Some host \<Rightarrow>
               (let userinfo = take i authority; parts = cutAt userinfo (CHR '':'') in
                if validUserinfo userinfo \<and> unescape False (fst parts) \<noteq> None \<and> unescape False (snd parts) \<noteq> None
                then Some host else None)))"

text \<open>The part before the fragment.\<close>

definition parseURL :: "(string \<Rightarrow> string option) \<Rightarrow> string \<Rightarrow> URL option" where
  "parseURL bracketHost raw =
     (if list_ex isCTL raw then None
      else if raw = ''*'' then Some \<lparr>urlScheme = [], urlHost = [], urlPath = ''*''\<rparr>
      else case getScheme raw of
          None \<Rightarrow> None
        | Some (scheme0, rest0) \<Rightarrow>
            (let scheme = ToLower scheme0; rest = fst (cutAt rest0 (CHR ''?'')) in
             if \<not> HasPrefix rest ''/'' \<and> scheme \<noteq> [] then Some \<lparr>urlScheme = scheme, urlHost = [], urlPath = []\<rparr>
             else if \<not> HasPrefix rest ''/'' \<and> CHR '':'' \<in> set (fst (cutAt rest slash)) then None
             else
               (let hasHost = ((scheme \<noteq> [] \<or> \<not> HasPrefix rest ''///'') \<and> HasPrefix rest ''//'');
                    authority = (if hasHost then fst (cutAt (drop 2 rest) slash) else []);
                    path = (if hasHost then drop (2 + length authority) rest else rest)
                in case parseAuthority bracketHost authority of
                     None \<Rightarrow> None
                   | Some host \<Rightarrow>
                       map_option (\<lambda>p. \<lparr>urlScheme = scheme, urlHost = host, urlPath = p\<rparr>) (unescape False path))))"

definition urlParse :: "(string \<Rightarrow> string option) \<Rightarrow> string \<Rightarrow> URL option" where
  "urlParse bracketHost raw =
     (case cutAt raw (CHR ''#'') of
        (u, frag) \<Rightarrow> if unescape False frag = None then None else parseURL bracketHost u)"

section \<open>The endpoint\<close>

datatype endpointErr = BadEndpoint | UnsupportedScheme string

definition ParseEndpoint :: "(string \<Rightarrow> string option) \<Rightarrow> string \<Rightarrow> endpointErr + string \<times> string" where
  "ParseEndpoint bracketHost endpoint =
     (case urlParse bracketHost endpoint of
        None \<Rightarrow> Inl BadEndpoint
      | Some u \<Rightarrow>
          if urlScheme u \<noteq> ''unix'' then Inl (UnsupportedScheme (urlScheme u))
          else Inr (urlScheme u, if urlPath u = [] then urlHost u else urlPath u))"

section \<open>Run and Stop\<close>

text \<open>The variables of the driver both calls use: how often \<open>stopCh\<close> was closed, \<open>stopOnce\<close>, and
  whether \<open>srv\<close> is set.\<close>

record driverProc =
  stopChCloses :: nat
  stopOnceDone :: bool
  srvSet :: bool

datatype procEvent =
    SocketRemoved string "oserr option"
  | SocketDirMade string "oserr option"
  | MounterStarted
  | RecoverSpawned
  | Listened string "oserr option"
  | SocketChmod string "oserr option"
  | ServeStarted
  | GracefulStopped
  | ForcedStop
  | MounterCreated string "string list"
  | Spawned string
  | VersionPrinted
  | ManagerCreated int string "string option"
  | ReadyzAdded "string option"
  | HandlerRegistered string string string
  | ManagerStarted int

datatype procErr = EndpointErr endpointErr | SocketErr string oserr | ServeErr string

text \<open>\<open>gracefulInTime\<close> says whether the graceful stop ends within its ten seconds; \<open>serve\<close> is the
  error the server ends with, nothing when it was stopped.\<close>

record 'w procEnv =
  removeSocket :: "string \<Rightarrow> ('w, oserr option) state"
  makeDir :: "string \<Rightarrow> ('w, oserr option) state"
  listenUnix :: "string \<Rightarrow> ('w, oserr option) state"
  chmodSocket :: "string \<Rightarrow> ('w, oserr option) state"
  serve :: "('w, string option) state"
  gracefulInTime :: "('w, bool) state"
  osHostname :: "('w, string option) state"
  clusterClients :: "('w, string option) state"

type_synonym 'w proc = "(driverProc, 'w, procEvent) sys"

definition Run :: "(string \<Rightarrow> string option) \<Rightarrow> 'w procEnv \<Rightarrow> string \<Rightarrow> ('w proc, procErr option) state" where
  "Run bracketHost env endpoint =
     (case ParseEndpoint bracketHost endpoint of
        Inl e \<Rightarrow> State_Monad.return (Some (EndpointErr e))
      | Inr (scheme, addr) \<Rightarrow>
          do { re \<leftarrow> call (removeSocket env addr) (SocketRemoved addr);
               if re \<noteq> None \<and> re \<noteq> Some ENOENT then State_Monad.return (Some (SocketErr ''remove'' (the re)))
               else
                 do { me \<leftarrow> call (makeDir env (Dir addr)) (SocketDirMade (Dir addr));
                      case me of
                        Some e \<Rightarrow> State_Monad.return (Some (SocketErr ''mkdir'' e))
                      | None \<Rightarrow>
                          do { note_ev MounterStarted;
                               note_ev RecoverSpawned;
                               le \<leftarrow> call (listenUnix env addr) (Listened addr);
                               case le of
                                 Some e \<Rightarrow> State_Monad.return (Some (SocketErr ''listen'' e))
                               | None \<Rightarrow>
                                   do { ce \<leftarrow> call (chmodSocket env addr) (SocketChmod addr);
                                        case ce of
                                          Some e \<Rightarrow> State_Monad.return (Some (SocketErr ''chmod'' e))
                                        | None \<Rightarrow>
                                            do { v \<leftarrow> getVars;
                                                 setVars (v\<lparr>srvSet := True\<rparr>);
                                                 note_ev ServeStarted;
                                                 se \<leftarrow> ask (serve env);
                                                 State_Monad.return (map_option ServeErr se) } } } } })"

definition Stop :: "'w procEnv \<Rightarrow> ('w proc, unit) state" where
  "Stop env =
     do { v \<leftarrow> getVars;
          setVars (if stopOnceDone v then v else v\<lparr>stopOnceDone := True, stopChCloses := stopChCloses v + 1\<rparr>);
          if \<not> srvSet v then State_Monad.return ()
          else
            do { note_ev GracefulStopped;
                 ok \<leftarrow> ask (gracefulInTime env);
                 whenM (\<not> ok) (note_ev ForcedStop) } }"

section \<open>The node\<close>

record nodeFlags =
  flagEndpoint :: string
  flagNodeID :: string
  flagMountImage :: string
  flagPullSecrets :: string
  flagFuseSweepEnabled :: bool
  flagStartupTaintKey :: string

datatype nodeExit = Fatal string | Finished

definition pullSecretNames :: "string \<Rightarrow> string list" where
  "pullSecretNames raw =
     (if raw \<noteq> [] then filter (\<lambda>n. n \<noteq> []) (map TrimSpace (Split raw (CHR '',''))) else [])"

definition runNode ::
  "(string \<Rightarrow> string option) \<Rightarrow> 'w procEnv \<Rightarrow> nodeFlags \<Rightarrow> ('w proc, nodeExit) state" where
  "runNode bracketHost env flags =
     do { name \<leftarrow> (if flagNodeID flags = [] then ask (osHostname env) else State_Monad.return (Some (flagNodeID flags)));
          if name = None then State_Monad.return (Fatal ''Failed to get hostname'')
          else if flagMountImage flags = [] then State_Monad.return (Fatal ''--mount-image is required'')
          else
            do { c \<leftarrow> ask (clusterClients env);
                 case c of
                   Some e \<Rightarrow> State_Monad.return (Fatal e)
                 | None \<Rightarrow>
                     do { note_ev (MounterCreated (the name) (pullSecretNames (flagPullSecrets flags)));
                          note_ev (Spawned ''StartVolDataReconciler'');
                          whenM (flagFuseSweepEnabled flags) (note_ev (Spawned ''StartFuseSweeper''));
                          whenM (flagStartupTaintKey flags \<noteq> []) (note_ev (Spawned ''RemoveStartupTaint''));
                          note_ev (Spawned ''signal handler'');
                          r \<leftarrow> Run bracketHost env (flagEndpoint flags);
                          State_Monad.return
                            (if r = None \<or> r = Some (ServeErr ''ErrServerStopped'') then Finished else Fatal ''Failed to run driver'') } } }"

section \<open>Endpoints\<close>

definition plainEndpoint :: "string \<Rightarrow> bool" where
  "plainEndpoint p = list_all (\<lambda>c. \<not> isCTL c \<and> c \<notin> {CHR 0x25, CHR ''?'', CHR ''#''}) p"

lemma unescape_plain: "CHR 0x25 \<notin> set p \<Longrightarrow> unescape False p = Some p"
  by (induction p) auto

lemma cutAt_notin:
  assumes "c \<notin> set s"
  shows "cutAt s c = (s, [])"
proof -
  have "IndexByte s c = None" using assms by simp
  then show ?thesis unfolding cutAt_def by (simp only: option.case)
qed

lemma getScheme_unix: "getScheme (''unix:'' @ p) = Some (''unix'', p)"
  by (simp add: getScheme_def isLetter_def isDigit_def Let_def)

lemma urlParse_unix:
  assumes "plainEndpoint p"
  shows "urlParse bh (''unix:'' @ p) = parseURL bh (''unix:'' @ p)" "\<not> list_ex isCTL (''unix:'' @ p)" "cutAt p (CHR ''?'') = (p, [])"
proof -
  have "CHR ''#'' \<notin> set p" "CHR ''?'' \<notin> set p" "\<not> list_ex isCTL p"
    using assms by (auto simp: plainEndpoint_def list_all_iff list_ex_iff)
  then show "urlParse bh (''unix:'' @ p) = parseURL bh (''unix:'' @ p)" "\<not> list_ex isCTL (''unix:'' @ p)" "cutAt p (CHR ''?'') = (p, [])"
    by (simp_all add: urlParse_def cutAt_notin isCTL_def)
qed

text \<open>
  Endpoints: \<open>unix://\<close> and \<open>unix:\<close> before an absolute path give this path, any other scheme is
  refused, but \<open>unix:\<close> before a relative path, which \<open>net/url\<close> calls opaque, is accepted with an
  empty address.
\<close>

lemma parseAuthority_empty: "parseAuthority bh [] = Some []"
  by (simp add: parseAuthority_def parseHost_def lastIndex_def)

lemma parseURL_unix:
  assumes "plainEndpoint p"
  shows "HasPrefix p ''/'' \<Longrightarrow> parseURL bh (''unix:'' @ ''//'' @ p) = Some \<lparr>urlScheme = ''unix'', urlHost = [], urlPath = p\<rparr>"
    "HasPrefix p ''/'' \<Longrightarrow> \<not> HasPrefix p ''//'' \<Longrightarrow> parseURL bh (''unix:'' @ p) = Some \<lparr>urlScheme = ''unix'', urlHost = [], urlPath = p\<rparr>"
    "\<not> HasPrefix p ''/'' \<Longrightarrow> parseURL bh (''unix:'' @ p) = Some \<lparr>urlScheme = ''unix'', urlHost = [], urlPath = []\<rparr>"
proof -
  have unix: "ToLower ''unix'' = ''unix''" by (simp add: ToLower_def toLowerByte_def)
  have pp: "plainEndpoint (''//'' @ p)" using assms by (simp add: plainEndpoint_def isCTL_def)
  have path: "unescape False p = Some p" using assms by (intro unescape_plain) (auto simp: plainEndpoint_def list_all_iff)
  show "parseURL bh (''unix:'' @ ''//'' @ p) = Some \<lparr>urlScheme = ''unix'', urlHost = [], urlPath = p\<rparr>" if "HasPrefix p ''/''"
  proof -
    have "cutAt p slash = ([], tl p)" using that by (cases p) (auto simp: cutAt_def)
    then show ?thesis
      unfolding parseURL_def getScheme_unix
      using urlParse_unix(2,3) [OF pp] by (simp add: unix path parseAuthority_empty)
  qed
  show "parseURL bh (''unix:'' @ p) = Some \<lparr>urlScheme = ''unix'', urlHost = [], urlPath = p\<rparr>"
    if "HasPrefix p ''/''" "\<not> HasPrefix p ''//''"
    unfolding parseURL_def getScheme_unix
    using that urlParse_unix(2,3) [OF assms] by (simp add: unix path parseAuthority_empty)
  show "parseURL bh (''unix:'' @ p) = Some \<lparr>urlScheme = ''unix'', urlHost = [], urlPath = []\<rparr>" if "\<not> HasPrefix p ''/''"
    unfolding parseURL_def getScheme_unix
    using that urlParse_unix(2,3) [OF assms] by (simp add: unix)
qed

theorem ParseEndpoint_unix:
  assumes "plainEndpoint p"
  shows "(HasPrefix p ''/'' \<longrightarrow> ParseEndpoint bh (''unix:'' @ ''//'' @ p) = Inr (''unix'', p))
    \<and> (HasPrefix p ''/'' \<and> \<not> HasPrefix p ''//'' \<longrightarrow> ParseEndpoint bh (''unix:'' @ p) = Inr (''unix'', p))
    \<and> (\<not> HasPrefix p ''/'' \<longrightarrow> ParseEndpoint bh (''unix:'' @ p) = Inr (''unix'', []))
    \<and> (ParseEndpoint bh s = Inr (scheme, addr) \<longrightarrow> scheme = ''unix'')"
proof -
  have pp: "plainEndpoint (''//'' @ p)" using assms by (simp add: plainEndpoint_def isCTL_def)
  have "ParseEndpoint bh s = Inr (scheme, addr) \<longrightarrow> scheme = ''unix''"
    by (auto simp: ParseEndpoint_def split: option.splits if_splits)
  moreover have "HasPrefix p ''/'' \<Longrightarrow> p \<noteq> []" by auto
  ultimately show ?thesis
    using parseURL_unix [OF assms, of bh] urlParse_unix(1) [OF pp, of bh] urlParse_unix(1) [OF assms, of bh]
    by (auto simp: ParseEndpoint_def)
qed

section \<open>Starting and stopping\<close>

text \<open>
  The socket opens whatever the API server does: before it listens, \<open>Run\<close> only removes the old
  socket, makes its directory and starts the background work; it serves exactly when each step
  succeeded, and the server is set only then.
\<close>

theorem Run_order:
  assumes "run_state (Run bh env endpoint) s = (r, s')" "ServeStarted \<in> set (newEvents s s')"
  shows "srvSet (vars s') \<and> (\<exists>addr re. re \<in> {None, Some ENOENT} \<and> ParseEndpoint bh endpoint = Inr (''unix'', addr)
    \<and> newEvents s s' = [SocketRemoved addr re, SocketDirMade (Dir addr) None, MounterStarted, RecoverSpawned, Listened addr None,
         SocketChmod addr None, ServeStarted])"
proof -
  have unix: "scheme = ''unix''" if "ParseEndpoint bh endpoint = Inr (scheme, addr)" for scheme addr
    using that by (auto simp: ParseEndpoint_def split: option.splits if_splits)
  have "eff (Run bh env endpoint) (\<lambda>r v evs. ServeStarted \<in> set evs \<longrightarrow> srvSet v
      \<and> (\<exists>addr re. re \<in> {None, Some ENOENT} \<and> ParseEndpoint bh endpoint = Inr (''unix'', addr)
        \<and> evs = [SocketRemoved addr re, SocketDirMade (Dir addr) None, MounterStarted, RecoverSpawned, Listened addr None,
             SocketChmod addr None, ServeStarted])) (vars s)"
    unfolding Run_def by (intro eff_intros) (auto dest: unix)
  from eff_newEvents [OF this assms(1)] assms(2) show ?thesis by blast
qed

text \<open>The channel is closed at most once, however often \<open>Stop\<close> is called, so it never panics.\<close>

definition stopInv :: "driverProc \<Rightarrow> bool" where
  "stopInv v \<longleftrightarrow> stopChCloses v = (if stopOnceDone v then 1 else 0)"

lemma Stop_once:
  assumes "stopInv (vars s)" "run_state (Stop env) s = (u, s')"
  shows "stopInv (vars s') \<and> stopChCloses (vars s') = 1 \<and> srvSet (vars s') = srvSet (vars s)"
proof -
  have "eff (Stop env) (\<lambda>_ v _. stopInv v \<and> stopChCloses v = 1 \<and> srvSet v = srvSet (vars s)) (vars s)"
    unfolding Stop_def by (intro eff_intros) (use assms(1) in \<open>auto simp: stopInv_def\<close>)
  from eff_newEvents [OF this assms(2)] show ?thesis .
qed

text \<open>
  A stop that comes before the server is set is lost: the channel is closed, but a \<open>Run\<close> that has
  not reached the server yet goes on to serve.
\<close>

theorem Stop_before_serve:
  assumes "\<not> srvSet (vars s)" "run_state (Stop env) s = (u, s1)" "run_state (Run bh env endpoint) s1 = (None, s2)"
  shows "ServeStarted \<in> set (newEvents s1 s2) \<and> stopOnceDone (vars s2) \<and> newEvents s s1 = []"
proof -
  have "eff (Stop env) (\<lambda>_ v evs. stopOnceDone v \<and> evs = []) (vars s)"
    unfolding Stop_def by (intro eff_intros) (use assms(1) in auto)
  from eff_newEvents [OF this assms(2)] have stop: "stopOnceDone (vars s1)" "newEvents s s1 = []" by auto
  have "eff (Run bh env endpoint) (\<lambda>r v evs. stopOnceDone v \<and> (r = None \<longrightarrow> ServeStarted \<in> set evs)) (vars s1)"
    unfolding Run_def by (intro eff_intros) (use stop(1) in auto)
  from eff_newEvents [OF this assms(3)] stop show ?thesis by auto
qed

text \<open>
  A node starts nothing before its configuration is complete, and the taint is touched only when a
  key is given.
\<close>

theorem runNode_guards:
  assumes "run_state (runNode bh env flags) s = (r, s')"
  shows "(flagMountImage flags = [] \<longrightarrow> newEvents s s' = [])
    \<and> (Spawned ''RemoveStartupTaint'' \<in> set (newEvents s s') \<longrightarrow> flagStartupTaintKey flags \<noteq> [])
    \<and> (newEvents s s' \<noteq> [] \<longrightarrow> (\<exists>n. hd (newEvents s s') = MounterCreated n (pullSecretNames (flagPullSecrets flags))
          \<and> (flagNodeID flags \<noteq> [] \<longrightarrow> n = flagNodeID flags)))"
proof -
  have run: "eff (Run bh env endpoint) (\<lambda>_ _ evs. \<forall>n. Spawned n \<notin> set evs) v" for endpoint v
    unfolding Run_def by (intro eff_intros) auto
  have "eff (runNode bh env flags) (\<lambda>_ _ evs. (flagMountImage flags = [] \<longrightarrow> evs = [])
      \<and> (Spawned ''RemoveStartupTaint'' \<in> set evs \<longrightarrow> flagStartupTaintKey flags \<noteq> [])
      \<and> (evs \<noteq> [] \<longrightarrow> (\<exists>n. hd evs = MounterCreated n (pullSecretNames (flagPullSecrets flags))
          \<and> (flagNodeID flags \<noteq> [] \<longrightarrow> n = flagNodeID flags)))) (vars s)"
    unfolding runNode_def by (intro eff_intros eff_mono [OF run]) auto
  from eff_newEvents [OF this assms] show ?thesis .
qed

end
