(* ===== verification/HFMount_Schema.thy ===== *)
theory HFMount_Schema
  imports Node_Pods Pod_Cleanup
begin

text \<open>
  The type of the HFMount resource: the structural schema of \<open>deploy/kubernetes/crd.yaml\<close>, a typing
  judgement for objects and the proof that every object the driver writes is well typed.

  The API server rejects a write that violates the schema and prunes fields the schema does not
  declare, so \<open>hasSchema\<close> asks for declared fields only. \<open>gated api\<close> is a server that turns away
  everything else; the theorems say that the driver cannot tell it from \<open>api\<close>. They assume that
  what the server serves is well typed (it has checked every write) and that its clock shows a
  year of four digits, without which RFC 3339 has no form for the attachment time.
\<close>

section \<open>Schemas\<close>

datatype schema =
    StringT "string list option"
  | DateTimeT
  | ArrayT schema
  | ObjectT "(string \<times> schema) list" "string list"

function hasSchema :: "schema \<Rightarrow> json \<Rightarrow> bool" where
  "hasSchema (StringT en) v =
     (case v of JString s \<Rightarrow> (case en of None \<Rightarrow> True | Some vs \<Rightarrow> s \<in> set vs) | _ \<Rightarrow> False)"
| "hasSchema DateTimeT v = (case v of JString s \<Rightarrow> ParseRFC3339 s \<noteq> None | _ \<Rightarrow> False)"
| "hasSchema (ArrayT t) v = (case v of JList l \<Rightarrow> list_all (hasSchema t) l | _ \<Rightarrow> False)"
| "hasSchema (ObjectT props req) v =
     (case v of
        JMap m \<Rightarrow> list_all (\<lambda>k. k \<in> fst ` set m) req
          \<and> list_all (\<lambda>e. case map_of props (fst e) of None \<Rightarrow> False | Some t \<Rightarrow> hasSchema t (snd e)) m
      | _ \<Rightarrow> False)"
  by pat_completeness auto
termination
proof (relation "measure (size \<circ> fst)")
  fix props :: "(string \<times> schema) list" and req v m e t
  assume "map_of props (fst e) = Some t"
  then have "(fst e, t) \<in> set props" by (rule map_of_SomeD)
  then have "size t \<le> size_list (size_prod (\<lambda>_. 0) size) props" by (rule size_list_estimation') simp
  then show "((t, snd e), ObjectT props req, v) \<in> measure (size \<circ> fst)" by simp
qed simp_all

text \<open>The schema of \<open>spec\<close> and \<open>status\<close>.\<close>

definition workloadSchema :: schema where
  "workloadSchema =
     ObjectT [(''podUID'', StringT None), (''targetPath'', StringT None), (''attachmentTime'', DateTimeT)] []"

definition resourcesSchema :: schema where
  "resourcesSchema =
     ObjectT [(''cpuLimit'', StringT None), (''cpuRequest'', StringT None), (''memoryLimit'', StringT None),
              (''memoryRequest'', StringT None)] []"

definition specSchema :: schema where
  "specSchema =
     ObjectT
       [(''nodeName'', StringT None), (''volumeID'', StringT None), (''sourceType'', StringT (Some [''repo'', ''bucket''])),
        (''sourceID'', StringT None), (''mountPodName'', StringT None), (''mountPath'', StringT None),
        (''mountArgs'', ArrayT (StringT None)), (''resources'', resourcesSchema), (''workloads'', ArrayT workloadSchema)]
       [''nodeName'', ''sourceType'', ''sourceID'', ''mountPodName'', ''mountPath'']"

definition statusSchema :: schema where
  "statusSchema =
     ObjectT [(''phase'', StringT (Some [''Pending'', ''Mounted'', ''Failed''])), (''message'', StringT None)] []"

definition typedPart :: "schema \<Rightarrow> (string, json) gomap option \<Rightarrow> bool" where
  "typedPart t part = (case part of None \<Rightarrow> True | Some m \<Rightarrow> hasSchema t (JMap m))"

definition typedObj :: "hfObj \<Rightarrow> bool" where
  "typedObj obj = (typedPart specSchema (objSpec obj) \<and> typedPart statusSchema (objStatus obj))"

lemmas schema_defs = specSchema_def statusSchema_def workloadSchema_def resourcesSchema_def

section \<open>What the driver writes is well typed\<close>

lemma hasSchema_put:
  assumes "hasSchema (ObjectT props req) (JMap m)" "map_of props k = Some t" "hasSchema t v"
  shows "hasSchema (ObjectT props req) (JMap (put_key k v m))"
proof -
  let ?ok = "\<lambda>e. case map_of props (fst e) of None \<Rightarrow> False | Some t \<Rightarrow> hasSchema t (snd e)"
  have "list_all ?ok m \<Longrightarrow> list_all ?ok (put_key k v m)"
    using assms(2,3) by (induction m) auto
  moreover have "fst ` set m \<subseteq> fst ` set (put_key k v m)" by (induction m) auto
  ultimately show ?thesis using assms(1) by (auto simp: list_all_iff)
qed

lemma ToStringMap_keys:
  "fst ` set (ToStringMap ops r) \<subseteq> {''cpuLimit'', ''cpuRequest'', ''memoryLimit'', ''memoryRequest''}"
proof -
  have put: "fst ` set (putField ops k f m) \<subseteq> K" if "fst ` set m \<subseteq> K" "k \<in> K" for k f m K
    using that by (cases f) (simp_all add: putField_def dom_update)
  show ?thesis unfolding ToStringMap_def Let_def by (intro put) (simp_all add: volumeCtxCPULimit_def volumeCtxCPURequest_def
      volumeCtxMemoryLimit_def volumeCtxMemoryRequest_def)
qed

lemma resources_typed:
  assumes "ToUnstructured ops r = Some res"
  shows "hasSchema resourcesSchema (JMap res)"
proof -
  from assms have "res = map (\<lambda>(k, v). (k, JString v)) (ToStringMap ops r)"
    by (auto simp: ToUnstructured_def Let_def split: if_splits)
  then have "\<exists>s. snd e = JString s" "fst e \<in> {''cpuLimit'', ''cpuRequest'', ''memoryLimit'', ''memoryRequest''}"
    if "e \<in> set res" for e using that ToStringMap_keys [of ops r] by auto
  then show ?thesis by (fastforce simp: resourcesSchema_def list_all_iff)
qed

lemma specMap_typed:
  assumes "hfSourceType s \<in> {''bucket'', ''repo''}"
  shows "hasSchema specSchema (JMap (specMap ops s))"
proof -
  have "hasSchema (ArrayT (StringT None)) (JList (map JString xs))" for xs by (simp add: list_all_iff)
  then show ?thesis
    using assms resources_typed [of ops "hfResources s"] by (auto simp: specMap_def specSchema_def split: option.splits)
qed

lemma workloadEntry_typed: "fourDigitYear now \<Longrightarrow> hasSchema workloadSchema (workloadEntry uid tgt now)"
  by (simp add: workloadSchema_def workloadEntry_def ParseRFC3339_Format)

lemma workloads_typed:
  assumes "typedPart specSchema spec"
  shows "list_all (hasSchema workloadSchema) (workloadsOf spec)"
proof (cases "specAt spec ''workloads''")
  case (Some v)
  then obtain m where m: "spec = Some m" "(''workloads'', v) \<in> set m"
    by (auto simp: specAt_def split: option.splits dest: map_of_SomeD)
  with assms have "hasSchema (ArrayT workloadSchema) v"
    by (fastforce simp: typedPart_def specSchema_def list_all_iff)
  with Some show ?thesis by (auto simp: workloadsOf_def split: json.splits)
qed (simp add: workloadsOf_def)

definition typedMutation :: "mutation \<Rightarrow> bool" where
  "typedMutation mu = (case mu of Changed m \<Rightarrow> hasSchema specSchema (JMap m) | _ \<Rightarrow> True)"

lemma setWorkloads_typed:
  assumes "typedPart specSchema spec" "list_all (hasSchema workloadSchema) ws"
  shows "typedMutation (setWorkloads spec ws)"
proof (cases spec)
  case (Some m)
  have "hasSchema specSchema (JMap (put_key ''workloads'' (JList ws) m))"
    using assms Some unfolding specSchema_def typedPart_def
    by (intro hasSchema_put [where t = "ArrayT workloadSchema"]) simp_all
  with Some show ?thesis by (simp add: setWorkloads_def typedMutation_def)
qed (simp add: setWorkloads_def typedMutation_def)

section \<open>A server that checks the schema\<close>

definition gated :: "'w crdApi \<Rightarrow> 'w crdApi" where
  "gated api =
     api\<lparr>crdCreate := (\<lambda>obj. if typedObj obj then crdCreate api obj else State_Monad.return (Some (KubeErr ''Invalid''))),
         crdUpdate := (\<lambda>obj. if typedObj obj then crdUpdate api obj else State_Monad.return (Some (KubeErr ''Invalid''))),
         crdUpdateStatus := (\<lambda>obj. if typedObj obj then crdUpdateStatus api obj
           else State_Monad.return (Some (KubeErr ''Invalid'')))\<rparr>"

definition serves_typed :: "'w crdApi \<Rightarrow> bool" where
  "serves_typed api \<longleftrightarrow>
     (\<forall>n w obj w'. run_state (crdGet api n) w = (Inr obj, w') \<longrightarrow> typedObj obj)
     \<and> (\<forall>w. fourDigitYear (fst (run_state (timeNow api) w)))"

lemma gated_simps [simp]:
  "crdGet (gated api) = crdGet api" "crdDelete (gated api) = crdDelete api" "crdList (gated api) = crdList api"
  "timeNow (gated api) = timeNow api" "typedObj obj \<Longrightarrow> crdCreate (gated api) obj = crdCreate api obj"
  "typedObj obj \<Longrightarrow> crdUpdate (gated api) obj = crdUpdate api obj"
  "typedObj obj \<Longrightarrow> crdUpdateStatus (gated api) obj = crdUpdateStatus api obj"
  by (simp_all add: gated_def)

lemma crd_create_gated:
  "hfSourceType s \<in> {''bucket'', ''repo''} \<Longrightarrow> crd_create ops (gated api) name s = crd_create ops api name s"
  using specMap_typed [of s ops] by (simp add: crd_create_def typedObj_def typedPart_def)

lemma crd_updateStatus_gated:
  assumes "serves_typed api" "phase \<in> {''Pending'', ''Mounted'', ''Failed''}"
  shows "crd_updateStatus (gated api) name phase msg = crd_updateStatus api name phase msg"
proof (rule state.expand, rule ext)
  fix w
  obtain r w' where "run_state (crdGet api name) w = (r, w')" by (metis surj_pair)
  moreover from this assms have "r = Inr obj \<Longrightarrow> typedObj (obj\<lparr>objStatus := Some [(''phase'', JString phase), (''message'', JString msg)]\<rparr>)"
    for obj by (fastforce simp: serves_typed_def typedObj_def typedPart_def statusSchema_def)
  ultimately show "run_state (crd_updateStatus (gated api) name phase msg) w = run_state (crd_updateStatus api name phase msg) w"
    by (cases r) (simp_all add: crd_updateStatus_def run_bind)
qed

lemma retryLoop_gated:
  assumes "serves_typed api"
    and "\<And>spec w. typedPart specSchema spec \<Longrightarrow> typedMutation (snd (fst (run_state (mutate spec) w)))"
  shows "run_state (retryLoop (gated api) name mutate n c) w = run_state (retryLoop api name mutate n c) w"
proof (induction n arbitrary: c w)
  case (Suc n)
  obtain r w1 where g: "run_state (crdGet api name) w = (r, w1)" by (metis surj_pair)
  show ?case
  proof (cases r)
    case (Inr obj)
    then have typed: "typedObj obj" using g assms(1) by (auto simp: serves_typed_def)
    obtain k mu w2 where m: "run_state (mutate (objSpec obj)) w1 = ((k, mu), w2)" by (metis surj_pair)
    with typed assms(2) [of "objSpec obj" w1] have "typedMutation mu" by (simp add: typedObj_def)
    then have "mu = Changed spec \<Longrightarrow> typedObj (obj\<lparr>objSpec := Some spec\<rparr>)" for spec
      using typed by (simp add: typedMutation_def typedObj_def typedPart_def)
    then show ?thesis
      using g Inr m Suc.IH by (cases mu) (auto simp: run_bind split: prod.splits option.splits)
  qed (simp add: g run_bind)
qed simp

lemma retryOnConflict_gated:
  assumes "serves_typed api"
    and "\<And>spec w. typedPart specSchema spec \<Longrightarrow> typedMutation (snd (fst (run_state (mutate spec) w)))"
  shows "retryOnConflict (gated api) name mutate = retryOnConflict api name mutate"
  by (rule state.expand, rule ext) (simp add: retryOnConflict_def retryLoop_gated [OF assms])

lemma clock_typed: "serves_typed api \<Longrightarrow> run_state (timeNow api) w = (now, w') \<Longrightarrow> fourDigitYear now"
  unfolding serves_typed_def by (metis fst_conv)

lemma workload_ops_gated:
  assumes "serves_typed api"
  shows "addWorkload (gated api) name uid tgt = addWorkload api name uid tgt"
    "removeWorkload (gated api) name tgt = removeWorkload api name tgt"
    "removeStaleWorkloads (gated api) name live thr = removeStaleWorkloads api name live thr"
proof -
  show "addWorkload (gated api) name uid tgt = addWorkload api name uid tgt"
    unfolding addWorkload_def gated_simps
    by (subst retryOnConflict_gated [OF assms])
       (auto simp: Let_def run_bind typedMutation_def [of Unchanged] workloads_typed workloadEntry_typed
         dest: clock_typed [OF assms] intro!: setWorkloads_typed split: prod.splits)
  show "removeWorkload (gated api) name tgt = removeWorkload api name tgt"
    unfolding removeWorkload_def gated_simps
    by (rule retryOnConflict_gated [OF assms])
       (use workloads_typed in \<open>auto simp: Let_def typedMutation_def [of Unchanged] list_all_iff intro!: setWorkloads_typed\<close>)
  show "removeStaleWorkloads (gated api) name live thr = removeStaleWorkloads api name live thr"
    unfolding removeStaleWorkloads_def gated_simps
    by (rule retryOnConflict_gated [OF assms])
       (use workloads_typed in \<open>auto simp: Let_def run_bind typedMutation_def [of Unchanged] list_all_iff
          intro!: setWorkloads_typed split: prod.splits\<close>)
qed

section \<open>The driver on a server that checks the schema\<close>

definition gatedEnv :: "('w, 'q) env \<Rightarrow> ('w, 'q) env" where
  "gatedEnv env = env\<lparr>crd := gated (crd env)\<rparr>"

lemma gatedEnv_simps [simp]:
  "crd (gatedEnv env) = gated (crd env)" "podCreate (gatedEnv env) = podCreate env" "podGet (gatedEnv env) = podGet env"
  "podDelete (gatedEnv env) = podDelete env" "podList (gatedEnv env) = podList env"
  "nodePodList (gatedEnv env) = nodePodList env" "isMountPoint (gatedEnv env) = isMountPoint env"
  "isCorruptedMnt (gatedEnv env) = isCorruptedMnt env" "getMountRefs (gatedEnv env) = getMountRefs env"
  "fuseUnmount (gatedEnv env) = fuseUnmount env" "bindMount (gatedEnv env) = bindMount env"
  "mkdirAll (gatedEnv env) = mkdirAll env" "removePath (gatedEnv env) = removePath env"
  "statPath (gatedEnv env) = statPath env" "readDirEntries (gatedEnv env) = readDirEntries env"
  "selfMountinfo (gatedEnv env) = selfMountinfo env" "ticks (gatedEnv env) = ticks env"
  by (simp_all add: gatedEnv_def)

text \<open>Both sides branch alike: the simplifier may go under the branches.\<close>

lemmas branch_cong = option.case_cong sum.case_cong nat.case_cong prod.case_cong json.case_cong if_cong

text \<open>Operations without a call to the custom resource.\<close>

lemma loops_gated [simp]:
  "unmountLoop (gatedEnv env) path n = unmountLoop env path n"
  "waitForPodDeletion (gatedEnv env) name n = waitForPodDeletion env name n"
  "pollUntilMounted (gatedEnv env) path n = pollUntilMounted env path n"
  "dropRefs (gatedEnv env) live refs = dropRefs env live refs"
  "unmountTargets (gatedEnv env) ts = unmountTargets env ts"
  "rebindLoop (gatedEnv env) path ts = rebindLoop env path ts"
  "retryRefs (gatedEnv env) path n = retryRefs env path n"
  "crdTargets (gatedEnv env) ws = crdTargets env ws"
proof -
  show unmount: "unmountLoop (gatedEnv env) path n = unmountLoop env path n" for path n
    by (induction n) (simp_all cong: branch_cong)
  then have all: "unmountAll (gatedEnv env) path = unmountAll env path" for path by (simp add: unmountAll_def cong: branch_cong)
  then have bind: "stackBind (gatedEnv env) src tgt = stackBind env src tgt" for src tgt by (simp add: stackBind_def cong: branch_cong)
  show "waitForPodDeletion (gatedEnv env) name n = waitForPodDeletion env name n" by (induction n) (simp_all cong: branch_cong)
  show "pollUntilMounted (gatedEnv env) path n = pollUntilMounted env path n" by (induction n) (simp_all cong: branch_cong)
  show "dropRefs (gatedEnv env) live refs = dropRefs env live refs" by (induction refs) (simp_all add: all cong: branch_cong)
  show "unmountTargets (gatedEnv env) ts = unmountTargets env ts" by (induction ts) (simp_all add: all cong: branch_cong)
  show "rebindLoop (gatedEnv env) path ts = rebindLoop env path ts" by (induction ts) (simp_all add: bind cong: branch_cong)
  show "retryRefs (gatedEnv env) path n = retryRefs env path n" by (induction n) (simp_all cong: branch_cong)
  show "crdTargets (gatedEnv env) ws = crdTargets env ws" by (induction ws) (simp_all add: Let_def cong: branch_cong)
qed

lemma waits_gated [simp]:
  "waitForPodRunning (gatedEnv env) name n = waitForPodRunning env name n"
  "waitForMount (gatedEnv env) path name n = waitForMount env path name n"
proof -
  show "waitForPodRunning (gatedEnv env) name n = waitForPodRunning env name n"
    by (induction n) (subst (1 2) waitForPodRunning.simps, simp add: Let_def cong: branch_cong)+
  show "waitForMount (gatedEnv env) path name n = waitForMount env path name n"
    by (induction n) (subst (1 2) waitForMount.simps, simp add: Let_def cong: branch_cong)+
qed

lemma parts_gated [simp]:
  "unmountAll (gatedEnv env) path = unmountAll env path" "stackBind (gatedEnv env) src tgt = stackBind env src tgt"
  "ensurePod (gatedEnv env) name pod = ensurePod env name pod"
  "mountCleanup (gatedEnv env) name crdName cl = mountCleanup env name crdName cl"
  "CheckHealth (gatedEnv env) tgt = CheckHealth env tgt"
  "listLivePodUIDsOnNode (gatedEnv env) cfg = listLivePodUIDsOnNode env cfg"
  "releaseSource (gatedEnv env) path = releaseSource env path"
  "rebindTargets (gatedEnv env) path = rebindTargets env path"
  by (simp_all add: Let_def unmountAll_def stackBind_def ensurePod_def mountCleanup_def crd_delete_def CheckHealth_def
      listLivePodUIDsOnNode_def releaseSource_def rebindTargets_def cong: branch_cong)

lemma cleanup_gated [simp]:
  "dropDeadPodRefs (gatedEnv env) cfg refs = dropDeadPodRefs env cfg refs"
  "cleanupSource (gatedEnv env) cfg path = cleanupSource env cfg path"
  "recreatePod (gatedEnv env) pod name path stale = recreatePod env pod name path stale"
  "tryHealSource (gatedEnv env) cfg path = tryHealSource env cfg path"
  "adoptSource (gatedEnv env) path = adoptSource env path"
  "recoverPod (gatedEnv env) p = recoverPod env p"
  "scanEntry (gatedEnv env) cfg pods e = scanEntry env cfg pods e"
proof -
  show drop: "dropDeadPodRefs (gatedEnv env) cfg refs = dropDeadPodRefs env cfg refs" for refs
    by (simp add: Let_def dropDeadPodRefs_def cong: branch_cong)
  show cleanup: "cleanupSource (gatedEnv env) cfg path = cleanupSource env cfg path" for path
    by (simp add: Let_def cleanupSource_def drop cong: branch_cong)
  show recreate: "recreatePod (gatedEnv env) pod name path stale = recreatePod env pod name path stale" for pod name path stale
    by (simp add: Let_def recreatePod_def cong: branch_cong)
  show "tryHealSource (gatedEnv env) cfg path = tryHealSource env cfg path"
    by (simp add: Let_def tryHealSource_def crd_get_def recreate cong: branch_cong)
  show adopt: "adoptSource (gatedEnv env) path = adoptSource env path" for path
    by (simp add: Let_def adoptSource_def crd_get_def cong: branch_cong)
  show "recoverPod (gatedEnv env) p = recoverPod env p" by (simp add: Let_def recoverPod_def adopt cong: branch_cong)
  show "scanEntry (gatedEnv env) cfg pods e = scanEntry env cfg pods e" by (simp add: Let_def scanEntry_def cleanup cong: branch_cong)
qed

lemma scans_gated [simp]:
  "recoverPods (gatedEnv env) ps = recoverPods env ps"
  "scanEntries (gatedEnv env) cfg pods es = scanEntries env cfg pods es"
proof -
  show "recoverPods (gatedEnv env) ps = recoverPods env ps" by (induction ps) (simp_all cong: branch_cong)
  show "scanEntries (gatedEnv env) cfg pods es = scanEntries env cfg pods es" by (induction es) (simp_all cong: branch_cong)
qed

text \<open>Operations that write the resource.\<close>

lemma Mount_gated:
  assumes "serves_typed (crd env)"
  shows "Mount (gatedEnv env) cfg st sid tgt opts = Mount env cfg st sid tgt opts"
proof -
  have "mountBody (gatedEnv env) pod name crdName path tgt = mountBody env pod name crdName path tgt" for pod name crdName path
    by (simp add: Let_def mountBody_def crd_updateStatus_gated [OF assms] cong: branch_cong)
  moreover have "buildArgs st sid t opts = Inl (UnsupportedSourceType st)" if "st \<notin> {''bucket'', ''repo''}" for t
    using that by (simp add: buildArgs_error_iff)
  ultimately show ?thesis
    by (cases "st \<in> {''bucket'', ''repo''}")
       (simp_all add: Mount_def Let_def crd_create_gated workload_ops_gated [OF assms] cong: branch_cong)
qed

lemma Unmount_gated:
  assumes "serves_typed (crd env)"
  shows "Unmount (gatedEnv env) tgt = Unmount env tgt"
  by (simp add: Let_def Unmount_def unmountLocked_def workload_ops_gated [OF assms] crd_delete_def cong: branch_cong)

lemma lateAdopt_gated:
  assumes "serves_typed (crd env)"
  shows "lateAdopt (gatedEnv env) path = lateAdopt env path"
proof -
  have "registerRestored (gatedEnv env) n refs = registerRestored env n refs" for n refs
    by (induction refs) (simp_all add: workload_ops_gated [OF assms] cong: branch_cong)
  then show ?thesis by (simp add: Let_def lateAdopt_def cong: branch_cong)
qed

lemma periodicTick_gated:
  assumes "serves_typed (crd env)"
  shows "periodicTick (gatedEnv env) cfg = periodicTick env cfg"
proof -
  have "staleCRD (gatedEnv env) live i = staleCRD env live i" for live i
    by (simp add: Let_def staleCRD_def workload_ops_gated [OF assms] crd_delete_def cong: branch_cong)
  then have "staleCRDs (gatedEnv env) live is = staleCRDs env live is" for live "is"
    by (induction "is") (simp_all cong: branch_cong)
  then show ?thesis by (simp add: Let_def periodicTick_def runCleanupScan_def cleanupStaleCRDs_def crd_list_def cong: branch_cong)
qed

text \<open>
  (C15) Every HFMount the driver writes is well typed: the node service on the pod mounter, its
  periodic scans, the recovery, the late adoption, the healer, the rebinding and the cleanup of a
  deleted pod all behave exactly the same on a server that turns away every object outside the
  schema of \<open>deploy/kubernetes/crd.yaml\<close>, on every path and for every request: no write of theirs
  is ever rejected by the schema, and no field of theirs is ever pruned.
\<close>

theorem driver_writes_typed:
  assumes "serves_typed (crd env)"
  shows "nodeDriver (gatedEnv env) cfg h = nodeDriver env cfg h
    \<and> periodicTick (gatedEnv env) cfg = periodicTick env cfg
    \<and> Recover (gatedEnv env) cfg = Recover env cfg
    \<and> lateAdopt (gatedEnv env) source = lateAdopt env source
    \<and> tryHealSource (gatedEnv env) cfg source = tryHealSource env cfg source
    \<and> rebindTargets (gatedEnv env) source = rebindTargets env source
    \<and> handlePodDelete (gatedEnv env) cfg pod = handlePodDelete env cfg pod"
  by (simp add: nodeDriver_simps podMounter_def Mount_gated [OF assms] Unmount_gated [OF assms]
      periodicTick_gated [OF assms] lateAdopt_gated [OF assms] Recover_def handlePodDelete_def Let_def
      cong: branch_cong)

section \<open>Instance\<close>

text \<open>A server that serves one well-typed object for every name.\<close>

definition typedSample :: hfObj where
  "typedSample =
     \<lparr>objName = ''hfm-1'', objNodeLabel = ''n'', objVersion = 1,
      objSpec = Some (specMap sampleOps
        \<lparr>hfNodeName = ''n'', hfSourceType = ''bucket'', hfSourceID = ''o/d'', hfMountPodName = ''hf-mount-1'',
         hfMountPath = ''/m/1'', hfMountArgs = [''--read-only''], hfResources = noResources\<rparr>),
      objStatus = Some [(''phase'', JString ''Mounted''), (''message'', JString [])]\<rparr>"

definition typedEnv :: "(unit, nat) env" where
  "typedEnv = freshEnv\<lparr>crd := (crd freshEnv)\<lparr>crdGet := (\<lambda>_. State_Monad.return (Inr typedSample)),
     timeNow := State_Monad.return 0\<rparr>\<rparr>"

lemma typedEnv_serves: "serves_typed (crd typedEnv)"
proof -
  have "typedObj typedSample"
    unfolding typedSample_def typedObj_def typedPart_def using specMap_typed [of _ sampleOps] by (simp add: statusSchema_def)
  moreover have "fourDigitYear 0" by (simp add: fourDigitYear_def civil_0)
  ultimately show ?thesis by (simp add: serves_typed_def typedEnv_def)
qed

text \<open>The gate does turn objects away: a source type outside the enumeration is rejected.\<close>

lemma gate_rejects:
  "run_state (crd_create sampleOps (gated api) ''hfm-1''
     \<lparr>hfNodeName = ''n'', hfSourceType = ''git'', hfSourceID = ''o/d'', hfMountPodName = ''p'',
      hfMountPath = ''/m/1'', hfMountArgs = [], hfResources = noResources\<rparr>) w = (Some (KubeErr ''Invalid''), w)"
  by (simp add: crd_create_def gated_def typedObj_def typedPart_def specMap_def specSchema_def)

theorem driver_writes_typed_witness:
  "serves_typed (crd typedEnv)
   \<and> NodePublishVolume (nodeDriver (gatedEnv typedEnv) sampleCfg (sampleHost (Inr 1))) podRequest
       = NodePublishVolume (nodeDriver typedEnv sampleCfg (sampleHost (Inr 1))) podRequest
   \<and> periodicTick (gatedEnv typedEnv) sampleCfg = periodicTick typedEnv sampleCfg"
proof -
  have "nodeDriver (gatedEnv typedEnv) sampleCfg h = nodeDriver typedEnv sampleCfg h
      \<and> periodicTick (gatedEnv typedEnv) sampleCfg = periodicTick typedEnv sampleCfg" for h
    using driver_writes_typed [OF typedEnv_serves] by blast
  then show ?thesis using typedEnv_serves by simp
qed

end
