(* ===== verification/Handoff_System.thy ===== *)
theory Handoff_System
  imports Sweeper Node_Proofs
begin

text \<open>
  The node service, its handoff goroutines and the sweeper as one system. Requests run one after
  another against the two process-wide maps; each successful sidecar mount leaves a goroutine in
  flight (\<open>go func()\<close> in \<open>sidecarMount\<close>), which ends at any later time; the sweeper ticks in
  between and the outside changes as it likes. The maps are guarded by mutexes held for one access
  each, and a goroutine changes them only by its last action, so one step per request and one per
  end of a goroutine give every order of the accesses. A sweep is one step: the jobs in flight
  are those that are in flight while it looks at a connection.

  The kernel takes the minor of a connection back at the unmount, when the goroutine that holds
  its descriptor may still be waiting. Whether it gives it out again in that time is the flag
  \<open>fresh\<close> of the system: with it, no new mount has the minor of a handoff in flight.
\<close>

section \<open>The system\<close>

record 'w handoffSys =
  node :: "'w host"
  inFlight :: "handoffJob multiset"
  sweeper :: fuseSweeper

datatype handoffAction =
    Published "handoffJob list"
  | Unpublished
  | HandoffEnded handoffJob bool
  | Swept "int list"
  | OutsideChanged

fun startedJobs :: "hostEvent list \<Rightarrow> handoffJob list" where
  "startedJobs [] = []"
| "startedJobs (HandoffStarted job # evs) = job # startedJobs evs"
| "startedJobs (ev # evs) = startedJobs evs"

definition minorsOf :: "handoffJob multiset \<Rightarrow> int set" where
  "minorsOf jobs = {m. \<exists>job \<in># jobs. jobMinor job = Some m}"

inductive handoffStep ::
  "('w, 'q, 'e) Driver \<Rightarrow> bool \<Rightarrow> 'w handoffSys \<Rightarrow> handoffAction \<Rightarrow> 'w handoffSys \<Rightarrow> bool"
  for d :: "('w, 'q, 'e) Driver" and fresh :: bool where
  publish: "run_state (NodePublishVolume d req) (node st) = (r, s') \<Longrightarrow> jobs = startedJobs (newEvents (node st) s') \<Longrightarrow>
     (fresh \<longrightarrow> minorsOf (mset jobs) \<inter> minorsOf (inFlight st) = {}) \<Longrightarrow>
     handoffStep d fresh st (Published jobs) (st\<lparr>node := s', inFlight := inFlight st + mset jobs\<rparr>)"
| unpublish: "run_state (NodeUnpublishVolume d vol target) (node st) = (r, s') \<Longrightarrow>
     handoffStep d fresh st Unpublished (st\<lparr>node := s'\<rparr>)"
| ended: "job \<in># inFlight st \<Longrightarrow> run_state (sidecarHandoff (hostOf d) job) (node st) = (ok, s') \<Longrightarrow>
     handoffStep d fresh st (HandoffEnded job ok) (st\<lparr>node := s', inFlight := inFlight st - {#job#}\<rparr>)"
| swept: "in_pending inp = (\<lambda>m. m \<in> pendingSidecarMinors (vars (node st))) \<Longrightarrow> input_ok inp \<Longrightarrow>
     sweep inp (sweeper st) = (sw, aborts) \<Longrightarrow> handoffStep d fresh st (Swept aborts) (st\<lparr>sweeper := sw\<rparr>)"
| outside: "handoffStep d fresh st OutsideChanged (st\<lparr>node := (node st)\<lparr>world := w\<rparr>\<rparr>)"

inductive_cases sweptE: "handoffStep d fresh st (Swept aborts) st'"

text \<open>A driver that has just started, on any state of the outside.\<close>

definition handoffInit :: "'w handoffSys \<Rightarrow> bool" where
  "handoffInit st \<longleftrightarrow> vars (node st) = \<lparr>sidecarVolumes = {}, pendingSidecarMinors = {}\<rparr>
     \<and> inFlight st = {#} \<and> sweeper st = newFuseSweeper"

inductive handoffReachable :: "('w, 'q, 'e) Driver \<Rightarrow> bool \<Rightarrow> 'w handoffSys \<Rightarrow> bool"
  for d :: "('w, 'q, 'e) Driver" and fresh :: bool where
  init: "handoffInit st \<Longrightarrow> handoffReachable d fresh st"
| step: "handoffReachable d fresh st \<Longrightarrow> handoffStep d fresh st act st' \<Longrightarrow> handoffReachable d fresh st'"

section \<open>What requests do to the pending marks\<close>

lemma startedJobs_append [simp]: "startedJobs (xs @ ys) = startedJobs xs @ startedJobs ys"
  by (induction xs rule: startedJobs.induct) simp_all

lemma startedJobs_none: "(\<And>job. HandoffStarted job \<notin> set evs) \<Longrightarrow> startedJobs evs = []"
  by (induction evs rule: startedJobs.induct) auto

definition marks :: "nodeVars \<Rightarrow> nodeVars \<Rightarrow> hostEvent list \<Rightarrow> bool" where
  "marks v v' evs \<longleftrightarrow>
     startedJobs evs = [] \<and> pendingSidecarMinors v' = pendingSidecarMinors v
     \<or> (\<exists>job. startedJobs evs = [job] \<and> pendingSidecarMinors v' = set_option (jobMinor job) \<union> pendingSidecarMinors v)"

lemma marks_quiet: "pendingSidecarMinors v' = pendingSidecarMinors v \<Longrightarrow> startedJobs evs = [] \<Longrightarrow> marks v v' evs"
  by (simp add: marks_def)

lemma fileLog_jobs: "fileLog dir evs \<Longrightarrow> startedJobs evs = []"
  by (rule startedJobs_none) (auto simp: fileLog_def)

lemma tokenLog_jobs: "tokenLog path token r evs \<Longrightarrow> startedJobs evs = []"
  by (rule startedJobs_none) (auto simp: tokenLog_def)

lemma abortLog_jobs: "abortLog evs \<Longrightarrow> startedJobs evs = []"
  by (auto simp: abortLog_def)

lemmas log_jobs = fileLog_jobs tokenLog_jobs abortLog_jobs

lemma sidecarMountLog_marks: "sidecarMountLog st sid target opts vol r v v' evs \<Longrightarrow> marks v v' evs"
  by (auto simp: sidecarMountLog_def marks_def Let_def dest!: configLog_fileLog fileLog_jobs split: option.splits)

lemma eff_publish_marks: "eff (NodePublishVolume d req) (\<lambda>r v' evs. marks v v' evs) v"
proof -
  have again: "eff (republish d req minor) (\<lambda>r v' evs. marks v v' evs) v" for minor
    unfolding republish_def Let_def by (intro eff_intros) (auto intro!: marks_quiet dest!: log_jobs)
  have new: "eff (publishNew d req cap) (\<lambda>r v' evs. marks v v' evs) v" for cap
    unfolding publishNew_def Let_def
    by (intro eff_intros eff_mono [OF eff_sidecarMount])
       (auto intro!: marks_quiet dest!: log_jobs sidecarMountLog_marks simp: marks_def)
  show ?thesis
    unfolding NodePublishVolume_def
    by (intro eff_intros eff_mono [OF again] eff_mono [OF new]) (auto simp: marks_def)
qed

lemma eff_unpublish_marks: "eff (NodeUnpublishVolume d vol target) (\<lambda>r v' evs. marks v v' evs \<and> startedJobs evs = []) v"
proof -
  have main: "unpublishSpec tracked target r v v' evs \<Longrightarrow> pendingSidecarMinors v' = pendingSidecarMinors v \<and> startedJobs evs = []"
    for tracked r v' and evs :: "hostEvent list"
    by (auto simp: unpublishSpec_def dest!: abortLog_jobs split: if_splits)
  show ?thesis
  proof (cases "vol = [] \<or> target = []")
    case True
    then show ?thesis unfolding NodeUnpublishVolume_def by (intro eff_intros) (auto intro: marks_quiet)
  next
    case False
    then show ?thesis
      by (intro eff_mono [OF eff_NodeUnpublishVolume]) (auto simp: cleanupTail_def dest!: main intro!: marks_quiet)
  qed
qed

lemma unpublish_marks:
  "run_state (NodeUnpublishVolume d vol target) s = (r, s') \<Longrightarrow> pendingSidecarMinors (vars s') = pendingSidecarMinors (vars s)"
  using eff_newEvents [OF eff_unpublish_marks] by (fastforce simp: marks_def)

lemma publish_marks:
  assumes "run_state (NodePublishVolume d req) s = (r, s')"
  shows "marks (vars s) (vars s') (newEvents s s')"
  by (rule eff_newEvents [OF eff_publish_marks assms])

lemma ended_marks:
  assumes "run_state (sidecarHandoff h job) s = (ok, s')"
  shows "pendingSidecarMinors (vars s') = pendingSidecarMinors (vars s) - set_option (jobMinor job)"
  using eff_newEvents [OF eff_sidecarHandoff assms] by (auto simp: handoffLog_def)

section \<open>The invariant\<close>

text \<open>
  \<open>minorCount m jobs\<close>: the goroutines in flight for the minor \<open>m\<close>.
\<close>

definition minorCount :: "int \<Rightarrow> handoffJob multiset \<Rightarrow> nat" where
  "minorCount m jobs = size {#job \<in># jobs. jobMinor job = Some m#}"

lemma minorCount_zero: "minorCount m jobs = 0 \<longleftrightarrow> m \<notin> minorsOf jobs"
  by (auto simp: minorCount_def minorsOf_def filter_mset_eq_mempty_iff)

lemma minorCount_add [simp]:
  "minorCount m {#} = 0"
  "minorCount m (add_mset job jobs) = (if jobMinor job = Some m then 1 else 0) + minorCount m jobs"
  by (simp_all add: minorCount_def)

definition marksInv :: "bool \<Rightarrow> 'w handoffSys \<Rightarrow> bool" where
  "marksInv fresh st \<longleftrightarrow>
     (\<forall>m. (m \<in> pendingSidecarMinors (vars (node st)) \<longrightarrow> 0 < minorCount m (inFlight st))
        \<and> (fresh \<longrightarrow> minorCount m (inFlight st) = (if m \<in> pendingSidecarMinors (vars (node st)) then 1 else 0)))"

lemma marksInv_published:
  assumes "marksInv fresh st" "marks (vars (node st)) (vars s') evs" "jobs = startedJobs evs"
    "fresh \<Longrightarrow> minorsOf (mset jobs) \<inter> minorsOf (inFlight st) = {}"
  shows "marksInv fresh (st\<lparr>node := s', inFlight := inFlight st + mset jobs\<rparr>)"
  using assms(2) unfolding marks_def
proof (elim disjE exE conjE)
  fix job
  assume job: "startedJobs evs = [job]"
    and pend: "pendingSidecarMinors (vars s') = set_option (jobMinor job) \<union> pendingSidecarMinors (vars (node st))"
  have "fresh \<Longrightarrow> jobMinor job = Some m \<Longrightarrow> minorCount m (inFlight st) = 0" for m
    using assms(3,4) job by (auto simp: minorCount_zero minorsOf_def)
  with assms(1,3) job pend show ?thesis unfolding marksInv_def by (auto split: if_splits)
qed (use assms(1,3) in \<open>simp add: marksInv_def\<close>)

lemma marksInv_ended:
  assumes "marksInv fresh st" "job \<in># inFlight st"
    "pendingSidecarMinors (vars s') = pendingSidecarMinors (vars (node st)) - set_option (jobMinor job)"
  shows "marksInv fresh (st\<lparr>node := s', inFlight := inFlight st - {#job#}\<rparr>)"
proof -
  obtain jobs where "inFlight st = add_mset job jobs" using assms(2) by (metis insert_DiffM)
  with assms(1,3) show ?thesis unfolding marksInv_def by (auto split: if_splits)
qed

lemma marksInv_cong:
  "marksInv fresh st \<Longrightarrow> inFlight st' = inFlight st \<Longrightarrow>
     pendingSidecarMinors (vars (node st')) = pendingSidecarMinors (vars (node st)) \<Longrightarrow> marksInv fresh st'"
  by (simp add: marksInv_def)

lemma marksInv_step:
  assumes "handoffStep d fresh st act st'" "marksInv fresh st"
  shows "marksInv fresh st'"
  using assms
proof cases
  case publish
  then show ?thesis using marksInv_published [OF assms(2) publish_marks] by blast
next
  case ended
  then show ?thesis using marksInv_ended [OF assms(2) _ ended_marks] by blast
next
  case unpublish
  then show ?thesis using unpublish_marks by (intro marksInv_cong [OF assms(2)]) fastforce+
qed (auto intro: marksInv_cong [OF assms(2)])

lemma marksInv_reachable: "handoffReachable d fresh st \<Longrightarrow> marksInv fresh st"
proof (induction rule: handoffReachable.induct)
  case (init st)
  then show ?case by (simp add: handoffInit_def marksInv_def)
qed (rule marksInv_step)

text \<open>
  (C16) The marks of pending handoffs follow the goroutines in flight, whatever is published,
  unpublished, swept or changed outside, in every order: a marked minor always belongs to a
  handoff in flight, so a mark never outlives its handoff and no connection stays exempt from the
  sweeper for good; and as long as the kernel does not reuse the minor of a handoff in flight, the
  marks are exactly the minors of the handoffs in flight, each of one handoff.
\<close>

theorem handoff_marks_exact:
  assumes "handoffReachable d fresh st"
  shows "pendingSidecarMinors (vars (node st)) \<subseteq> minorsOf (inFlight st)
    \<and> (fresh \<longrightarrow> pendingSidecarMinors (vars (node st)) = minorsOf (inFlight st)
         \<and> (\<forall>m. size {#job \<in># inFlight st. jobMinor job = Some m#} \<le> 1))"
proof -
  have inv: "m \<in> pendingSidecarMinors (vars (node st)) \<Longrightarrow> 0 < minorCount m (inFlight st)"
    "fresh \<Longrightarrow> minorCount m (inFlight st) = (if m \<in> pendingSidecarMinors (vars (node st)) then 1 else 0)" for m
    using marksInv_reachable [OF assms] by (simp_all add: marksInv_def)
  have "m \<in> minorsOf (inFlight st) \<longleftrightarrow> 0 < minorCount m (inFlight st)" for m
    using minorCount_zero by (metis gr0I less_numeral_extra(3))
  then show ?thesis using inv by (auto simp: minorCount_def [symmetric] split: if_splits)
qed

lemma sweep_pending:
  assumes "in_pending inp m" "input_ok inp" "sweep inp sw = (sw', aborts)"
  shows "m \<notin> set aborts \<and> (sw' = sw \<or> orphanStreak sw' m = None \<and> aborted sw' m = None)"
proof (cases "complete inp")
  case True
  have "\<not> orphaned inp m" using assms(1) by (auto simp: orphaned_def split: option.splits)
  from sweep_not_orphaned [OF True assms(2) this, of sw] show ?thesis by (simp add: assms(3))
qed (use sweep_incomplete assms(3) in force)

text \<open>
  (C17) A mount that waits for its daemon is never aborted: in every reachable state of the system
  whose kernel does not reuse the minor of a handoff in flight, a sweep does not abort the
  connection of such a handoff, and a sweep that could read the host forgets whatever it had
  counted against that minor before, so that two further complete sweeps are needed once the
  handoff has ended.
\<close>

theorem handoff_never_aborted:
  assumes "handoffReachable d True st" "job \<in># inFlight st" "jobMinor job = Some m"
    "handoffStep d True st (Swept aborts) st'"
  shows "m \<notin> set aborts
    \<and> (sweeper st' = sweeper st \<or> orphanStreak (sweeper st') m = None \<and> aborted (sweeper st') m = None)"
proof -
  have inv: "marksInv True st" by (rule marksInv_reachable [OF assms(1)])
  have "m \<in> minorsOf (inFlight st)" using assms(2,3) by (auto simp: minorsOf_def)
  then have "minorCount m (inFlight st) \<noteq> 0" by (simp add: minorCount_zero)
  then have "m \<in> pendingSidecarMinors (vars (node st))" using inv by (auto simp: marksInv_def split: if_splits)
  with assms(4) show ?thesis by (auto elim!: sweptE dest!: sweep_pending [rotated -1])
qed

section \<open>Instances\<close>

text \<open>A host whose mount table shows the target with minor 52.\<close>

definition minorTable :: "mountEntry list" where
  "minorTable = [sampleEntry 52 ''/t'' ''fuse'' ''hf-mount'']"

definition minorHost :: "unit hostEnv" where
  "minorHost = (sampleHost (Inr 1))\<lparr>procMountinfo := State_Monad.return (Some (render minorTable, False))\<rparr>"

definition minorDriver :: "(unit, nat, nat) Driver" where
  "minorDriver = sampleDriver\<lparr>hostOf := minorHost\<rparr>"

lemma minorTable: "parseFuseMinor (render minorTable) False ''/t'' = Some 52"
proof -
  have "list_all (entry_ok bigBuffer) minorTable" using sampleTable_ok(1) by (simp add: minorTable_def sample_defs)
  from parseFuseMinor_render [OF this, of "''/t''"] show ?thesis by (simp add: minorTable_def sampleEntry_def is_fuse_def)
qed

lemma minorHost_sel [simp]:
  "procMountinfo minorHost = State_Monad.return (Some (render minorTable, False))"
  "parseMountInfo minorHost = parseMountInfo (sampleHost (Inr 1))" "openFuse minorHost = openFuse (sampleHost (Inr 1))"
  "mountFuse minorHost = mountFuse (sampleHost (Inr 1))" "osMkdirAll minorHost = osMkdirAll (sampleHost (Inr 1))"
  "osChown minorHost = osChown (sampleHost (Inr 1))" "osLchown minorHost = osLchown (sampleHost (Inr 1))"
  "osRemove minorHost = osRemove (sampleHost (Inr 1))" "osSymlink minorHost = osSymlink (sampleHost (Inr 1))"
  "openDir minorHost = openDir (sampleHost (Inr 1))" "openat2 minorHost = openat2 (sampleHost (Inr 1))"
  "fdWrite minorHost = fdWrite (sampleHost (Inr 1))" "closeFd minorHost = closeFd (sampleHost (Inr 1))"
  "fdChown minorHost = fdChown (sampleHost (Inr 1))"
  "netListen minorHost = netListen (sampleHost (Inr 1))"
  by (simp_all add: minorHost_def)

lemma minorMount:
  assumes uid: "WorkloadPodUID opts = ''u-1''" and token: "TokenFile opts = []"
  shows "fst (run_state (sidecarMount minorHost ''bucket'' sid ''/t'' opts vol) s) = None
    \<and> pendingSidecarMinors (vars (snd (run_state (sidecarMount minorHost ''bucket'' sid ''/t'' opts vol) s)))
        = insert 52 (pendingSidecarMinors (vars s))
    \<and> (\<exists>job. last (log (snd (run_state (sidecarMount minorHost ''bucket'' sid ''/t'' opts vol) s))) = HandoffStarted job
        \<and> jobMinor job = Some 52)"
proof -
  obtain args1 where a: "buildArgs ''bucket'' sid ''/tmp'' (opts\<lparr>CacheDir := []\<rparr>) = Inr args1"
    by (simp add: buildArgs_def Let_def)
  have tmpfs: "run_state (requireSidecarTmpfs minorHost (sidecarEmptyDirPath ''u-1'')) s = (None, s)" for s
    using sampleHost_tmpfs [of "Inr 1" s] by (simp add: requireSidecarTmpfs_def sidecarMountInfo_def run_bind ask_def)
  show ?thesis
    unfolding sidecarMount_def Let_def uid
    by (simp add: tmpfs writeSidecarConfig_def copyToken_def token a writeHandoffFile_def openHandoffFile_def Let_def
        run_bind call_def ask_def note_ev_def sysClose_def openSidecarSocket_def getVars_def setVars_def minorTable
        fuseMinorForMount_def markPendingMinor_def markSidecarHandoffPending_def case_prod_beta)
qed

lemma sidecarMountLog_started:
  assumes "sidecarMountLog st sid target opts vol None v v' evs"
  shows "\<exists>job. startedJobs evs = [job] \<and> evs \<noteq> [] \<and> last evs = HandoffStarted job"
  using assms by (auto simp: sidecarMountLog_def Let_def dest!: configLog_fileLog fileLog_jobs split: option.splits)

text \<open>Publishing on this host always starts a handoff for minor 52.\<close>

lemma minorPublish:
  "\<exists>s' job. run_state (NodePublishVolume minorDriver sampleRequest) s = (None, s')
     \<and> startedJobs (newEvents s s') = [job] \<and> jobMinor job = Some 52
     \<and> pendingSidecarMinors (vars s') = insert 52 (pendingSidecarMinors (vars s))"
proof -
  define opts where "opts = publishOptions minorDriver sampleRequest \<lparr>capMountFlags = [''read-only''], capVolumeMountGroup = []\<rparr>"
  have opts: "WorkloadPodUID opts = ''u-1''" "TokenFile opts = []"
    by (simp_all add: opts_def publishOptions_def Let_def sampleRequest_def lookupStr_def getWithDefault_def publishToken_def volumeCtx_defs)
  have state: "run_state (sidecarMountState minorHost ''/t'') s = (Inr (0, False), s)"
  proof -
    have "unescapeMountPath (sidecarEmptyDirPath ''u-1'') \<noteq> Clean ''/t''" by code_simp
    then show ?thesis by (simp add: sidecarMountState_def sidecarMountInfo_def run_bind ask_def)
  qed
  have req: "publishToken sampleRequest = []" "pubVolumeId sampleRequest = ''v''"
      "pubCapability sampleRequest = Some (Some \<lparr>capMountFlags = [''read-only''], capVolumeMountGroup = []\<rparr>)"
      "lookupStr (pubVolumeContext sampleRequest) volumeCtxSourceType = ''bucket''"
      "lookupStr (pubVolumeContext sampleRequest) volumeCtxSourceID = ''o/d''" "hostOf minorDriver = minorHost"
    by (simp_all add: publishToken_def sampleRequest_def lookupStr_def getWithDefault_def volumeCtx_defs minorDriver_def)
  define s2 where "s2 = s\<lparr>world := (), log := log s @ [DirMade ''/t'']\<rparr>"
  obtain s1 where m: "run_state (sidecarMount minorHost ''bucket'' ''o/d'' ''/t'' opts ''v'') s2 = (None, s1)"
    and p: "pendingSidecarMinors (vars s1) = insert 52 (pendingSidecarMinors (vars s2))"
    and l: "\<exists>job. last (log s1) = HandoffStarted job \<and> jobMinor job = Some 52"
    using minorMount [OF opts, of "''o/d''" "''v''" s2] by (metis prod.collapse)
  obtain evs where evs: "log s1 = log s2 @ evs" "sidecarMountLog ''bucket'' ''o/d'' ''/t'' opts ''v'' None (vars s2) (vars s1) evs"
    by (rule effD [OF eff_sidecarMount m])
  then obtain job where job: "startedJobs evs = [job]" "jobMinor job = Some 52"
    using sidecarMountLog_started l by fastforce
  have "run_state (NodePublishVolume minorDriver sampleRequest) s
      = (None, s1\<lparr>vars := (vars s1)\<lparr>sidecarVolumes := insert ''/t'' (sidecarVolumes (vars s1))\<rparr>\<rparr>)"
    using m unfolding NodePublishVolume_def s2_def opts_def
    by (simp add: sampleRequest_sidecar sampleRequest_target targetState_def publishNew_def Let_def req state
        run_bind call_def ask_def note_ev_def track_def getVars_def setVars_def)
  with job evs(1) p show ?thesis by (simp add: newEvents_def s2_def)
qed

text \<open>The system after one publish, and after a second one that got the same minor.\<close>

definition idleSys :: "unit handoffSys" where
  "idleSys = \<lparr>node = \<lparr>vars = \<lparr>sidecarVolumes = {}, pendingSidecarMinors = {}\<rparr>, world = (), log = []\<rparr>,
     inFlight = {#}, sweeper = newFuseSweeper\<rparr>"

lemma minorReachable:
  "\<exists>st job. handoffReachable minorDriver fresh st \<and> inFlight st = {#job#} \<and> jobMinor job = Some 52"
proof -
  obtain s' job where p: "run_state (NodePublishVolume minorDriver sampleRequest) (node idleSys) = (None, s')"
      "startedJobs (newEvents (node idleSys) s') = [job]" "jobMinor job = Some 52"
    using minorPublish by blast
  have "handoffReachable minorDriver fresh idleSys" by (rule handoffReachable.init) (simp add: handoffInit_def idleSys_def)
  moreover have "handoffStep minorDriver fresh idleSys (Published [job]) (idleSys\<lparr>node := s', inFlight := inFlight idleSys + mset [job]\<rparr>)"
    by (rule handoffStep.publish [OF p(1) p(2) [symmetric]]) (simp add: idleSys_def minorsOf_def)
  ultimately have "handoffReachable minorDriver fresh (idleSys\<lparr>node := s', inFlight := inFlight idleSys + mset [job]\<rparr>)"
    by (rule handoffReachable.step)
  then show ?thesis using p(3) by (intro exI conjI) (auto simp: idleSys_def)
qed

theorem handoff_marks_exact_witness:
  "\<exists>st. handoffReachable minorDriver True st \<and> pendingSidecarMinors (vars (node st)) = {52}"
proof -
  obtain st job where *: "handoffReachable minorDriver True st" "inFlight st = {#job#}" "jobMinor job = Some 52"
    using minorReachable by blast
  then have "minorsOf (inFlight st) = {52}" by (auto simp: minorsOf_def)
  with handoff_marks_exact [OF *(1)] *(1) show ?thesis by auto
qed

theorem handoff_never_aborted_witness:
  "\<exists>st st' inp aborts. handoffReachable minorDriver True st \<and> orphaned (inp\<lparr>in_pending := (\<lambda>_. False)\<rparr>) 52
     \<and> handoffStep minorDriver True st (Swept aborts) st' \<and> 52 \<notin> set aborts"
proof -
  obtain st job where *: "handoffReachable minorDriver True st" "inFlight st = {#job#}" "jobMinor job = Some 52"
    using minorReachable by blast
  define inp where "inp = \<lparr>in_connections = Some [52], in_ourMounts = Some (\<lambda>_. [''/t'']), in_servers = Some [],
     in_waiting = (\<lambda>_. Some 1), in_pending = (\<lambda>m. m \<in> pendingSidecarMinors (vars (node st))), in_abortOk = (\<lambda>_. True)\<rparr>"
  obtain sw aborts where sw: "sweep inp (sweeper st) = (sw, aborts)" by (metis surj_pair)
  have step: "handoffStep minorDriver True st (Swept aborts) (st\<lparr>sweeper := sw\<rparr>)"
    by (rule handoffStep.swept [OF _ _ sw]) (simp_all add: inp_def input_ok_def)
  have "orphaned (inp\<lparr>in_pending := (\<lambda>_. False)\<rparr>) 52"
    by (simp add: orphaned_def inp_def mountHasLiveDaemon_def)
  moreover have "52 \<notin> set aborts" using handoff_never_aborted [OF *(1) _ *(3) step] *(2) by simp
  ultimately show ?thesis using *(1) step by blast
qed

text \<open>
  The assumption on the kernel is needed: when a new mount gets the minor of a handoff that is
  still in flight, the end of the old handoff clears the mark of the new one, which is then in
  flight without a mark.
\<close>

theorem reused_minor_loses_mark:
  "\<exists>st job. handoffReachable minorDriver False st \<and> job \<in># inFlight st \<and> jobMinor job = Some 52
     \<and> 52 \<notin> pendingSidecarMinors (vars (node st))"
proof -
  obtain st job1 where *: "handoffReachable minorDriver False st" "inFlight st = {#job1#}" "jobMinor job1 = Some 52"
    using minorReachable by blast
  obtain s' job2 where p: "run_state (NodePublishVolume minorDriver sampleRequest) (node st) = (None, s')"
      "startedJobs (newEvents (node st) s') = [job2]" "jobMinor job2 = Some 52"
    using minorPublish by blast
  define st2 where "st2 = st\<lparr>node := s', inFlight := inFlight st + mset [job2]\<rparr>"
  have "handoffStep minorDriver False st (Published [job2]) st2"
    unfolding st2_def by (rule handoffStep.publish [OF p(1) p(2) [symmetric]]) simp
  with *(1) have r2: "handoffReachable minorDriver False st2" by (rule handoffReachable.step)
  obtain ok s3 where e: "run_state (sidecarHandoff (hostOf minorDriver) job1) (node st2) = (ok, s3)" by (metis surj_pair)
  have "handoffStep minorDriver False st2 (HandoffEnded job1 ok) (st2\<lparr>node := s3, inFlight := inFlight st2 - {#job1#}\<rparr>)"
    by (rule handoffStep.ended [OF _ e]) (simp add: st2_def *(2))
  with r2 have "handoffReachable minorDriver False (st2\<lparr>node := s3, inFlight := inFlight st2 - {#job1#}\<rparr>)"
    by (rule handoffReachable.step)
  moreover have "52 \<notin> pendingSidecarMinors (vars s3)" using ended_marks [OF e] *(3) by simp
  ultimately show ?thesis using p(3) by (intro exI [of _ "st2\<lparr>node := s3, inFlight := inFlight st2 - {#job1#}\<rparr>"] exI [of _ job2])
    (simp add: st2_def *(2))
qed

end
