(* ===== verification/Sidecar_Contract.thy ===== *)
theory Sidecar_Contract
  imports Access_Mode Sidecar_Handoff
begin

text \<open>
  What the webhook and the driver must agree on for sidecar mode to work at all, although they are
  two programs that share no code for it: the container that \<open>pkg/webhook/sidecar.go\<close> injects has
  to find, at the paths on its command line, the files that \<open>pkg/driver/sidecar_mounter_linux.go\<close>
  writes on the host, and to wait for as many mounts as the driver will hand to it.

  Kubelet stands between them: the host directory of an \<open>emptyDir\<close> volume is a function \<open>hostDir\<close>
  of its name, a parameter; the theorems assume kubelet's documented layout for it.
\<close>

section \<open>Paths of the handoff directory\<close>

lemma Index_hd: "p \<noteq> [] \<Longrightarrow> hd p \<notin> set xs \<Longrightarrow> Index (xs @ p @ s) p = Some (length xs)"
proof (induction xs)
  case Nil
  then show ?case by (cases p) simp_all
next
  case (Cons x xs)
  then have "\<not> prefix p (x # xs @ p @ s)" by (cases p) auto
  with Cons show ?case by simp
qed

text \<open>A pod UID is made of hexadecimal digits and dashes.\<close>

definition uidOk :: "string \<Rightarrow> bool" where
  "uidOk u = (u \<noteq> [] \<and> list_all (\<lambda>c. is_hex c \<or> c = CHR ''-'') u)"

lemma uidOk_chars:
  assumes "uidOk u"
  shows "slash \<notin> set u" "CHR ''.'' \<notin> set u" "CHR ''h'' \<notin> set u"
proof -
  have "\<not> is_hex slash" "\<not> is_hex (CHR ''.'')" "\<not> is_hex (CHR ''h'')" by (simp_all add: is_hex_def)
  with assms show "slash \<notin> set u" "CHR ''.'' \<notin> set u" "CHR ''h'' \<notin> set u" by (auto simp: uidOk_def list_all_iff)
qed

lemma uidOk_plain: "uidOk u \<Longrightarrow> plain_comp u"
  using uidOk_chars [of u] by (auto simp: plain_comp_def uidOk_def)

lemma handoffHash_plain: "plain_comp (handoffHash v)"
  by (simp add: handoffHash_eq_mountID mountID_plain)

text \<open>The host path of an \<open>emptyDir\<close> volume, and what lies below it.\<close>

definition emptyDirsOf :: "string \<Rightarrow> string" where
  "emptyDirsOf u = ''/var/lib/kubelet/pods/'' @ u @ ''/volumes/kubernetes.io~empty-dir/''"

lemma below_emptyDir:
  assumes "uidOk u" "plain_comp n" "list_all plain_comp cs" "cs \<noteq> []"
  shows "pathJoin [kubeletPodsBase, u, ''volumes'', ''kubernetes.io~empty-dir'', n] = emptyDirsOf u @ n"
    and "pathJoin (pathJoin [kubeletPodsBase, u, ''volumes'', ''kubernetes.io~empty-dir'', n] # cs)
      = emptyDirsOf u @ n @ slash # Join cs [slash]"
    and "rooted (pathJoin (pathJoin [kubeletPodsBase, u, ''volumes'', ''kubernetes.io~empty-dir'', n] # cs))"
    and "pathComps (pathJoin (pathJoin [kubeletPodsBase, u, ''volumes'', ''kubernetes.io~empty-dir'', n] # cs))
      = [''var'', ''lib'', ''kubelet'', ''pods'', u, ''volumes'', ''kubernetes.io~empty-dir'', n] @ cs"
proof -
  let ?es = "[u, ''volumes'', ''kubernetes.io~empty-dir'', n]"
  have base: "pathComps kubeletPodsBase = [''var'', ''lib'', ''kubelet'', ''pods'']" "rooted kubeletPodsBase"
    by (simp_all add: kubeletPodsBase_def pathComps_def rooted_def)
  have plain: "?es \<noteq> []" "list_all plain_comp ?es"
    using uidOk_plain [OF assms(1)] assms(2) by (simp_all add: plain_comp_def)
  show "pathJoin (kubeletPodsBase # ?es) = emptyDirsOf u @ n"
    using pathJoin_eq [OF base(2) plain] by (simp add: base emptyDirsOf_def)
  note dir = pathJoin_comps [OF base(2) plain, unfolded base(1)]
  show "rooted (pathJoin (pathJoin (kubeletPodsBase # ?es) # cs))"
    "pathComps (pathJoin (pathJoin (kubeletPodsBase # ?es) # cs))
      = [''var'', ''lib'', ''kubelet'', ''pods'', u, ''volumes'', ''kubernetes.io~empty-dir'', n] @ cs"
    using pathJoin_comps [OF dir(2) assms(4,3)] by (simp_all add: dir(1))
  show "pathJoin (pathJoin (kubeletPodsBase # ?es) # cs) = emptyDirsOf u @ n @ slash # Join cs [slash]"
    using pathJoin_eq [OF dir(2) assms(4,3)] assms(4) by (simp add: dir(1) emptyDirsOf_def Join_Cons)
qed

lemma emptyDirName_plain: "plain_comp emptyDirName"
  by (simp add: emptyDirName_def plain_comp_def)

lemma handoffFile_eq:
  assumes "uidOk u" "plain_comp f"
  shows "pathJoin [handoffDir u vol, f] = emptyDirsOf u @ emptyDirName @ slash # Join [''.volumes'', handoffHash vol, f] [slash]"
proof -
  have cs: "list_all plain_comp [''.volumes'', handoffHash vol]" "list_all plain_comp [f]"
    using assms(2) handoffHash_plain [of vol] by (simp_all add: plain_comp_def)
  note dir = below_emptyDir(3,4) [OF assms(1) emptyDirName_plain cs(1), folded sidecarEmptyDirPath_def handoffDir_def]
  show ?thesis
    using pathJoin_eq [OF dir(1) _ cs(2)] by (simp add: dir(2) emptyDirsOf_def)
qed

lemma sidecarPath_eq:
  assumes "uidOk u"
  shows "sidecarPath (emptyDirsOf u @ emptyDirName @ slash # rest) = pathJoin [sidecarMountPath, rest]"
proof -
  have "CHR ''h'' \<notin> set (emptyDirsOf u)" using uidOk_chars(3) [OF assms] by (simp add: emptyDirsOf_def)
  then have "Index (emptyDirsOf u @ (emptyDirName @ [slash]) @ rest) (emptyDirName @ [slash]) = Some (length (emptyDirsOf u))"
    by (intro Index_hd) (simp_all add: emptyDirName_def)
  then show ?thesis by (simp add: sidecarPath_def Let_def)
qed

section \<open>What the container sees\<close>

text \<open>The path at which a container sees the host path \<open>p\<close> through its volume mounts.\<close>

definition containerSees :: "(string \<Rightarrow> string) \<Rightarrow> 'q container \<Rightarrow> string \<Rightarrow> string option" where
  "containerSees hostDir c p =
     map_option (\<lambda>vm. vmMountPath vm @ drop (length (hostDir (vmName vm))) p)
       (find (\<lambda>vm. prefix (hostDir (vmName vm) @ [slash]) p) (cVolumeMounts c))"

definition kubeletLayout :: "string \<Rightarrow> (string \<Rightarrow> string) \<Rightarrow> bool" where
  "kubeletLayout u hostDir \<longleftrightarrow>
     (\<forall>n. hostDir n = pathJoin [kubeletPodsBase, u, ''volumes'', ''kubernetes.io~empty-dir'', n])"

lemma handoff_below_mount:
  assumes "plain_comp f"
  shows "pathJoin [sidecarMountPath, Join [''.volumes'', handoffHash vol, f] [slash]]
    = sidecarMountPath @ slash # Join [''.volumes'', handoffHash vol, f] [slash]"
proof -
  have cs: "list_all plain_comp [''.volumes'', handoffHash vol, f]"
    using assms handoffHash_plain [of vol] by (simp add: plain_comp_def)
  have m: "pathComps sidecarMountPath = [''hf-csi-tmp'']" "rooted sidecarMountPath" "sidecarMountPath = slash # ''hf-csi-tmp''"
    by (simp_all add: sidecarMountPath_def pathComps_def rooted_def)
  have "pathJoin [sidecarMountPath, Join [''.volumes'', handoffHash vol, f] [slash]]
      = pathJoin [sidecarMountPath, ''.volumes'', handoffHash vol, f]"
    by (simp add: pathJoin_def m(3))
  also have "\<dots> = slash # Join (pathComps sidecarMountPath @ [''.volumes'', handoffHash vol, f]) [slash]"
    by (rule pathJoin_eq [OF m(2) _ cs]) simp
  finally show ?thesis unfolding m(1) by (simp add: m(3))
qed

lemma sidecar_mounts:
  "cVolumeMounts (sidecarContainer ops dflt c g n r ro) =
     [\<lparr>vmName = emptyDirName, vmMountPath = sidecarMountPath, vmMountPropagation = None\<rparr>,
      \<lparr>vmName = ''sidecar-tmp'', vmMountPath = ''/tmp'', vmMountPropagation = None\<rparr>]"
  "''--tmp-dir='' @ sidecarMountPath \<in> set (cArgs (sidecarContainer ops dflt c g n r ro))"
  by (simp_all add: sidecarContainer_def TmpVolumeName_def TmpVolumeMountPath_def emptyDirName_def sidecarMountPath_def)

text \<open>
  (C18) The injected container finds the handoff. In a pod the webhook has patched, the first
  container has the memory volume whose host directory is the one the driver demands as tmpfs
  mounted at its \<open>--tmp-dir\<close>; and every file \<open>f\<close> the driver writes for a volume into the handoff
  directory on the host is seen by that container at exactly the path the driver computes for it
  (\<open>sidecarPath\<close>, the token path among the arguments it hands over), in a directory of the volume
  below the mount.
\<close>

theorem sidecar_sees_handoff:
  assumes "Handle ops dflt api config marshals req = Patched pod'" "kubeletLayout u hostDir" "uidOk u" "plain_comp f"
  shows "\<exists>sc rest. podInitContainers pod' = sc # rest \<and> cName sc = SidecarContainerName
    \<and> emptyDirVolume emptyDirName ''Memory'' \<in> set (podVolumes pod') \<and> hostDir emptyDirName = sidecarEmptyDirPath u
    \<and> ''--tmp-dir='' @ sidecarMountPath \<in> set (cArgs sc)
    \<and> containerSees hostDir sc (pathJoin [handoffDir u vol, f]) = Some (sidecarPath (pathJoin [handoffDir u vol, f]))
    \<and> sidecarPath (pathJoin [handoffDir u vol, f])
        = sidecarMountPath @ ''/.volumes/'' @ handoffHash vol @ slash # f"
proof -
  obtain pod config' n r ro where pod': "pod' = injectSidecar ops dflt pod config' n r ro"
    using assms(1) unfolding Handle_Patched_iff by (metis (no_types, lifting))
  define sc where "sc = sidecarContainer ops dflt config' (graceAfter pod) n r ro"
  have dir: "hostDir emptyDirName = emptyDirsOf u @ emptyDirName" "sidecarEmptyDirPath u = emptyDirsOf u @ emptyDirName"
    using assms(2) below_emptyDir(1) [OF assms(3) emptyDirName_plain, of "[''x'']"]
    by (simp_all add: kubeletLayout_def sidecarEmptyDirPath_def plain_comp_def)
  note onHost = handoffFile_eq [OF assms(3,4), of vol]
  have inside: "sidecarPath (pathJoin [handoffDir u vol, f]) = sidecarMountPath @ slash # Join [''.volumes'', handoffHash vol, f] [slash]"
    unfolding onHost sidecarPath_eq [OF assms(3)] by (rule handoff_below_mount [OF assms(4)])
  have "containerSees hostDir sc (pathJoin [handoffDir u vol, f]) = Some (sidecarPath (pathJoin [handoffDir u vol, f]))"
    unfolding inside by (simp add: containerSees_def sc_def sidecar_mounts dir onHost)
  moreover have "''--tmp-dir='' @ sidecarMountPath \<in> set (cArgs sc)" "cName sc = SidecarContainerName"
    unfolding sc_def by (rule sidecar_mounts(2)) (rule sidecarContainer_shape(1))
  ultimately show ?thesis
    unfolding pod' injectSidecar_shape sc_def [symmetric]
    using inside dir by (simp add: TmpVolumeName_def emptyDirName_def)
qed

section \<open>How many mounts it waits for\<close>

text \<open>A publish request as kubelet makes it for a volume of the pod: the attributes of the volume
  are the context, with the UID of the pod added; and the driver does not refuse it.\<close>

definition publishes :: "bool option \<times> (string \<rightharpoonup> string) \<Rightarrow> publishRequest \<Rightarrow> bool" where
  "publishes v r = (pubVolumeContext r volumeCtxMountMode = snd v volumeAttrMountMode
     \<and> lookupStr (pubVolumeContext r) volumeCtxPodUID \<noteq> [] \<and> publishGuard r = None)"

lemma publishes_mode:
  assumes "publishes v r"
  shows "willUseSidecar r \<longleftrightarrow> attr (snd v) volumeAttrMountMode \<noteq> mountModeMountPod"
proof -
  have "getWithDefault (pubVolumeContext r) volumeCtxMountMode MountModeSidecar \<in> {MountModeSidecar, MountModeMountPod}"
    using assms by (auto simp: publishes_def publishGuard_def Let_def split: if_splits)
  with assms show ?thesis
    by (auto simp: publishes_def willUseSidecar_def attr_def getWithDefault_def MountModeSidecar_def MountModeMountPod_def
        mountModeMountPod_def split: option.splits if_splits)
qed

lemma publishes_count:
  "list_all2 publishes vs rs \<Longrightarrow>
     length (filter (\<lambda>(ro, a). attr a volumeAttrMountMode \<noteq> mountModeMountPod) vs) = length (filter willUseSidecar rs)"
  by (induction rule: list_all2_induct) (auto simp: publishes_mode)

text \<open>
  (C19) The sidecar waits for exactly the mounts the driver hands to it: for a patched pod whose
  volumes of this driver, inline or behind a claim, are all published with their attributes and
  the UID of the pod, the number in \<open>--expected-mounts\<close> is the number of these requests that the
  driver serves in sidecar mode; no volume waits for a daemon that nobody started, and the daemon
  does not wait for a volume that is served by a mount pod.
\<close>

theorem sidecar_expected_mounts:
  assumes "Handle ops dflt api config marshals req = Patched pod'" "reqObject req = Some pod"
    "list_all2 publishes (List.map_filter (hfAttrs api (reqNamespace req)) (podVolumes pod)) reqs"
  shows "\<exists>sc rest. podInitContainers pod' = sc # rest \<and> cName sc = SidecarContainerName
    \<and> ''--expected-mounts='' @ Itoa (int (length (filter willUseSidecar reqs))) \<in> set (cArgs sc)
    \<and> filter willUseSidecar reqs \<noteq> []"
proof -
  have n: "length (sidecarVolumesOf api (reqNamespace req) (podVolumes pod)) = length (filter willUseSidecar reqs)"
    unfolding sidecarVolumesOf_def by (rule publishes_count [OF assms(3)])
  obtain config' where "pod' = injectSidecar ops dflt pod config' (int (length (filter willUseSidecar reqs)))
         (scResources (scanSpec ops (sidecarVolumesOf api (reqNamespace req) (podVolumes pod))))
         (scAllReadOnly (scanSpec ops (sidecarVolumesOf api (reqNamespace req) (podVolumes pod))))"
      and ne: "sidecarVolumesOf api (reqNamespace req) (podVolumes pod) \<noteq> []"
    using assms(1,2) unfolding Handle_Patched_iff Let_def by (auto simp: scanSpec_def n)
  then have "podInitContainers pod' = sidecarContainer ops dflt config' (graceAfter pod) (int (length (filter willUseSidecar reqs)))
      (scResources (scanSpec ops (sidecarVolumesOf api (reqNamespace req) (podVolumes pod))))
      (scAllReadOnly (scanSpec ops (sidecarVolumesOf api (reqNamespace req) (podVolumes pod)))) # podInitContainers pod"
    by (simp add: injectSidecar_shape)
  moreover have "filter willUseSidecar reqs \<noteq> []" using n ne by (metis length_0_conv)
  ultimately show ?thesis using sidecarContainer_shape(1,3) by blast
qed

section \<open>Instances\<close>

definition sampleLayout :: "string \<Rightarrow> string" where
  "sampleLayout n = pathJoin [kubeletPodsBase, ''0a-1b'', ''volumes'', ''kubernetes.io~empty-dir'', n]"

theorem sidecar_sees_handoff_witness:
  "\<exists>pod' sc rest. Handle sampleOps sampleDefaults sampleApi sampleConfig (\<lambda>_. True) Webhook.sampleRequest = Patched pod'
     \<and> podInitContainers pod' = sc # rest
     \<and> containerSees sampleLayout sc (pathJoin [handoffDir ''0a-1b'' ''v'', ''token''])
         = Some (sidecarMountPath @ ''/.volumes/'' @ handoffHash ''v'' @ ''/token'')"
proof -
  obtain pod' where p: "Handle sampleOps sampleDefaults sampleApi sampleConfig (\<lambda>_. True) Webhook.sampleRequest = Patched pod'"
    using sample_patched by blast
  have "kubeletLayout ''0a-1b'' sampleLayout" "uidOk ''0a-1b''" "plain_comp ''token''"
    by (simp_all add: kubeletLayout_def sampleLayout_def uidOk_def is_hex_def plain_comp_def)
  from sidecar_sees_handoff [OF p this, of "''v''"] p show ?thesis by auto
qed

definition contractRequest :: publishRequest where
  "contractRequest =
     \<lparr>pubVolumeId = ''v'', pubTargetPath = ''/t'', pubCapability = Some (Some \<lparr>capMountFlags = [], capVolumeMountGroup = []\<rparr>),
      pubVolumeContext = [volumeCtxSourceType \<mapsto> ''repo'', volumeCtxSourceID \<mapsto> ''o/d'', volumeCtxPodUID \<mapsto> ''0a-1b''],
      pubSecrets = Map.empty, pubReadonly = False\<rparr>"

theorem sidecar_expected_mounts_witness:
  "\<exists>pod' sc rest. Handle sampleOps sampleDefaults sampleApi sampleConfig (\<lambda>_. True) Webhook.sampleRequest = Patched pod'
     \<and> podInitContainers pod' = sc # rest \<and> ''--expected-mounts=1'' \<in> set (cArgs sc)"
proof -
  obtain pod' where p: "Handle sampleOps sampleDefaults sampleApi sampleConfig (\<lambda>_. True) Webhook.sampleRequest = Patched pod'"
    using sample_patched by blast
  have r: "willUseSidecar contractRequest" "publishGuard contractRequest = None"
    by (simp_all add: contractRequest_def willUseSidecar_def publishGuard_def getWithDefault_def lookupStr_def volumeCtx_defs Let_def)
  have "hfAttrs sampleApi ''ns'' (hd (podVolumes samplePod)) = Some (None, [''sourceType'' \<mapsto> ''repo''])"
    by (simp add: hfAttrs_def samplePod_def)
  moreover have "publishes (None, [''sourceType'' \<mapsto> ''repo'']) contractRequest"
    using r(2) by (simp add: publishes_def contractRequest_def lookupStr_def volumeAttrMountMode_def volumeCtx_defs)
  ultimately have "list_all2 publishes (List.map_filter (hfAttrs sampleApi (reqNamespace Webhook.sampleRequest)) (podVolumes samplePod)) [contractRequest]"
    by (simp add: List.map_filter_def samplePod_def Webhook.sampleRequest_def)
  moreover have "Itoa 1 = ''1''" by code_simp
  ultimately show ?thesis
    using sidecar_expected_mounts [OF p, of samplePod "[contractRequest]"] p r(1) by (auto simp: Webhook.sampleRequest_def)
qed

end
