(* ===== verification/Fd_Channel.thy ===== *)
theory Fd_Channel
  imports Sidecar_Handoff
begin

text \<open>
  The bytes of \<open>pkg/util/fdchannel.go\<close>: the control message in which \<open>SendMsgFds\<close> passes
  descriptors, what \<open>RecvMsg\<close> makes of one, and \<open>SendMsg\<close>. \<open>UnixRights\<close>,
  \<open>ParseSocketControlMessage\<close> and \<open>ParseUnixRights\<close> are those of Go's \<open>syscall\<close> on a 64-bit
  little-endian Linux: a header of a 64-bit length, a 32-bit level and a 32-bit type, the
  descriptors as 32-bit integers, everything padded to 8 bytes. The kernel between the two ends
  is the call \<open>recvmsg\<close>, a parameter.
\<close>

type_synonym bytes = "8 word list"

section \<open>Little-endian integers\<close>

fun leBytes :: "nat \<Rightarrow> nat \<Rightarrow> bytes" where
  "leBytes 0 x = []"
| "leBytes (Suc k) x = word_of_nat (x mod 256) # leBytes k (x div 256)"

fun leNat :: "bytes \<Rightarrow> nat" where
  "leNat [] = 0"
| "leNat (b # bs) = unat b + 256 * leNat bs"

lemma length_leBytes [simp]: "length (leBytes k x) = k"
  by (induction k arbitrary: x) simp_all

lemma leNat_leBytes: "x < 256 ^ k \<Longrightarrow> leNat (leBytes k x) = x"
proof (induction k arbitrary: x)
  case (Suc k)
  then have "x div 256 < 256 ^ k" by (simp add: less_mult_imp_div_less mult.commute)
  with Suc.IH show ?case by (simp add: unat_of_nat take_bit_eq_mod)
qed simp

text \<open>\<open>int32(fd)\<close> and back; the conversion drops the upper half of an \<open>int\<close>.\<close>

definition fdBytes :: "int \<Rightarrow> bytes" where
  "fdBytes fd = leBytes 4 (unat (word_of_int fd :: 32 word))"

definition bytesFd :: "bytes \<Rightarrow> int" where
  "bytesFd bs = sint (word_of_nat (leNat bs) :: 32 word)"

lemma length_fdBytes [simp]: "length (fdBytes fd) = 4"
  by (simp add: fdBytes_def)

lemma bytesFd_fdBytes:
  assumes "- (2 ^ 31) \<le> fd" "fd < 2 ^ 31"
  shows "bytesFd (fdBytes fd) = fd"
proof -
  have "unat (word_of_int fd :: 32 word) < 256 ^ 4" using unsigned_less [of "word_of_int fd :: 32 word"] by simp
  then have "bytesFd (fdBytes fd) = sint (word_of_int fd :: 32 word)" by (simp add: bytesFd_def fdBytes_def leNat_leBytes)
  also have "\<dots> = fd" using assms by (simp add: sint_sbintrunc' signed_take_bit_int_eq_self)
  finally show ?thesis .
qed

section \<open>Control messages\<close>

definition SizeofCmsghdr :: nat where
  "SizeofCmsghdr = 16"

definition cmsgAlignOf :: "nat \<Rightarrow> nat" where
  "cmsgAlignOf n = (n + 7) div 8 * 8"

definition CmsgLen :: "nat \<Rightarrow> nat" where
  "CmsgLen datalen = cmsgAlignOf SizeofCmsghdr + datalen"

definition CmsgSpace :: "nat \<Rightarrow> nat" where
  "CmsgSpace datalen = cmsgAlignOf SizeofCmsghdr + cmsgAlignOf datalen"

definition UnixRights :: "int list \<Rightarrow> bytes" where
  "UnixRights fds =
     (let datalen = 4 * length fds in
      leBytes 8 (CmsgLen datalen) @ leBytes 4 1 @ leBytes 4 1 @ concat (map fdBytes fds)
        @ replicate (CmsgSpace datalen - CmsgLen datalen) 0)"

record controlMessage =
  cmLevel :: nat
  cmType :: nat
  cmData :: bytes

text \<open>The length of the message, which includes the header, and the message.\<close>

definition headerAndData :: "bytes \<Rightarrow> (nat \<times> controlMessage) option" where
  "headerAndData b =
     (let len = leNat (take 8 b) in
      if len < SizeofCmsghdr \<or> length b < len then None
      else Some (len, \<lparr>cmLevel = leNat (take 4 (drop 8 b)), cmType = leNat (take 4 (drop 12 b)),
                        cmData = drop (cmsgAlignOf SizeofCmsghdr) (take len b)\<rparr>))"

function ParseSocketControlMessage :: "bytes \<Rightarrow> controlMessage list option" where
  "ParseSocketControlMessage b =
     (if length b < CmsgLen 0 then Some []
      else case headerAndData b of
          None \<Rightarrow> None
        | Some (len, m) \<Rightarrow> map_option (\<lambda>ms. m # ms) (ParseSocketControlMessage (drop (cmsgAlignOf len) b)))"
  by pat_completeness auto
termination
  by (relation "measure length")
     (auto simp: headerAndData_def CmsgLen_def SizeofCmsghdr_def cmsgAlignOf_def Let_def split: if_splits)

declare ParseSocketControlMessage.simps [simp del]

text \<open>The descriptors; an index runs out of range when the data is no multiple of four bytes.\<close>

datatype rightsErr = NotRights | IndexOutOfRange

fun fdsOf :: "bytes \<Rightarrow> int list option" where
  "fdsOf [] = Some []"
| "fdsOf (a # b # c # d # bs) = map_option (\<lambda>fds. bytesFd [a, b, c, d] # fds) (fdsOf bs)"
| "fdsOf bs = None"

definition ParseUnixRights :: "controlMessage \<Rightarrow> rightsErr + int list" where
  "ParseUnixRights m =
     (if cmLevel m \<noteq> 1 \<or> cmType m \<noteq> 1 then Inl NotRights
      else case fdsOf (cmData m) of None \<Rightarrow> Inl IndexOutOfRange | Some fds \<Rightarrow> Inr fds)"

section \<open>Sending and receiving\<close>

definition SendMsg :: "'w hostEnv \<Rightarrow> nat \<Rightarrow> int \<Rightarrow> string \<Rightarrow> ('w host, sendErr option) state" where
  "SendMsg h conn fd msg = SendMsgFds h conn [fd] msg"

datatype recvErr = RecvSocket oserr | RecvFailed oserr | BadControl | NoControl | BadRights rightsErr | NoDescriptor

definition firstFd :: "bytes \<Rightarrow> recvErr + int" where
  "firstFd oob =
     (case ParseSocketControlMessage oob of
        None \<Rightarrow> Inl BadControl
      | Some [] \<Rightarrow> Inl NoControl
      | Some (m # ms) \<Rightarrow>
          (case ParseUnixRights m of
             Inl e \<Rightarrow> Inl (BadRights e)
           | Inr [] \<Rightarrow> Inl NoDescriptor
           | Inr (fd # fds) \<Rightarrow> Inr fd))"

text \<open>\<open>recvmsg\<close> gets the sizes of the two buffers and gives the bytes it has put there.\<close>

definition RecvMsg ::
  "'w hostEnv \<Rightarrow> (int \<Rightarrow> nat \<Rightarrow> nat \<Rightarrow> ('w, oserr + bytes \<times> bytes) state) \<Rightarrow> nat
    \<Rightarrow> ('w host, recvErr + int \<times> bytes) state" where
  "RecvMsg h recvmsg conn =
     do { f \<leftarrow> call (connFile h conn) (SockDup conn);
          case f of
            Inl e \<Rightarrow> State_Monad.return (Inl (RecvSocket e))
          | Inr sock \<Rightarrow>
              do { r \<leftarrow> ask (recvmsg sock 4096 (CmsgSpace 4));
                   _ \<leftarrow> sysClose h sock;
                   State_Monad.return
                     (case r of
                        Inl e \<Rightarrow> Inl (RecvFailed e)
                      | Inr (data, oob) \<Rightarrow>
                          (case firstFd oob of Inl e \<Rightarrow> Inl e | Inr fd \<Rightarrow> Inr (fd, data))) } }"

section \<open>Round trip\<close>

definition int32 :: "int \<Rightarrow> bool" where
  "int32 fd = (- (2 ^ 31) \<le> fd \<and> fd < 2 ^ 31)"

lemma four_bytes: "length (bs :: bytes) = 4 \<Longrightarrow> \<exists>a b c d. bs = [a, b, c, d]"
  by (auto simp: length_Suc_conv numeral_eq_Suc)

lemma fdsOf_concat:
  "list_all int32 fds \<Longrightarrow> fdsOf (concat (map fdBytes fds)) = Some fds"
proof (induction fds)
  case (Cons fd fds)
  obtain a b c d where bs: "fdBytes fd = [a, b, c, d]" using four_bytes [OF length_fdBytes] by blast
  have "bytesFd [a, b, c, d] = fd" using bytesFd_fdBytes [of fd] Cons.prems by (simp add: bs int32_def)
  with Cons bs show ?case by simp
qed simp

lemma length_concat_fds [simp]: "length (concat (map fdBytes fds)) = 4 * length fds"
  by (induction fds) simp_all

lemma cmsgAlignOf_ge: "n \<le> cmsgAlignOf n"
  unfolding cmsgAlignOf_def by presburger

lemma rights_parsed:
  assumes "list_all int32 fds" "CmsgLen (4 * length fds) \<le> n" "4 * length fds < 2 ^ 32"
  shows "\<exists>m. ParseSocketControlMessage (take n (UnixRights fds)) = Some [m] \<and> ParseUnixRights m = Inr fds"
proof -
  let ?b = "take n (UnixRights fds)" and ?d = "4 * length fds"
  define pad where "pad = take (n - CmsgLen ?d) (replicate (CmsgSpace ?d - CmsgLen ?d) (0 :: 8 word))"
  have n: "n = 16 + ?d + (n - CmsgLen ?d)" using assms(2) by (simp add: CmsgLen_def SizeofCmsghdr_def cmsgAlignOf_def)
  have b: "?b = leBytes 8 (CmsgLen ?d) @ leBytes 4 1 @ leBytes 4 1 @ concat (map fdBytes fds) @ pad"
    unfolding pad_def UnixRights_def Let_def by (subst n) (simp add: CmsgLen_def SizeofCmsghdr_def cmsgAlignOf_def)
  have len: "leNat (leBytes 8 (CmsgLen ?d)) = CmsgLen ?d" "leNat (leBytes 4 1) = 1"
    using assms(3) by (simp_all add: leNat_leBytes CmsgLen_def SizeofCmsghdr_def cmsgAlignOf_def)
  define m where "m = \<lparr>cmLevel = 1, cmType = 1, cmData = concat (map fdBytes fds)\<rparr>"
  have eq: "CmsgLen ?d = 16 + ?d" by (simp add: CmsgLen_def SizeofCmsghdr_def cmsgAlignOf_def)
  have pad: "length pad < 8"
    unfolding pad_def by (simp add: CmsgLen_def CmsgSpace_def cmsgAlignOf_def)
  have "headerAndData ?b = Some (CmsgLen ?d, m)"
    unfolding b headerAndData_def Let_def using len
    by (simp add: eq m_def SizeofCmsghdr_def cmsgAlignOf_def)
  moreover have "ParseSocketControlMessage (drop (cmsgAlignOf (CmsgLen ?d)) ?b) = Some []"
  proof -
    have "length (drop (cmsgAlignOf (CmsgLen ?d)) ?b) < CmsgLen 0"
      using cmsgAlignOf_ge [of "CmsgLen ?d"] pad unfolding b by (simp add: eq CmsgLen_def [of 0] SizeofCmsghdr_def cmsgAlignOf_def [of 16])
    then show ?thesis by (subst ParseSocketControlMessage.simps) simp
  qed
  moreover have "\<not> length ?b < CmsgLen 0" unfolding b by (simp add: CmsgLen_def SizeofCmsghdr_def cmsgAlignOf_def)
  ultimately have "ParseSocketControlMessage ?b = Some [m]" by (subst ParseSocketControlMessage.simps) simp
  moreover have "ParseUnixRights m = Inr fds" by (simp add: ParseUnixRights_def m_def fdsOf_concat [OF assms(1)])
  ultimately show ?thesis by blast
qed

text \<open>
  Descriptors survive the control message byte by byte: parsing the bytes that
  \<open>UnixRights\<close> makes of any list of 32-bit descriptors, also when the receiver's buffer has cut
  the padding off, finds one message and in it exactly these descriptors in their order.
\<close>

theorem rights_roundtrip:
  assumes "list_all int32 fds" "CmsgLen (4 * length fds) \<le> n" "4 * length fds < 2 ^ 32"
  shows "\<exists>m. ParseSocketControlMessage (take n (UnixRights fds)) = Some [m] \<and> ParseUnixRights m = Inr fds"
  by (rule rights_parsed [OF assms])

text \<open>
  What \<open>RecvMsg\<close> makes of it: on every path it closes the socket it duplicated, and for a message
  with descriptors it returns the first of them and the data. Its buffer of \<open>CmsgSpace(4)\<close> bytes
  has room for two descriptors, because the space is padded to eight bytes: of the two the second
  is neither returned nor closed.
\<close>

lemma firstFd_rights:
  assumes "list_all int32 fds" "fds \<noteq> []" "CmsgLen (4 * length fds) \<le> n" "4 * length fds < 2 ^ 32"
  shows "firstFd (take n (UnixRights fds)) = Inr (hd fds)"
  using rights_parsed [OF assms(1,3,4)] assms(2) by (cases fds) (auto simp: firstFd_def)

theorem RecvMsg_first:
  assumes "run_state (RecvMsg h recvmsg conn) s = (r, s')"
  shows "opens (newEvents s s') = closes (newEvents s s')
    \<and> (\<forall>sock data oob w'. run_state (connFile h conn) (world s) = (Inr sock, w) \<longrightarrow>
         run_state (recvmsg sock 4096 (CmsgSpace 4)) w = (Inr (data, oob), w') \<longrightarrow>
         r = (case firstFd oob of Inl e \<Rightarrow> Inl e | Inr fd \<Rightarrow> Inr (fd, data)))"
proof -
  have "eff (RecvMsg h recvmsg conn) (\<lambda>_ _ evs. opens evs = closes evs) (vars s)"
    unfolding RecvMsg_def sysClose_def by (intro eff_intros) auto
  moreover have "r = (case firstFd oob of Inl e \<Rightarrow> Inl e | Inr fd \<Rightarrow> Inr (fd, data))"
    if "run_state (connFile h conn) (world s) = (Inr sock, w)" "run_state (recvmsg sock 4096 (CmsgSpace 4)) w = (Inr (data, oob), w')"
    for sock data oob w'
    using assms that by (auto simp: RecvMsg_def sysClose_def run_bind call_def ask_def note_ev_def split: prod.splits)
  ultimately show ?thesis using eff_newEvents [OF _ assms] by blast
qed

theorem RecvMsg_two_descriptors:
  assumes "run_state (connFile h conn) (world s) = (Inr sock, w)" "int32 a" "int32 b" "b \<noteq> sock"
    "run_state (recvmsg sock 4096 (CmsgSpace 4)) w = (Inr (data, UnixRights [a, b]), w')"
    "run_state (RecvMsg h recvmsg conn) s = (r, s')"
  shows "length (UnixRights [a, b]) = CmsgSpace 4 \<and> r = Inr (a, data) \<and> FdClosed b \<notin> set (newEvents s s')"
proof -
  have len: "length (UnixRights [a, b]) = CmsgSpace 4"
    by (simp add: UnixRights_def CmsgSpace_def CmsgLen_def SizeofCmsghdr_def cmsgAlignOf_def Let_def)
  have "firstFd (take (CmsgSpace 4) (UnixRights [a, b])) = Inr (hd [a, b])"
    using assms(2,3) by (intro firstFd_rights) (simp_all add: CmsgSpace_def CmsgLen_def SizeofCmsghdr_def cmsgAlignOf_def)
  then have "firstFd (UnixRights [a, b]) = Inr a" using len by simp
  moreover have "newEvents s s' = [SockDup conn (Inr sock), FdClosed sock]"
    using assms(1,5,6) by (auto simp: RecvMsg_def sysClose_def run_bind call_def ask_def note_ev_def newEvents_def split: prod.splits)
  ultimately show ?thesis
    using len assms(4) RecvMsg_first [OF assms(6), of w] assms(1,5) by auto
qed

theorem rights_roundtrip_witness:
  "\<exists>m. ParseSocketControlMessage (take 28 (UnixRights [7, 8, 2147483647])) = Some [m]
     \<and> ParseUnixRights m = Inr [7, 8, 2147483647]"
  using rights_roundtrip [of "[7, 8, 2147483647]" 28]
  by (simp add: int32_def CmsgLen_def SizeofCmsghdr_def cmsgAlignOf_def)

end
