(* ===== verification/Process_Main.thy ===== *)
theory Process_Main
  imports Driver_Process Webhook Node_Pods "HOL-Library.Sublist"
begin

text \<open>
  The whole process: \<open>main\<close> and \<open>runWebhook\<close> of \<open>cmd/hf-csi-driver/main.go\<close>, which choose one of
  the two roles of the binary, and the services of the CSI that answer from constants
  (\<open>identity.go\<close>, \<open>controller.go\<close> and the end of \<open>node.go\<close>). The parsing of the flags is the flag
  package's; the manager that serves the webhook is a record of calls with arbitrary answers.
\<close>

section \<open>The webhook server\<close>

text \<open>\<open>hookConfig\<close> stands for \<open>GetConfigOrDie\<close>, which ends the process when it fails.\<close>

record 'w hookEnv =
  hookConfig :: "('w, string option) state"
  newManager :: "int \<Rightarrow> string \<Rightarrow> ('w, string option) state"
  addReadyzCheck :: "('w, string option) state"
  startManager :: "('w, string option) state"

definition runWebhook :: "'w hookEnv \<Rightarrow> int \<Rightarrow> string \<Rightarrow> webhookConfig \<Rightarrow> ('w proc, nodeExit) state" where
  "runWebhook env port certDir config =
     (if SidecarImage config = [] then State_Monad.return (Fatal ''--sidecar-image is required in webhook mode'')
      else
        do { c \<leftarrow> ask (hookConfig env);
             case c of
               Some e \<Rightarrow> State_Monad.return (Fatal e)
             | None \<Rightarrow>
                 do { m \<leftarrow> call (newManager env port certDir) (ManagerCreated port certDir);
                      case m of
                        Some e \<Rightarrow> State_Monad.return (Fatal e)
                      | None \<Rightarrow>
                          do { r \<leftarrow> call (addReadyzCheck env) ReadyzAdded;
                               case r of
                                 Some e \<Rightarrow> State_Monad.return (Fatal e)
                               | None \<Rightarrow>
                                   do { note_ev (HandlerRegistered ''/inject'' (SidecarImage config) (SidecarLogFormat config));
                                        note_ev (ManagerStarted port);
                                        s \<leftarrow> ask (startManager env);
                                        State_Monad.return (case s of Some e \<Rightarrow> Fatal e | None \<Rightarrow> Finished) } } } })"

section \<open>Choosing the role\<close>

record mainFlags = nodeFlags +
  flagMode :: string
  flagDefaultMemReq :: string
  flagDefaultMemReqRO :: string
  flagWebhookPort :: int
  flagWebhookCertDir :: string
  flagSidecarImage :: string
  flagSidecarLogFormat :: string
  flagShowVersion :: bool

text \<open>The defaults of the memory requests are globals of the process; the result has their last value.\<close>

definition main ::
  "'q quantityOps \<Rightarrow> (string \<Rightarrow> string option) \<Rightarrow> 'w procEnv \<Rightarrow> 'w hookEnv \<Rightarrow> mainFlags \<Rightarrow> 'q resourceDefaults
    \<Rightarrow> ('w proc, 'q resourceDefaults \<times> nodeExit) state" where
  "main ops bracketHost env henv flags dflt =
     (if flagShowVersion flags then do { note_ev VersionPrinted; State_Monad.return (dflt, Finished) }
      else case SetDefaultMemoryRequests ops (flagDefaultMemReq flags) (flagDefaultMemReqRO flags) dflt of
          (Some e, dflt') \<Rightarrow> State_Monad.return (dflt', Fatal ''invalid default memory request'')
        | (None, dflt') \<Rightarrow>
            if flagMode flags = ''node'' then
              do { x \<leftarrow> runNode bracketHost env (nodeFlags.truncate flags); State_Monad.return (dflt', x) }
            else if flagMode flags = ''webhook'' then
              do { x \<leftarrow> runWebhook henv (flagWebhookPort flags) (flagWebhookCertDir flags)
                          \<lparr>SidecarImage = flagSidecarImage flags, SidecarLogFormat = flagSidecarLogFormat flags\<rparr>;
                   State_Monad.return (dflt', x) }
            else State_Monad.return (dflt', Fatal ''Unknown mode''))"

text \<open>
  A process has one role. It serves nothing before its default memory requests are valid: with an
  invalid one, an unknown mode or only the version asked for it starts nothing at all. In node mode
  it never registers the handler of the webhook; in webhook mode it never creates a mounter,
  touches a socket or spawns background work, and the handler is registered before the manager
  starts, only with an image. Whatever runs, runs with the defaults of the flags.
\<close>

definition hookEvent :: "procEvent \<Rightarrow> bool" where
  "hookEvent ev \<longleftrightarrow> (case ev of ManagerCreated p c e \<Rightarrow> True | ReadyzAdded e \<Rightarrow> True
     | HandlerRegistered p i l \<Rightarrow> True | ManagerStarted p \<Rightarrow> True | _ \<Rightarrow> False)"

lemma eff_Run_events: "eff (Run bh env endpoint) (\<lambda>_ _ evs. \<forall>ev\<in>set evs. \<not> hookEvent ev \<and> ev \<noteq> VersionPrinted) v"
  unfolding Run_def by (intro eff_intros) (auto simp: hookEvent_def)

lemma eff_runNode_events: "eff (runNode bh env flags) (\<lambda>_ _ evs. \<forall>ev\<in>set evs. \<not> hookEvent ev \<and> ev \<noteq> VersionPrinted) v"
  unfolding runNode_def by (intro eff_intros eff_mono [OF eff_Run_events]) (auto simp: hookEvent_def)

definition webhookLog :: "int \<Rightarrow> string \<Rightarrow> webhookConfig \<Rightarrow> nodeExit \<Rightarrow> procEvent list \<Rightarrow> bool" where
  "webhookLog port certDir config x evs \<longleftrightarrow>
     evs = [] \<and> x \<noteq> Finished
     \<or> SidecarImage config \<noteq> []
        \<and> ((\<exists>e. evs = [ManagerCreated port certDir e] \<and> x \<noteq> Finished)
           \<or> (\<exists>e. evs = [ManagerCreated port certDir None, ReadyzAdded e] \<and> x \<noteq> Finished)
           \<or> evs = [ManagerCreated port certDir None, ReadyzAdded None,
               HandlerRegistered ''/inject'' (SidecarImage config) (SidecarLogFormat config), ManagerStarted port])"

lemma eff_runWebhook: "eff (runWebhook env port certDir config) (\<lambda>x v' evs. v' = v \<and> webhookLog port certDir config x evs) v"
  unfolding runWebhook_def by (intro eff_intros) (auto simp: webhookLog_def)

lemma webhookLog_events: "webhookLog port certDir config x evs \<Longrightarrow> ev \<in> set evs \<Longrightarrow> hookEvent ev"
  by (auto simp: webhookLog_def hookEvent_def)

lemma webhookLog_handler:
  "webhookLog port certDir config x evs \<Longrightarrow> HandlerRegistered p i l \<in> set evs \<Longrightarrow>
     p = ''/inject'' \<and> i = SidecarImage config \<and> i \<noteq> [] \<and> l = SidecarLogFormat config \<and> last evs = ManagerStarted port"
  by (auto simp: webhookLog_def)

lemma SetDefaultMemoryRequests_ok:
  "SetDefaultMemoryRequests ops w r d = (None, d') \<Longrightarrow>
     ParseQuantity ops w = Some (DefaultMemoryRequestFor d' False) \<and> ParseQuantity ops r = Some (DefaultMemoryRequestFor d' True)"
  by (auto simp: SetDefaultMemoryRequests_def DefaultMemoryRequestFor_def split: option.splits)

definition rolesLog ::
  "'q quantityOps \<Rightarrow> mainFlags \<Rightarrow> 'q resourceDefaults \<Rightarrow> 'q resourceDefaults \<Rightarrow> procEvent list \<Rightarrow> bool" where
  "rolesLog ops flags dflt dflt' evs \<longleftrightarrow>
     (flagShowVersion flags \<longrightarrow> evs = [VersionPrinted] \<and> dflt' = dflt)
     \<and> (evs \<noteq> [] \<and> \<not> flagShowVersion flags \<longrightarrow> flagMode flags \<in> {''node'', ''webhook''}
         \<and> ParseQuantity ops (flagDefaultMemReq flags) = Some (DefaultMemoryRequestFor dflt' False)
         \<and> ParseQuantity ops (flagDefaultMemReqRO flags) = Some (DefaultMemoryRequestFor dflt' True))
     \<and> (\<not> flagShowVersion flags \<longrightarrow> (\<forall>ev\<in>set evs. hookEvent ev \<longleftrightarrow> flagMode flags = ''webhook''))
     \<and> (\<forall>p i l. HandlerRegistered p i l \<in> set evs \<longrightarrow>
         p = ''/inject'' \<and> i = flagSidecarImage flags \<and> i \<noteq> [] \<and> l = flagSidecarLogFormat flags
         \<and> last evs = ManagerStarted (flagWebhookPort flags))"

lemma rolesLog_intros:
  "flagShowVersion flags \<Longrightarrow> rolesLog ops flags d d [VersionPrinted]"
  "\<not> flagShowVersion flags \<Longrightarrow> rolesLog ops flags d d' []"
  "\<not> flagShowVersion flags \<Longrightarrow> flagMode flags = ''node'' \<Longrightarrow>
     SetDefaultMemoryRequests ops (flagDefaultMemReq flags) (flagDefaultMemReqRO flags) d = (None, d') \<Longrightarrow>
     \<forall>ev\<in>set evs. \<not> hookEvent ev \<and> ev \<noteq> VersionPrinted \<Longrightarrow> rolesLog ops flags d d' evs"
  "\<not> flagShowVersion flags \<Longrightarrow> flagMode flags = ''webhook'' \<Longrightarrow>
     SetDefaultMemoryRequests ops (flagDefaultMemReq flags) (flagDefaultMemReqRO flags) d = (None, d') \<Longrightarrow>
     webhookLog (flagWebhookPort flags) c \<lparr>SidecarImage = flagSidecarImage flags, SidecarLogFormat = flagSidecarLogFormat flags\<rparr> x evs \<Longrightarrow>
     rolesLog ops flags d d' evs"
proof -
  show "flagShowVersion flags \<Longrightarrow> rolesLog ops flags d d [VersionPrinted]" by (simp add: rolesLog_def)
  show "\<not> flagShowVersion flags \<Longrightarrow> rolesLog ops flags d d' []" by (simp add: rolesLog_def)
next
  assume *: "\<not> flagShowVersion flags" "flagMode flags = ''node''"
    "SetDefaultMemoryRequests ops (flagDefaultMemReq flags) (flagDefaultMemReqRO flags) d = (None, d')"
    "\<forall>ev\<in>set evs. \<not> hookEvent ev \<and> ev \<noteq> VersionPrinted"
  then have "HandlerRegistered p i l \<notin> set evs" for p i l by (auto simp: hookEvent_def)
  with * SetDefaultMemoryRequests_ok [OF *(3)] show "rolesLog ops flags d d' evs" by (simp add: rolesLog_def)
next
  assume *: "\<not> flagShowVersion flags" "flagMode flags = ''webhook''"
    "SetDefaultMemoryRequests ops (flagDefaultMemReq flags) (flagDefaultMemReqRO flags) d = (None, d')"
    "webhookLog (flagWebhookPort flags) c \<lparr>SidecarImage = flagSidecarImage flags, SidecarLogFormat = flagSidecarLogFormat flags\<rparr> x evs"
  from * SetDefaultMemoryRequests_ok [OF *(3)] webhookLog_handler [OF *(4)] webhookLog_events [OF *(4)]
  show "rolesLog ops flags d d' evs" by (simp add: rolesLog_def)
qed

theorem main_roles:
  assumes "run_state (main ops bh env henv flags dflt) s = ((dflt', x), s')"
  shows "(flagShowVersion flags \<longrightarrow> newEvents s s' = [VersionPrinted] \<and> dflt' = dflt)
    \<and> (newEvents s s' \<noteq> [] \<and> \<not> flagShowVersion flags \<longrightarrow> flagMode flags \<in> {''node'', ''webhook''}
         \<and> ParseQuantity ops (flagDefaultMemReq flags) = Some (DefaultMemoryRequestFor dflt' False)
         \<and> ParseQuantity ops (flagDefaultMemReqRO flags) = Some (DefaultMemoryRequestFor dflt' True))
    \<and> (\<not> flagShowVersion flags \<longrightarrow> (\<forall>ev\<in>set (newEvents s s'). hookEvent ev \<longleftrightarrow> flagMode flags = ''webhook''))
    \<and> (\<forall>p i l. HandlerRegistered p i l \<in> set (newEvents s s') \<longrightarrow>
         p = ''/inject'' \<and> i = flagSidecarImage flags \<and> i \<noteq> [] \<and> l = flagSidecarLogFormat flags
         \<and> last (newEvents s s') = ManagerStarted (flagWebhookPort flags))"
proof -
  have "eff (main ops bh env henv flags dflt) (\<lambda>r _ evs. rolesLog ops flags dflt (fst r) evs) (vars s)"
    unfolding main_def
    apply (intro eff_intros eff_mono [OF eff_runNode_events] eff_mono [OF eff_runWebhook])
    subgoal by (simp add: rolesLog_intros)
    subgoal by (simp add: rolesLog_intros)
    subgoal by simp (elim conjE, rule rolesLog_intros(4), assumption+)
    subgoal by (simp add: rolesLog_intros)
    subgoal by (simp add: rolesLog_intros)
    done
  from eff_newEvents [OF this assms] show ?thesis by (simp add: rolesLog_def)
qed

section \<open>Services that answer from constants\<close>

text \<open>The services of the node; a request for one that is not offered gets its message.\<close>

datatype rpcError = Unimplemented string

datatype nodeCapability = VOLUME_MOUNT_GROUP

definition Version :: string where
  "Version = ''dev''"

definition GetPluginInfo :: "string \<times> string" where
  "GetPluginInfo = (DriverName, Version)"

text \<open>No capability of the plugin or of the controller is announced; the probe always says ready.\<close>

definition GetPluginCapabilities :: "unit list" where
  "GetPluginCapabilities = []"

definition Probe :: bool where
  "Probe = True"

definition ControllerGetCapabilities :: "unit list" where
  "ControllerGetCapabilities = []"

definition NodeStageVolume :: "rpcError + unit" where
  "NodeStageVolume = Inl (Unimplemented ''NodeStageVolume not supported'')"

definition NodeUnstageVolume :: "rpcError + unit" where
  "NodeUnstageVolume = Inl (Unimplemented ''NodeUnstageVolume not supported'')"

definition NodeGetVolumeStats :: "rpcError + unit" where
  "NodeGetVolumeStats = Inl (Unimplemented ''NodeGetVolumeStats not supported'')"

definition NodeExpandVolume :: "rpcError + unit" where
  "NodeExpandVolume = Inl (Unimplemented ''NodeExpandVolume not supported'')"

definition NodeGetCapabilities :: "nodeCapability list" where
  "NodeGetCapabilities = [VOLUME_MOUNT_GROUP]"

definition NodeGetInfo :: "('w, 'q, 'e) Driver \<Rightarrow> string" where
  "NodeGetInfo d = drvNodeID d"

lemma sidecarMountLog_data:
  assumes "sidecarMountLog st sid target opts vol r v v' evs" "KernelMounted src tgt data e \<in> set evs"
  shows "\<exists>fd. data = fuseMountData fd (fuseOwner (VolumeMountGroup opts))"
proof -
  have f: "KernelMounted src tgt data e \<notin> set files" if "fileLog dir files" for dir files
    using that by (auto simp: fileLog_def)
  have c: "KernelMounted src tgt data e \<notin> set conf" if "configLog st sid dir opts None conf" for dir conf
    using that f by (auto simp: configLog_def)
  show ?thesis
    using assms f c unfolding sidecarMountLog_def Let_def by (auto split: option.splits)
qed



text \<open>A webhook process with the defaults of the flags, and one without an image.\<close>

definition quietHook :: "unit hookEnv" where
  "quietHook = \<lparr>hookConfig = State_Monad.return None, newManager = (\<lambda>_ _. State_Monad.return None),
     addReadyzCheck = State_Monad.return None, startManager = State_Monad.return None\<rparr>"

definition hookFlags :: "string \<Rightarrow> mainFlags" where
  "hookFlags img =
     \<lparr>flagEndpoint = ''unix:///s'', flagNodeID = [], flagMountImage = [], flagPullSecrets = [], flagFuseSweepEnabled = True,
      flagStartupTaintKey = [], flagMode = ''webhook'', flagDefaultMemReq = ''1'', flagDefaultMemReqRO = ''1'',
      flagWebhookPort = 22030, flagWebhookCertDir = ''/c'', flagSidecarImage = img, flagSidecarLogFormat = [],
      flagShowVersion = False\<rparr>"

lemma runWebhook_quiet:
  assumes "SidecarImage config \<noteq> []"
  shows "run_state (runWebhook quietHook port certDir config) s = (Finished, s\<lparr>log := log s @
    [ManagerCreated port certDir None, ReadyzAdded None, HandlerRegistered ''/inject'' (SidecarImage config) (SidecarLogFormat config),
     ManagerStarted port]\<rparr>)"
  using assms by (simp add: runWebhook_def quietHook_def run_bind call_def ask_def note_ev_def)

theorem main_roles_witness:
  "\<exists>dflt' s'. run_state (main sampleOps bh env quietHook (hookFlags ''img'') Webhook.sampleDefaults)
        \<lparr>vars = \<lparr>stopChCloses = 0, stopOnceDone = False, srvSet = False\<rparr>, world = (), log = []\<rparr> = ((dflt', Finished), s')
     \<and> last (log s') = ManagerStarted 22030 \<and> ParseQuantity sampleOps ''1'' = Some (DefaultMemoryRequestFor dflt' True)"
proof -
  let ?s = "\<lparr>vars = \<lparr>stopChCloses = 0, stopOnceDone = False, srvSet = False\<rparr>, world = (), log = []\<rparr> :: unit proc"
  have q: "ParseQuantity sampleOps ''1'' \<noteq> None" by (simp add: sampleOps_def) 
  then obtain dflt' where d: "SetDefaultMemoryRequests sampleOps ''1'' ''1'' Webhook.sampleDefaults = (None, dflt')"
    by (auto simp: SetDefaultMemoryRequests_def)
  define config where "config = \<lparr>SidecarImage = ''img'', SidecarLogFormat = []\<rparr>"
  have flags: "flagMode (hookFlags ''img'') = ''webhook''" "\<not> flagShowVersion (hookFlags ''img'')"
      "flagDefaultMemReq (hookFlags ''img'') = ''1''" "flagDefaultMemReqRO (hookFlags ''img'') = ''1''"
      "\<lparr>SidecarImage = flagSidecarImage (hookFlags ''img''), SidecarLogFormat = flagSidecarLogFormat (hookFlags ''img'')\<rparr> = config"
      "flagWebhookPort (hookFlags ''img'') = 22030"
    by (simp_all add: hookFlags_def config_def)
  define s' where "s' = ?s\<lparr>log := [ManagerCreated 22030 (flagWebhookCertDir (hookFlags ''img'')) None, ReadyzAdded None,
      HandlerRegistered ''/inject'' ''img'' [], ManagerStarted 22030]\<rparr>"
  have r: "run_state (main sampleOps bh env quietHook (hookFlags ''img'') Webhook.sampleDefaults) ?s = ((dflt', Finished), s')"
    unfolding main_def flags(3,4) d if_not_P [OF flags(2)]
    by (simp add: flags run_bind runWebhook_quiet config_def s'_def)
  have e: "newEvents ?s s' \<noteq> []" "last (log s') = ManagerStarted 22030" by (simp_all add: newEvents_def s'_def)
  from main_roles [OF r] e r flags show ?thesis by auto
qed

end
