(* ===== verification/Pod_Watch.thy ===== *)
theory Pod_Watch
  imports Cleanup_Proofs
begin

text \<open>
  How the pod mounter is set up and what it watches (\<open>NewPodMounter\<close>, \<open>Start\<close> and
  \<open>periodicCleanup\<close> of \<open>pkg/driver/podmounter.go\<close>): the selector of the informer and of the lists,
  the dispatch of the objects its cache delivers, and the loop of the periodic cleanup, whose
  ticker is a number of ticks. How the API server matches a selector is a parameter with its
  documented meaning as a hypothesis.
\<close>

section \<open>A new mounter\<close>

definition DefaultMountReadyTimeout :: int where
  "DefaultMountReadyTimeout = 90 * int second"

record 'q podMounter =
  mounterConfig :: "'q pmConfig"
  mountReadyTimeout :: int
  mounterBinds :: "(string, string) gomap"
  mounterLocks :: "(string, nat) gomap"

text \<open>The counted locks are given by their counts.\<close>

definition NewPodMounter :: "'q pmConfig \<Rightarrow> int \<Rightarrow> 'q podMounter" where
  "NewPodMounter cfg timeout =
     \<lparr>mounterConfig = cfg,
      mountReadyTimeout = (if timeout \<le> 0 then DefaultMountReadyTimeout else timeout),
      mounterBinds = [], mounterLocks = []\<rparr>"

section \<open>The informer\<close>

definition podSelector :: "string \<Rightarrow> string" where
  "podSelector node = labelApp @ ''='' @ labelAppValue @ '','' @ labelNode @ ''='' @ sanitizeLabelValue node"

text \<open>What the cache delivers: a pod, the last known state of an object whose deletion was
  missed, or something else.\<close>

datatype 'q cacheObj = PodObj "'q pod" | Tombstone "'q cacheObj" | OtherObj

definition onAdd :: "'q cacheObj \<Rightarrow> ('w pm, unit) state" where
  "onAdd obj = (case obj of PodObj pod \<Rightarrow> podAdded pod | _ \<Rightarrow> State_Monad.return ())"

definition onUpdate :: "'q cacheObj \<Rightarrow> 'q cacheObj \<Rightarrow> ('w pm, unit) state" where
  "onUpdate oldObj newObj =
     (case (oldObj, newObj) of (PodObj oldPod, PodObj newPod) \<Rightarrow> handlePodUpdate oldPod newPod
      | _ \<Rightarrow> State_Monad.return ())"

definition onDelete :: "('w, 'q) env \<Rightarrow> 'q pmConfig \<Rightarrow> 'q cacheObj \<Rightarrow> ('w pm, unit) state" where
  "onDelete env cfg obj =
     (case obj of
        PodObj pod \<Rightarrow> handlePodDelete env cfg pod
      | Tombstone inner \<Rightarrow>
          (case inner of PodObj pod \<Rightarrow> handlePodDelete env cfg pod | _ \<Rightarrow> State_Monad.return ())
      | OtherObj \<Rightarrow> State_Monad.return ())"

fun periodicCleanup :: "('w, 'q) env \<Rightarrow> 'q pmConfig \<Rightarrow> nat \<Rightarrow> ('w pm, unit) state" where
  "periodicCleanup env cfg 0 = State_Monad.return ()"
| "periodicCleanup env cfg (Suc n) = do { periodicTick env cfg; periodicCleanup env cfg n }"

section \<open>What is watched\<close>

text \<open>The documented meaning of a selector of two equalities, for words without its punctuation.\<close>

definition selWord :: "string \<Rightarrow> bool" where
  "selWord s \<longleftrightarrow> CHR ''='' \<notin> set s \<and> CHR '','' \<notin> set s"

definition selector_law :: "(string \<Rightarrow> (string \<rightharpoonup> string) \<Rightarrow> bool) \<Rightarrow> bool" where
  "selector_law matches \<longleftrightarrow> (\<forall>k v l w labels. selWord k \<and> selWord v \<and> selWord l \<and> selWord w \<longrightarrow>
     matches (k @ ''='' @ v @ '','' @ l @ ''='' @ w) labels = (labels k = Some v \<and> labels l = Some w))"

lemma selWord_label: "validLabelValue v \<Longrightarrow> selWord v"
  by (auto simp: selWord_def validLabelValue_def list_all_iff labelByte_def isAlphanumeric_def)

lemma selWord_labels: "selWord labelApp" "selWord labelAppValue" "selWord labelNode"
  by (simp_all add: selWord_def labelApp_def labelAppValue_def labelNode_def)

lemma label_distinct: "labelApp \<noteq> labelVolumeID" "labelApp \<noteq> labelNode" "labelVolumeID \<noteq> labelNode"
  by (simp_all add: labelApp_def labelVolumeID_def labelNode_def)

text \<open>
  The mounter sees the pods it makes: a mount pod built on one node matches the selector of
  another's informer, recovery and scan exactly when both node names have the same label value; for
  names that are legal label values this means the same node.
\<close>

theorem watched_pods:
  assumes "selector_law matches"
  shows "(matches (podSelector node) (podLabels (buildMountPod cfg name vid st sid path args res))
      \<longleftrightarrow> sanitizeLabelValue node = sanitizeLabelValue (nodeID cfg))
    \<and> (validLabelValue node \<and> validLabelValue (nodeID cfg) \<longrightarrow>
        (matches (podSelector node) (podLabels (buildMountPod cfg name vid st sid path args res)) \<longleftrightarrow> node = nodeID cfg))"
proof -
  have "matches (podSelector node) labels =
      (labels labelApp = Some labelAppValue \<and> labels labelNode = Some (sanitizeLabelValue node))" for labels
    using assms selWord_labels selWord_label [OF sanitizeLabelValue_valid] unfolding selector_law_def podSelector_def by blast
  then have "matches (podSelector node) (podLabels (buildMountPod cfg name vid st sid path args res))
      \<longleftrightarrow> sanitizeLabelValue node = sanitizeLabelValue (nodeID cfg)"
    using label_distinct by (auto simp: buildMountPod_def)
  then show ?thesis using sanitizeLabelValue_valid_id by auto
qed

text \<open>
  Longer names share a label when their first 63 bytes agree. The stale cleaner lists its objects by
  this label but the live pods by the name itself: the node of one name takes the workloads of the
  other, once they are older than two minutes, for stale, and deletes the mount pod that serves
  them.
\<close>

lemma sanitizeLabelValue_prefix:
  assumes "ascii p" "ascii a" "length p = 63"
  shows "sanitizeLabelValue (p @ a) = sanitizeLabelValue p"
proof -
  have "ascii (p @ a)" using assms by (auto simp: ascii_def list_all_iff)
  then have "map (labelRune \<circ> fst) (runes (p @ a)) = map (labelRune \<circ> fst) (runes p) @ map (labelRune \<circ> of_char) a"
    using runes_ascii [of "p @ a"] runes_ascii [OF assms(1)] by simp
  moreover have "length (map (labelRune \<circ> fst) (runes p)) = 63" using runes_ascii [OF assms(1)] assms(3) by simp
  ultimately show ?thesis unfolding sanitizeLabelValue_def Let_def by (cases a) simp_all
qed

text \<open>One server with one object, of the given node, and one live pod, on that node.\<close>

definition foreignObj :: "string \<Rightarrow> hfObj" where
  "foreignObj node = \<lparr>objName = ''hfm-1'', objNodeLabel = sanitizeLabelValue node, objVersion = 1,
     objSpec = Some [(''mountPodName'', JString ''hf-mount-1''), (''workloads'', JList [workloadEntry ''u1'' ''/t'' 0])],
     objStatus = None\<rparr>"

definition foreignEnv :: "string \<Rightarrow> (unit, nat) env" where
  "foreignEnv node = (quietEnv PodRunning)
     \<lparr>crd := quietCrd
        \<lparr>crdList := (\<lambda>l. State_Monad.return (Inr (filter (\<lambda>obj. objNodeLabel obj = l) [foreignObj node]))),
         crdGet := (\<lambda>_. State_Monad.return (Inr (foreignObj node))), timeNow := State_Monad.return (3600 * second)\<rparr>,
      nodePodList := (\<lambda>n. State_Monad.return (Inr (if n = node then [phasePod PodRunning\<lparr>podUID := ''u1''\<rparr>] else [])))\<rparr>"

lemma stale_entry: "\<not> keepWorkload (\<lambda>_. False) staleAfter (int (3600 * second)) (workloadEntry ''u1'' ''/t'' 0)"
proof -
  have "fourDigitYear 0" by (simp add: fourDigitYear_def civil_0)
  moreover from parseOrZero_Format [OF this] have "parseOrZero (FormatRFC3339 0) \<noteq> zeroTime"
    by (auto simp: zeroTime_def second_def)
  ultimately show ?thesis
    using fresh_workload_kept [of 0 "3600 * second" staleAfter "\<lambda>_. False" "''u1''" "''/t''"]
    by (simp add: staleAfter_def second_def)
qed

theorem foreign_mount_pod_deleted:
  assumes "sanitizeLabelValue node = sanitizeLabelValue other" "node \<noteq> other"
  shows "\<exists>s'. run_state (cleanupStaleCRDs (foreignEnv other) (sampleCfg\<lparr>nodeID := node\<rparr>)) samplePm = ((), s')
    \<and> PodDelete ''hf-mount-1'' \<in> set (log s')
    \<and> fst (run_state (nodePodList (foreignEnv other) other) ()) = Inr [phasePod PodRunning\<lparr>podUID := ''u1''\<rparr>]"
proof -
  let ?env = "foreignEnv other" and ?name = "''hf-mount-1''"
  have env: "crdList (crd ?env) (sanitizeLabelValue node) = State_Monad.return (Inr [foreignObj other])"
      "crdGet (crd ?env) n = State_Monad.return (Inr (foreignObj other))" "timeNow (crd ?env) = State_Monad.return (3600 * second)"
      "crdUpdate (crd ?env) obj = State_Monad.return None"
      "nodePodList ?env node = State_Monad.return (Inr [])" "podGet ?env p = State_Monad.return (Inr (phasePod PodRunning))"
      "podDelete ?env p = State_Monad.return None" for n obj p
    using assms by (simp_all add: foreignEnv_def quietEnv_def quietCrd_def foreignObj_def)
  have "run_state (removeStaleWorkloads (crd ?env) ''hfm-1'' (\<lambda>uid. uid \<in> set []) staleAfter) () = ((0, None), ())"
    using stale_entry
    by (simp add: removeStaleWorkloads_def retryOnConflict_def numeral_eq_Suc run_bind env workloadsOf_def specAt_def setWorkloads_def
        foreignObj_def)
  then have "run_state (cleanupStaleCRDs ?env (sampleCfg\<lparr>nodeID := node\<rparr>)) samplePm = ((), samplePm\<lparr>log :=
      [LivePodsRead (Some []), StaleRemoved ''hfm-1'' (Some 0), PodDelete ?name]\<rparr>)"
    by (simp add: cleanupStaleCRDs_def crd_list_def listLivePodUIDsOnNode_def staleCRD_def Let_def samplePm_def run_bind call_def ask_def
        note_ev_def whenM_def env foreignObj_def specAt_def)
  then show ?thesis by (simp add: foreignEnv_def)
qed

end
