(* ===== verification/Pod_System.thy ===== *)
theory Pod_System
  imports Pod_Watch
begin

text \<open>
  The pod mounter as a whole (\<open>pkg/driver/podmounter.go\<close>): a step relation of everything that
  may run, the requests of the node service, the informer's events, the goroutines these start,
  the ticks of the periodic cleanup, recovery, restarts of the process and arbitrary changes
  outside, and an invariant of all its reachable states. Operations are atomic steps: those on
  one source exclude each other by the source lock (\<open>Source_Locks\<close>), and \<open>binds\<close> is accessed
  under the mutex of the mounter.
\<close>

section \<open>Programs that keep an invariant and log only allowed events\<close>

definition conf ::
  "('e \<Rightarrow> bool) \<Rightarrow> ('d \<Rightarrow> bool) \<Rightarrow> (('d, 'w, 'e) sys, 'a) state \<Rightarrow> ('a \<Rightarrow> bool) \<Rightarrow> bool" where
  "conf C I m Q \<longleftrightarrow> (\<forall>s. I (vars s) \<longrightarrow>
     (case run_state m s of (r, s') \<Rightarrow>
        (\<exists>evs. log s' = log s @ evs \<and> list_all C evs) \<and> I (vars s') \<and> Q r))"

named_theorems conf_intros \<open>backward rules for confinement\<close>

lemma confD:
  assumes "conf C I m Q" "run_state m s = (r, s')" "I (vars s)"
  shows "list_all C (newEvents s s')" "log s' = log s @ newEvents s s'" "I (vars s')" "Q r"
proof -
  have "(\<exists>evs. log s' = log s @ evs \<and> list_all C evs) \<and> I (vars s') \<and> Q r"
    using assms(1) [unfolded conf_def, rule_format, OF assms(3)] assms(2) by simp
  then show "list_all C (newEvents s s')" "log s' = log s @ newEvents s s'" "I (vars s')" "Q r"
    by (auto simp: newEvents_def)
qed

text \<open>Statements that hold for every outside carry over.\<close>

lemma conf_eff:
  fixes m :: "(('d, 'w, 'e) sys, 'a) state"
  assumes "\<And>b. I b \<Longrightarrow> eff m (\<lambda>r b' evs. list_all C evs \<and> I b' \<and> Q r) b"
  shows "conf C I m Q"
  unfolding conf_def
proof (intro allI impI)
  fix s :: "('d, 'w, 'e) sys"
  assume "I (vars s)"
  from assms [OF this, unfolded eff_def, rule_format, of s]
  show "case run_state m s of (r, s') \<Rightarrow> (\<exists>evs. log s' = log s @ evs \<and> list_all C evs) \<and> I (vars s') \<and> Q r"
    by auto
qed

lemma conf_return [conf_intros]: "Q x \<Longrightarrow> conf C I (State_Monad.return x) Q"
  by (simp add: conf_def)

lemma conf_bind [conf_intros]:
  fixes m :: "(('d, 'w, 'e) sys, 'a) state"
  assumes "conf C I m (\<lambda>r. conf C I (f r) Q)"
  shows "conf C I (State_Monad.bind m f) Q"
  unfolding conf_def
proof (intro allI impI)
  fix s :: "('d, 'w, 'e) sys"
  assume i: "I (vars s)"
  obtain r s1 where m: "run_state m s = (r, s1)" by (metis surj_pair)
  obtain r' s2 where f: "run_state (f r) s1 = (r', s2)" by (metis surj_pair)
  note 1 = confD [OF assms m i]
  note 2 = confD [OF 1(4) f 1(3)]
  have "log s2 = log s @ newEvents s s1 @ newEvents s1 s2" using 1(2) 2(2) by simp
  with 1 2 m f show "case run_state (State_Monad.bind m f) s of (r, s') \<Rightarrow>
      (\<exists>evs. log s' = log s @ evs \<and> list_all C evs) \<and> I (vars s') \<and> Q r"
    by (auto simp: run_bind list_all_append intro!: exI [of _ "newEvents s s1 @ newEvents s1 s2"])
qed

lemma conf_ask [conf_intros]: "(\<And>r w w'. run_state m w = (r, w') \<Longrightarrow> Q r) \<Longrightarrow> conf C I (ask m) Q"
  by (auto simp: conf_def ask_def split: prod.splits)

lemma conf_note [conf_intros]: "C ev \<Longrightarrow> Q () \<Longrightarrow> conf C I (note_ev ev) Q"
  by (simp add: conf_def note_ev_def)

lemma conf_call [conf_intros]:
  "(\<And>r w w'. run_state m w = (r, w') \<Longrightarrow> C (ev r)) \<Longrightarrow> (\<And>r w w'. run_state m w = (r, w') \<Longrightarrow> Q r)
     \<Longrightarrow> conf C I (call m ev) Q"
  unfolding call_def by (intro conf_intros) blast+

lemma conf_getVars [conf_intros]: "(\<And>b. I b \<Longrightarrow> Q b) \<Longrightarrow> conf C I getVars Q"
  by (simp add: conf_def getVars_def)

lemma conf_setVars [conf_intros]: "I b \<Longrightarrow> Q () \<Longrightarrow> conf C I (setVars b) Q"
  by (simp add: conf_def setVars_def)

lemma conf_cases [conf_intros]:
  "(c \<Longrightarrow> conf C I m Q) \<Longrightarrow> (\<not> c \<Longrightarrow> conf C I n Q) \<Longrightarrow> conf C I (if c then m else n) Q"
  "(x = None \<Longrightarrow> conf C I m Q) \<Longrightarrow> (\<And>y. x = Some y \<Longrightarrow> conf C I (k y) Q) \<Longrightarrow>
     conf C I (case x of None \<Rightarrow> m | Some y \<Rightarrow> k y) Q"
  "(\<And>e. z = Inl e \<Longrightarrow> conf C I (f e) Q) \<Longrightarrow> (\<And>y. z = Inr y \<Longrightarrow> conf C I (g y) Q) \<Longrightarrow>
     conf C I (case z of Inl e \<Rightarrow> f e | Inr y \<Rightarrow> g y) Q"
  "(\<And>u v. p = (u, v) \<Longrightarrow> conf C I (h u v) Q) \<Longrightarrow> conf C I (case p of (u, v) \<Rightarrow> h u v) Q"
  by (auto split: option.split sum.split prod.split)

lemma conf_whenM [conf_intros]:
  assumes "c \<Longrightarrow> conf C I m (\<lambda>_. Q ())" "\<not> c \<Longrightarrow> Q ()"
  shows "conf C I (whenM c m) Q"
  unfolding whenM_def using assms
  by (auto intro!: conf_bind conf_return simp: conf_def split: prod.splits)

lemma conf_mono: "conf C I m Q \<Longrightarrow> (\<And>r. Q r \<Longrightarrow> R r) \<Longrightarrow> conf C I m R"
  by (fastforce simp: conf_def split: prod.splits)

section \<open>What is the mounter's own\<close>

definition ownSource :: "string \<Rightarrow> bool" where
  "ownSource p \<longleftrightarrow> (\<exists>i. plain_comp i \<and> p = mountBaseDir @ slash # i)"

definition ownPodName :: "string \<Rightarrow> bool" where
  "ownPodName n \<longleftrightarrow> (\<exists>i. plain_comp i \<and> n = mountPodPrefix @ i)"

definition ownCrdName :: "string \<Rightarrow> bool" where
  "ownCrdName n \<longleftrightarrow> (\<exists>i. plain_comp i \<and> n = hfMountName i)"

fun taskSource :: "task \<Rightarrow> string" where
  "taskSource (HealSource p) = p"
| "taskSource (RebindTargets p) = p"
| "taskSource (CleanupSource p) = p"
| "taskSource (LateAdopt p) = p"

text \<open>An event on the mounter's own objects and the given targets only.\<close>

fun confinedTo :: "string set \<Rightarrow> event \<Rightarrow> bool" where
  "confinedTo T (LockSource p) = ownSource p"
| "confinedTo T (UnlockSource p) = ownSource p"
| "confinedTo T (CrdCreate n e) = ownCrdName n"
| "confinedTo T (AddWorkload n uid t e) = (ownCrdName n \<and> t \<in> T)"
| "confinedTo T (RemoveWorkload n t) = (ownCrdName n \<and> t \<in> T)"
| "confinedTo T (UpdateStatus n ph) = ownCrdName n"
| "confinedTo T (CrdDelete n) = ownCrdName n"
| "confinedTo T (PodCreate n e) = ownPodName n"
| "confinedTo T (PodDelete n) = ownPodName n"
| "confinedTo T (Unmounted p e) = (ownSource p \<or> p \<in> T)"
| "confinedTo T (Bound src t e) = (ownSource src \<and> t \<in> T)"
| "confinedTo T (MkdirAll p) = (p \<in> T)"
| "confinedTo T (Removed p e) = (ownSource p \<or> p \<in> T)"
| "confinedTo T (Spawn t) = ownSource (taskSource t)"
| "confinedTo T (RefsRead p refs) = ownSource p"
| "confinedTo T (StaleRemoved n k) = ownCrdName n"
| "confinedTo T _ = True"

definition tableOk :: "string set \<Rightarrow> (string, string) gomap \<Rightarrow> bool" where
  "tableOk T b \<longleftrightarrow> (\<forall>(t, src)\<in>set b. t \<in> T \<and> ownSource src)"

text \<open>
  What the outside must be trusted for: the pods with the driver's labels and the objects of its
  resource are its own, a directory has plain names, and besides itself only targets refer to a
  source in the kernel's table. Nothing is assumed on errors, on contents or on timing.
\<close>

definition ownPod :: "('q, 'x) pod_scheme \<Rightarrow> bool" where
  "ownPod p \<longleftrightarrow> ownPodName (podName p)
     \<and> (lookupStr (podAnnotations p) annotMountPath = [] \<or> ownSource (lookupStr (podAnnotations p) annotMountPath))"

definition ownObj :: "hfObj \<Rightarrow> bool" where
  "ownObj obj \<longleftrightarrow> ownCrdName (objName obj) \<and> ownPodName (asString (specAt (objSpec obj) ''mountPodName''))
     \<and> (asString (specAt (objSpec obj) ''mountPath'') = [] \<or> ownSource (asString (specAt (objSpec obj) ''mountPath'')))"

definition trusted :: "('w, 'q) env \<Rightarrow> string set \<Rightarrow> bool" where
  "trusted env T \<longleftrightarrow>
     (\<forall>l w ps w'. run_state (podList env l) w = (Inr ps, w') \<longrightarrow> list_all ownPod ps)
     \<and> (\<forall>l w os w'. run_state (crdList (crd env) l) w = (Inr os, w') \<longrightarrow> list_all ownObj os)
     \<and> (\<forall>n w spec w'. run_state (crd_get (crd env) n) w = (Inr spec, w') \<longrightarrow>
          (\<forall>x\<in>set (workloadsOf spec). asString (wField x ''targetPath'') \<in> insert [] T))
     \<and> (\<forall>w es w'. run_state (readDirEntries env mountBaseDir) w = (Inr es, w') \<longrightarrow> (\<forall>e\<in>set es. plain_comp (fst e)))
     \<and> (\<forall>src w refs w'. ownSource src \<longrightarrow> run_state (getMountRefs env src) w = (Inr refs, w') \<longrightarrow> set refs \<subseteq> insert src T)"

text \<open>Names of one identifier.\<close>

lemma sourcePath_plain:
  assumes "plain_comp i"
  shows "pathJoin [mountBaseDir, i] = mountBaseDir @ slash # i"
proof -
  have comps: "pathComps mountBaseDir = [''var'', ''lib'', ''hf-csi-driver'', ''mnt'']"
    by (simp add: mountBaseDir_def pathComps_def rooted_def)
  have "rooted mountBaseDir" by (simp add: mountBaseDir_def rooted_def)
  then have "pathJoin [mountBaseDir, i] = slash # Join (pathComps mountBaseDir @ [i]) [slash]"
    by (rule pathJoin_eq) (simp_all add: assms)
  then show ?thesis unfolding comps by (simp add: mountBaseDir_def)
qed

lemma ownSourceD:
  assumes "ownSource p"
  shows "ownPodName (mountPodPrefix @ Base p)" "ownCrdName (hfMountName (Base p))"
    "ownPodName (mountPodPrefix @ mountIDFromSource p)" "ownCrdName (hfMountName (mountIDFromSource p))"
proof -
  obtain i where "plain_comp i" "p = mountBaseDir @ slash # i" using assms by (auto simp: ownSource_def)
  then have "Base p = i" using Base_append [of i mountBaseDir] by (simp add: plain_comp_def)
  with \<open>plain_comp i\<close> show "ownPodName (mountPodPrefix @ Base p)" "ownCrdName (hfMountName (Base p))"
      "ownPodName (mountPodPrefix @ mountIDFromSource p)" "ownCrdName (hfMountName (mountIDFromSource p))"
    by (auto simp: ownPodName_def ownCrdName_def mountIDFromSource_def)
qed

lemma ownNames [simp]:
  "plain_comp i \<Longrightarrow> ownSource (pathJoin [mountBaseDir, i])" "ownSource (pathJoin [mountBaseDir, mountID t])"
  "ownPodName (mountPodPrefix @ mountID t)" "ownCrdName (hfMountName (mountID t))"
  using mountID_plain by (auto simp: ownSource_def ownPodName_def ownCrdName_def sourcePath_plain)

lemma set_put_key: "x \<in> set (put_key k v m) \<Longrightarrow> x = (k, v) \<or> x \<in> set m"
  by (induction m) (auto split: if_splits)

lemma tableOk_simps:
  "tableOk T []" "tableOk T b \<Longrightarrow> tableOk T (delete_key t b)" "tableOk T b \<Longrightarrow> tableOk T (fold delete_key ts b)"
  "tableOk T b \<Longrightarrow> t \<in> T \<Longrightarrow> ownSource src \<Longrightarrow> tableOk T (put_key t src b)"
  "tableOk T b \<Longrightarrow> map_of b t = Some src \<Longrightarrow> t \<in> T \<and> ownSource src"
  by (auto simp: tableOk_def delete_key_filter fold_delete dest: map_of_SomeD dest!: set_put_key)

lemma tableOk_folds:
  assumes "tableOk T b" "ownSource src"
  shows "set refs \<subseteq> T \<Longrightarrow> tableOk T (fold (\<lambda>ref. put_key ref src) refs b)"
    "set refs \<subseteq> insert src T \<Longrightarrow> tableOk T (fst (foldl (adoptRef src) (b, xs) refs))
       \<and> set (snd (foldl (adoptRef src) (b, xs) refs)) \<subseteq> set xs \<union> T"
proof -
  show "set refs \<subseteq> T \<Longrightarrow> tableOk T (fold (\<lambda>ref. put_key ref src) refs b)"
    using assms by (induction refs arbitrary: b) (simp_all add: tableOk_simps)
  show "set refs \<subseteq> insert src T \<Longrightarrow> tableOk T (fst (foldl (adoptRef src) (b, xs) refs))
       \<and> set (snd (foldl (adoptRef src) (b, xs) refs)) \<subseteq> set xs \<union> T"
    using assms
  proof (induction refs arbitrary: b xs)
    case (Cons ref refs)
    show ?case
    proof (cases "ref = src \<or> map_of b ref \<noteq> None")
      case True
      with Cons show ?thesis by (auto simp: adoptRef_def)
    next
      case False
      with Cons.prems have "ref \<in> T" by simp
      with False Cons.IH [of "put_key ref src b" "xs @ [ref]"] Cons.prems show ?thesis
        by (auto simp: adoptRef_def tableOk_simps)
    qed
  qed simp
qed

section \<open>Every operation is confined\<close>

abbreviation cf :: "string set \<Rightarrow> ('w pm, 'a) state \<Rightarrow> ('a \<Rightarrow> bool) \<Rightarrow> bool" where
  "cf T \<equiv> conf (confinedTo T) (tableOk T)"

lemma cf_waits [conf_intros]:
  "(\<And>r. Q1 r) \<Longrightarrow> cf T (waitForPodRunning env name n) Q1"
  "(\<And>r. Q2 r) \<Longrightarrow> cf T (waitForMount env path name n) Q2"
  "(\<And>r. Q3 r) \<Longrightarrow> cf T (waitForPodDeletion env name n) Q3"
  "(\<And>r. Q4 r) \<Longrightarrow> cf T (pollUntilMounted env path n) Q4"
  "(\<And>r. Q5 r) \<Longrightarrow> cf T (CheckHealth env t) Q5"
  by (intro conf_eff eff_intros; simp; fail | (intro conf_eff; unfold CheckHealth_def Let_def; intro eff_intros; simp))+

lemma popped_confined: "popped p n evs \<Longrightarrow> ownSource p \<or> p \<in> T \<Longrightarrow> list_all (confinedTo T) evs"
  by (auto simp: list_all_iff dest!: set_popped)

lemma cf_unmountAll [conf_intros]: "ownSource p \<or> p \<in> T \<Longrightarrow> Q () \<Longrightarrow> cf T (unmountAll env p) Q"
  by (intro conf_eff eff_intros) (simp add: popped_confined)

lemma cf_stackBind [conf_intros]:
  assumes "ownSource src" "t \<in> T" "\<And>r. Q r"
  shows "cf T (stackBind env src t) Q"
  unfolding stackBind_def by (intro conf_intros) (use assms in auto)

lemma cf_ensurePod [conf_intros]:
  assumes "ownPodName name" "\<And>r. Q r"
  shows "cf T (ensurePod env name pod) Q"
  unfolding ensurePod_def by (intro conf_intros) (use assms in auto)

lemma cf_mountCleanup [conf_intros]:
  assumes "ownPodName name" "ownCrdName c" "Q ()"
  shows "cf T (mountCleanup env name c cl) Q"
  unfolding mountCleanup_def by (intro conf_intros) (use assms in auto)

lemma cf_mountBody [conf_intros]:
  assumes "ownPodName name" "ownCrdName c" "ownSource src" "t \<in> T" "\<And>r. Q r"
  shows "cf T (mountBody env pod name c src t) Q"
  unfolding mountBody_def by (intro conf_intros) (use assms in \<open>auto simp: tableOk_simps\<close>)

lemma cf_Mount:
  assumes "t \<in> T"
  shows "cf T (Mount env cfg st sid t opts) (\<lambda>_. True)"
  unfolding Mount_def Let_def by (intro conf_intros) (use assms in auto)

lemma cf_Unmount:
  assumes "t \<in> T"
  shows "cf T (Unmount env t) (\<lambda>_. True)"
proof -
  have "cf T (unmountLocked env t) (\<lambda>_. True)"
    unfolding unmountLocked_def Let_def
    by (intro conf_intros) (use assms in \<open>auto simp: tableOk_simps ownSourceD dest: tableOk_simps(5)\<close>)
  note [conf_intros] = conf_mono [OF this]
  show ?thesis
    unfolding Unmount_def Let_def
    by (intro conf_intros) (auto dest: tableOk_simps(5) split: option.splits)
qed

text \<open>The background work asks the outside what to work on.\<close>

lemma trustedD:
  assumes "trusted env T"
  shows "run_state (podList env l) w = (Inr ps, w') \<Longrightarrow> list_all ownPod ps"
    "run_state (crdList (crd env) l) w = (Inr os, w') \<Longrightarrow> list_all ownObj os"
    "run_state (crd_get (crd env) n) w = (Inr spec, w') \<Longrightarrow> x \<in> set (workloadsOf spec) \<Longrightarrow>
       asString (wField x ''targetPath'') \<in> insert [] T"
    "run_state (readDirEntries env mountBaseDir) w = (Inr es, w') \<Longrightarrow> e \<in> set es \<Longrightarrow> plain_comp (fst e)"
    "ownSource src \<Longrightarrow> run_state (getMountRefs env src) w = (Inr refs, w') \<Longrightarrow> set refs \<subseteq> insert src T"
  using assms unfolding trusted_def by - (elim conjE, metis)+

lemma cf_dropRefs:
  assumes "ownSource src" "set refs \<subseteq> insert src T" "\<And>r. Q r"
  shows "cf T (dropRefs env live refs) Q"
  using assms(2,3)
proof (induction refs arbitrary: Q)
  case (Cons ref refs)
  then have "ownSource ref \<or> ref \<in> T" using assms(1) by auto
  then show ?case
    unfolding dropRefs.simps Let_def
    by (intro conf_intros Cons.IH) (use Cons.prems in \<open>auto simp: tableOk_simps intro: conf_return\<close>)
qed (auto intro: conf_return)

lemma cf_unmountTargets: "set ts \<subseteq> T \<Longrightarrow> Q () \<Longrightarrow> cf T (unmountTargets env ts) Q"
  by (induction ts) (auto intro!: conf_intros)

lemma cf_releaseSource: "ownSource src \<Longrightarrow> Q () \<Longrightarrow> cf T (releaseSource env src) Q"
  unfolding releaseSource_def Let_def
  by (intro conf_intros cf_unmountTargets) (auto simp: tableOk_simps set_targetsOfSource, auto simp: tableOk_def)

lemma cf_cleanupSource [conf_intros]:
  assumes "trusted env T" "ownSource src" "Q ()"
  shows "cf T (cleanupSource env cfg src) Q"
  unfolding cleanupSource_def dropDeadPodRefs_def listLivePodUIDsOnNode_def Let_def
  by (intro conf_intros cf_dropRefs [OF assms(2)] cf_releaseSource)
     (use assms trustedD(5) [OF assms(1,2)] in auto)

lemma cf_rebindLoop:
  assumes "ownSource src" "\<And>r. Q r"
  shows "cf T (rebindLoop env src ts) Q"
  by (induction ts) (auto intro!: conf_intros assms dest: tableOk_simps(5))

lemma cf_rebindTargets [conf_intros]:
  assumes "ownSource src" "\<And>r. Q r"
  shows "cf T (rebindTargets env src) Q"
  unfolding rebindTargets_def by (intro conf_intros cf_rebindLoop) (use assms in auto)

lemma cf_tryHealSource:
  assumes "ownSource src"
  shows "cf T (tryHealSource env cfg src) (\<lambda>_. True)"
  unfolding tryHealSource_def recreatePod_def Let_def
  by (intro conf_intros) (use assms ownSourceD [OF assms] in auto)

lemma cf_registerRestored:
  assumes "ownCrdName c" "set refs \<subseteq> T" "Q ()"
  shows "cf T (registerRestored env c refs) Q"
  using assms(2,3) by (induction refs) (auto simp: Let_def intro!: conf_intros assms(1))

lemma cf_lateAdopt:
  assumes "trusted env T" "ownSource src"
  shows "cf T (lateAdopt env src) (\<lambda>_. True)"
proof -
  have "tableOk T (fst (foldl (adoptRef src) (b, []) refs)) \<and> set (snd (foldl (adoptRef src) (b, []) refs)) \<subseteq> T"
    if "tableOk T b" "run_state (getMountRefs env src) w = (Inr refs, w')" for b refs w w'
    using tableOk_folds(2) [OF that(1) assms(2), of refs "[]"] trustedD(5) [OF assms(1,2) that(2)] by simp
  then show ?thesis
    unfolding lateAdopt_def Let_def
    by (intro conf_intros cf_registerRestored) (use assms(2) ownSourceD(2) [OF assms(2)] in auto)
qed

lemma cf_retryRefs:
  assumes "trusted env T" "ownSource src" "\<And>refs. set refs \<subseteq> insert src T \<Longrightarrow> Q refs"
  shows "cf T (retryRefs env src n) Q"
  using trustedD(5) [OF assms(1,2)] assms(2,3) by (induction n) (auto intro!: conf_intros)

lemma cf_crdTargets:
  assumes "\<And>w. w \<in> set ws \<Longrightarrow> asString (wField w ''targetPath'') \<in> insert [] T" "\<And>ts. set ts \<subseteq> T \<Longrightarrow> Q ts"
  shows "cf T (crdTargets env ws) Q"
  using assms
proof (induction ws arbitrary: Q)
  case (Cons w ws)
  then show ?case
    unfolding crdTargets.simps Let_def
    by (intro conf_intros Cons.IH) (use Cons.prems(1) [of w] in auto)
qed (auto intro: conf_return)

lemma cf_adoptSource [conf_intros]:
  assumes "trusted env T" "ownSource src" "Q ()"
  shows "cf T (adoptSource env src) Q"
proof -
  have "tableOk T (fold (\<lambda>ref. put_key ref src) (filter (\<lambda>ref. ref \<noteq> src) refs @ ts) b)"
    if "tableOk T b" "set refs \<subseteq> insert src T" "set ts \<subseteq> T" for b refs ts
    by (rule tableOk_folds(1) [OF that(1) assms(2)]) (use that in auto)
  from this this [of _ _ "[]"] show ?thesis
    unfolding adoptSource_def
    by (intro conf_intros cf_retryRefs [OF assms(1,2)] cf_crdTargets)
       (use assms(2,3) trustedD(3) [OF assms(1)] in auto)
qed

lemma cf_recoverPod:
  assumes "trusted env T" "ownPod p" "Q ()"
  shows "cf T (recoverPod env p) Q"
  unfolding recoverPod_def Let_def
  by (intro conf_intros) (use assms in \<open>auto simp: ownPod_def\<close>)

lemma cf_Recover:
  assumes "trusted env T"
  shows "cf T (Recover env cfg) (\<lambda>_. True)"
proof -
  have "cf T (recoverPods env ps) Q" if "list_all ownPod ps" "Q ()" for ps Q
    using that by (induction ps) (auto intro!: conf_intros cf_recoverPod [OF assms])
  note pods = this
  show ?thesis
    unfolding Recover_def by (intro conf_intros pods) (use trustedD(1) [OF assms] in auto)
qed

lemma cf_scanEntries:
  assumes "trusted env T" "\<And>e. e \<in> set es \<Longrightarrow> plain_comp (fst e)" "Q ()"
  shows "cf T (scanEntries env cfg pods es) Q"
  using assms(2,3)
proof (induction es arbitrary: Q)
  case (Cons e es)
  have "cf T (scanEntry env cfg pods e) Q'" if "Q' ()" for Q'
    unfolding scanEntry_def Let_def
    by (intro conf_intros) (use that assms(1) Cons.prems(1) [of e] in auto)
  then show ?case unfolding scanEntries.simps by (intro conf_intros) (use Cons in auto)
qed (auto intro: conf_return)

lemma cf_staleCRDs:
  assumes "list_all ownObj os" "Q ()"
  shows "cf T (staleCRDs env live os) Q"
  using assms
proof (induction os arbitrary: Q)
  case (Cons obj os)
  have "cf T (staleCRD env live obj) Q'" if "Q' ()" for Q'
    unfolding staleCRD_def Let_def
    by (intro conf_intros) (use that Cons.prems(1) in \<open>auto simp: ownObj_def\<close>)
  then show ?case unfolding staleCRDs.simps by (intro conf_intros) (use Cons in auto)
qed (auto intro: conf_return)

lemma cf_periodicTick:
  assumes "trusted env T"
  shows "cf T (periodicTick env cfg) (\<lambda>_. True)"
proof -
  have "cf T (runCleanupScan env cfg) Q" if "Q ()" for Q
    unfolding runCleanupScan_def
    by (intro conf_intros cf_scanEntries [OF assms]) (use that trustedD(4) [OF assms] in auto)
  moreover have "cf T (cleanupStaleCRDs env cfg) Q" if "Q ()" for Q
    unfolding cleanupStaleCRDs_def crd_list_def listLivePodUIDsOnNode_def Let_def
    by (intro conf_intros cf_staleCRDs) (use that trustedD(2) [OF assms] in auto)
  ultimately show ?thesis unfolding periodicTick_def by (intro conf_intros) auto
qed

section \<open>The system\<close>

text \<open>Everything that is called or started; a pod event carries what the cache delivers.\<close>

datatype 'q operation =
    MountOp string string string "'q MountOptions"
  | UnmountOp string
  | HealthOp string
  | AddEvent "'q cacheObj"
  | UpdateEvent "'q cacheObj" "'q cacheObj"
  | DeleteEvent "'q cacheObj"
  | CleanupTick
  | RecoverOp

definition runTask :: "('w, 'q) env \<Rightarrow> 'q pmConfig \<Rightarrow> task \<Rightarrow> ('w pm, unit) state" where
  "runTask env cfg t =
     (case t of HealSource p \<Rightarrow> tryHealSource env cfg p | RebindTargets p \<Rightarrow> rebindTargets env p
      | CleanupSource p \<Rightarrow> cleanupSource env cfg p | LateAdopt p \<Rightarrow> lateAdopt env p)"

definition discard :: "('s, 'a) state \<Rightarrow> ('s, unit) state" where
  "discard m = do { _ \<leftarrow> m; State_Monad.return () }"

definition runOp :: "('w, 'q) env \<Rightarrow> 'q pmConfig \<Rightarrow> 'q operation \<Rightarrow> ('w pm, unit) state" where
  "runOp env cfg op =
     (case op of
        MountOp st sid t opts \<Rightarrow> discard (Mount env cfg st sid t opts)
      | UnmountOp t \<Rightarrow> discard (Unmount env t)
      | HealthOp t \<Rightarrow> discard (CheckHealth env t)
      | AddEvent obj \<Rightarrow> onAdd obj
      | UpdateEvent oldObj newObj \<Rightarrow> onUpdate oldObj newObj
      | DeleteEvent obj \<Rightarrow> onDelete env cfg obj
      | CleanupTick \<Rightarrow> periodicTick env cfg
      | RecoverOp \<Rightarrow> discard (Recover env cfg))"

text \<open>The requests are for the given targets, and the informer delivers pods of the driver.\<close>

fun ownDelivered :: "'q cacheObj \<Rightarrow> bool" where
  "ownDelivered (PodObj p) = ownPod p"
| "ownDelivered (Tombstone obj) = ownDelivered obj"
| "ownDelivered OtherObj = True"

definition allowed :: "string set \<Rightarrow> 'q operation \<Rightarrow> bool" where
  "allowed T op =
     (case op of
        MountOp st sid t opts \<Rightarrow> t \<in> T
      | UnmountOp t \<Rightarrow> t \<in> T
      | AddEvent obj \<Rightarrow> ownDelivered obj
      | UpdateEvent oldObj newObj \<Rightarrow> ownDelivered newObj
      | DeleteEvent obj \<Rightarrow> ownDelivered obj
      | _ \<Rightarrow> True)"

definition spawned :: "event list \<Rightarrow> task list" where
  "spawned evs = List.map_filter (\<lambda>ev. case ev of Spawn t \<Rightarrow> Some t | _ \<Rightarrow> None) evs"

record 'w pmSystem =
  pmState :: "'w pm"
  tasks :: "task list"

inductive pmStep :: "('w, 'q) env \<Rightarrow> 'q pmConfig \<Rightarrow> string set \<Rightarrow> 'w pmSystem \<Rightarrow> 'w pmSystem \<Rightarrow> bool"
  for env cfg T where
  operation: "allowed T op \<Longrightarrow> run_state (runOp env cfg op) (pmState x) = (u, s') \<Longrightarrow>
    pmStep env cfg T x \<lparr>pmState = s', tasks = tasks x @ spawned (newEvents (pmState x) s')\<rparr>"
| task: "t \<in> set (tasks x) \<Longrightarrow> run_state (runTask env cfg t) (pmState x) = (u, s') \<Longrightarrow>
    pmStep env cfg T x \<lparr>pmState = s', tasks = remove1 t (tasks x) @ spawned (newEvents (pmState x) s')\<rparr>"
| outside: "pmStep env cfg T x (x\<lparr>pmState := (pmState x)\<lparr>world := w\<rparr>\<rparr>)"
| restart: "pmStep env cfg T x
    (x\<lparr>pmState := (pmState x)\<lparr>vars := mounterBinds (NewPodMounter cfg timeout)\<rparr>, tasks := []\<rparr>)"

definition initialSystem :: "'q pmConfig \<Rightarrow> 'w \<Rightarrow> 'w pmSystem" where
  "initialSystem cfg w = \<lparr>pmState = \<lparr>vars = mounterBinds (NewPodMounter cfg 0), world = w, log = []\<rparr>, tasks = []\<rparr>"

definition pmReachable :: "('w, 'q) env \<Rightarrow> 'q pmConfig \<Rightarrow> string set \<Rightarrow> 'w pmSystem \<Rightarrow> bool" where
  "pmReachable env cfg T x \<longleftrightarrow> (\<exists>w. (pmStep env cfg T)\<^sup>*\<^sup>* (initialSystem cfg w) x)"

text \<open>The invariant, and every step keeps it.\<close>

definition pmInv :: "string set \<Rightarrow> 'w pmSystem \<Rightarrow> bool" where
  "pmInv T x \<longleftrightarrow> tableOk T (binds (pmState x)) \<and> list_all (confinedTo T) (log (pmState x))
     \<and> list_all (\<lambda>t. ownSource (taskSource t)) (tasks x)"

lemma cf_runTask: "trusted env T \<Longrightarrow> ownSource (taskSource t) \<Longrightarrow> cf T (runTask env cfg t) (\<lambda>_. True)"
  by (cases t) (auto simp: runTask_def intro: cf_tryHealSource cf_rebindTargets cf_cleanupSource cf_lateAdopt)

lemma cf_discard: "cf T m (\<lambda>_. True) \<Longrightarrow> cf T (discard m) (\<lambda>_. True)"
  unfolding discard_def by (intro conf_intros) (auto elim!: conf_mono intro: conf_return)

lemma cf_informer:
  assumes "trusted env T"
  shows "ownDelivered obj \<Longrightarrow> cf T (onAdd obj) (\<lambda>_. True)" "ownDelivered obj \<Longrightarrow> cf T (onUpdate oldObj obj) (\<lambda>_. True)"
    "ownDelivered obj \<Longrightarrow> cf T (onDelete env cfg obj) (\<lambda>_. True)"
proof -
  have add: "cf T (podAdded p) (\<lambda>_. True)" if "ownPod p" for p :: "'b pod"
    unfolding podAdded_def Let_def by (intro conf_intros) (use that in \<open>auto simp: ownPod_def\<close>)
  have upd: "cf T (handlePodUpdate q p) (\<lambda>_. True)" if "ownPod p" for p q :: "'b pod"
    unfolding handlePodUpdate_def Let_def by (intro conf_intros) (use that in \<open>auto simp: ownPod_def\<close>)
  have del: "cf T (handlePodDelete env cfg p) (\<lambda>_. True)" if "ownPod p" for p :: "'b pod"
    unfolding handlePodDelete_def Let_def by (intro conf_intros) (use that assms in \<open>auto simp: ownPod_def\<close>)
  show "ownDelivered obj \<Longrightarrow> cf T (onAdd obj) (\<lambda>_. True)" "ownDelivered obj \<Longrightarrow> cf T (onUpdate oldObj obj) (\<lambda>_. True)"
    "ownDelivered obj \<Longrightarrow> cf T (onDelete env cfg obj) (\<lambda>_. True)"
    by (auto simp: onAdd_def onUpdate_def onDelete_def split: cacheObj.splits intro: add upd del conf_return)
qed

lemma cf_runOp: "trusted env T \<Longrightarrow> allowed T op \<Longrightarrow> cf T (runOp env cfg op) (\<lambda>_. True)"
  by (cases op)
     (auto simp: runOp_def allowed_def intro: cf_discard cf_Mount cf_Unmount cf_waits cf_informer cf_periodicTick cf_Recover)

lemma spawned_own: "list_all (confinedTo T) evs \<Longrightarrow> list_all (\<lambda>t. ownSource (taskSource t)) (spawned evs)"
  by (induction evs) (auto simp: spawned_def List.map_filter_def split: event.splits)

lemma pmInv_run:
  assumes "cf T m (\<lambda>_. True)" "run_state m (pmState x) = (u, s')" "pmInv T x" "set ts \<subseteq> set (tasks x)"
  shows "pmInv T \<lparr>pmState = s', tasks = ts @ spawned (newEvents (pmState x) s')\<rparr>"
proof -
  have "tableOk T (vars (pmState x))" using assms(3) by (simp add: pmInv_def)
  from confD [OF assms(1,2) this] assms(3,4) spawned_own show ?thesis
    by (auto simp: pmInv_def list_all_iff subset_iff)
qed

lemma pmInv_step:
  assumes "pmStep env cfg T x y" "trusted env T" "pmInv T x"
  shows "pmInv T y"
  using assms
proof (induction rule: pmStep.induct)
  case (operation op x u s')
  then show ?case using pmInv_run [OF cf_runOp operation(2)] by blast
next
  case (task t x u s')
  then have "ownSource (taskSource t)" by (auto simp: pmInv_def list_all_iff)
  show ?case by (rule pmInv_run [OF cf_runTask [OF task(3) \<open>ownSource (taskSource t)\<close>] task(2,4) set_remove1_subset])
next
  case (outside x w)
  then show ?case by (simp add: pmInv_def)
next
  case (restart x timeout)
  then show ?case by (simp add: pmInv_def NewPodMounter_def tableOk_simps)
qed

lemma pmInv_reachable:
  assumes "trusted env T" "pmReachable env cfg T x"
  shows "pmInv T x"
proof -
  obtain w where "(pmStep env cfg T)\<^sup>*\<^sup>* (initialSystem cfg w) x" using assms(2) by (auto simp: pmReachable_def)
  then show ?thesis
  proof (induction rule: rtranclp_induct)
    case base
    show ?case by (simp add: initialSystem_def pmInv_def NewPodMounter_def tableOk_simps)
  next
    case (step y z)
    show ?case by (rule pmInv_step [OF step(2) assms(1) step(3)])
  qed
qed

text \<open>
  (C11) The pod mounter is confined. In every state that requests, informer events, the goroutines
  these start, cleanup ticks, recovery, restarts and changes outside can reach in any order, the
  table binds only known targets and only to directories directly below its mount base, every
  pending goroutine is for such a directory, and so is every effect so far: it creates and deletes
  only pods \<open>hf-mount-<id>\<close> and objects \<open>hfm-<id>\<close>, binds only from its own sources onto known
  targets, and unmounts or removes nothing but its own sources and known targets. Known are the
  targets of requests and what the kernel or the objects report for its sources.
\<close>

theorem pod_mounter_confined:
  assumes "trusted env T" "pmReachable env cfg T x"
  shows "(\<forall>(t, src)\<in>set (binds (pmState x)). t \<in> T \<and> ownSource src)
    \<and> (\<forall>t\<in>set (tasks x). ownSource (taskSource t))
    \<and> (\<forall>ev\<in>set (log (pmState x)). confinedTo T ev)"
  using pmInv_reachable [OF assms] by (simp add: pmInv_def tableOk_def list_all_iff)

section \<open>Instances\<close>

text \<open>A node with one running mount pod, whose source has one bind in the kernel, after a restart.\<close>

definition restartedPod :: "nat pod" where
  "restartedPod = phasePod PodRunning\<lparr>podName := mountPodPrefix @ ''v1'', podAnnotations := [annotMountPath \<mapsto> sampleSource]\<rparr>"

definition restartedEnv :: "(unit, nat) env" where
  "restartedEnv = (nodeEnv [] (Inr [restartedPod]) (Inr []))
     \<lparr>getMountRefs := (\<lambda>src. State_Monad.return (Inr (if src = sampleSource then [sampleSource, sampleTarget] else [])))\<rparr>"

lemma restartedEnv_sel:
  "podList restartedEnv l = State_Monad.return (Inr [restartedPod])"
  "getMountRefs restartedEnv src = State_Monad.return (Inr (if src = sampleSource then [sampleSource, sampleTarget] else []))"
  "readDirEntries restartedEnv p = State_Monad.return (Inr [(''v1'', True)])"
  "isMountPoint restartedEnv p = State_Monad.return (True, None)" "crd restartedEnv = quietCrd"
  by (simp_all add: restartedEnv_def nodeEnv_sel)

lemma sampleSource_own: "ownSource sampleSource" "plain_comp ''v1''"
proof -
  show "plain_comp ''v1''" by (simp add: plain_comp_def)
  then show "ownSource sampleSource" using sampleSource_join ownNames(1) [of "''v1''"] by simp
qed

lemma restarted_annot: "lookupStr (podAnnotations restartedPod) annotMountPath = sampleSource"
  by (simp add: restartedPod_def lookupStr_def)

lemma restarted_trusted: "trusted restartedEnv {sampleTarget}"
proof -
  have "ownPodName (mountPodPrefix @ ''v1'')" using sampleSource_own(2) by (auto simp: ownPodName_def)
  then have "ownPod restartedPod"
    using sampleSource_own restarted_annot by (simp add: ownPod_def restartedPod_def)
  moreover have "crdList quietCrd l = State_Monad.return (Inr [])" "crd_get quietCrd n = State_Monad.return (Inr (objSpec sampleObj))" for l n
    by (simp_all add: quietCrd_def crd_get_def)
  moreover have "workloadsOf (objSpec sampleObj) = []" by (simp add: sampleObj_def workloadsOf_def specAt_def)
  ultimately show ?thesis using sampleSource_own(2) by (auto simp: trusted_def restartedEnv_sel)
qed

lemma restarted_recovers:
  "run_state (runOp restartedEnv sampleCfg RecoverOp) (pmState (initialSystem sampleCfg ())) =
     ((), \<lparr>vars = [(sampleTarget, sampleSource)], world = (),
        log = [RefsRead sampleSource (Some [sampleSource, sampleTarget]), Spawn (RebindTargets sampleSource)]\<rparr>)"
proof -
  have pod: "sampleSource \<noteq> []" "\<not> podDeletionTimestamp restartedPod"
    by (simp_all add: sampleSource_def restartedPod_def phasePod_def)
  have spec: "crd_get quietCrd n = State_Monad.return (Inr (objSpec sampleObj))" "workloadsOf (objSpec sampleObj) = []" for n
    by (simp_all add: quietCrd_def crd_get_def sampleObj_def workloadsOf_def specAt_def)
  show ?thesis
    by (simp add: runOp_def discard_def Recover_def recoverPod_def Let_def restarted_annot pod adoptSource_def spec
        initialSystem_def NewPodMounter_def restartedEnv_sel numeral_eq_Suc sample_distinct
        run_bind call_def ask_def note_ev_def getVars_def setVars_def)
qed

theorem pod_mounter_confined_witness:
  "\<exists>x :: unit pmSystem. pmReachable restartedEnv sampleCfg {sampleTarget} x \<and> binds (pmState x) = [(sampleTarget, sampleSource)]
     \<and> tasks x = [RebindTargets sampleSource] \<and> ownSource sampleSource"
proof -
  let ?i = "initialSystem sampleCfg ()"
  define s' :: "unit pm" where "s' = \<lparr>vars = [(sampleTarget, sampleSource)], world = (),
     log = [RefsRead sampleSource (Some [sampleSource, sampleTarget]), Spawn (RebindTargets sampleSource)]\<rparr>"
  have "pmStep restartedEnv sampleCfg {sampleTarget} ?i \<lparr>pmState = s', tasks = tasks ?i @ spawned (newEvents (pmState ?i) s')\<rparr>"
    by (rule pmStep.operation [of _ RecoverOp]) (simp_all add: allowed_def restarted_recovers s'_def)
  moreover have "tasks ?i @ spawned (newEvents (pmState ?i) s') = [RebindTargets sampleSource]"
    by (simp add: initialSystem_def newEvents_def s'_def spawned_def List.map_filter_def)
  ultimately have "pmReachable restartedEnv sampleCfg {sampleTarget} \<lparr>pmState = s', tasks = [RebindTargets sampleSource]\<rparr>"
    unfolding pmReachable_def by (metis r_into_rtranclp)
  from pod_mounter_confined [OF restarted_trusted this] this show ?thesis by (auto simp: s'_def)
qed

end
