(* ===== verification/World_Order.thy ===== *)
theory World_Order
  imports HFMount
begin

text \<open>
  What a call does to the outside, up to a preorder on its states: progress that is not lost, or a
  part of it that stays as it is. The calls of the HFMount client (\<open>pkg/driver/hfmount.go\<close>) respect
  every order that the six requests they are made of respect.
\<close>

locale world_order =
  fixes R :: "'w \<Rightarrow> 'w \<Rightarrow> bool"
  assumes refl: "R w w" and trans: "R w w' \<Longrightarrow> R w' w'' \<Longrightarrow> R w w''"
begin

definition stable :: "('w, 'a) state \<Rightarrow> bool" where
  "stable m \<longleftrightarrow> (\<forall>w. R w (snd (run_state m w)))"

lemma stableD: "stable m \<Longrightarrow> run_state m w = (r, w') \<Longrightarrow> R w w'"
  unfolding stable_def by (metis snd_conv)

lemma stable_return: "stable (State_Monad.return x)"
  by (simp add: stable_def refl)

lemma stable_bind: "stable m \<Longrightarrow> (\<And>x. stable (f x)) \<Longrightarrow> stable (State_Monad.bind m f)"
  unfolding stable_def by (auto simp: run_bind split: prod.splits) (metis trans snd_conv)

lemma stable_cases:
  "stable m \<Longrightarrow> stable n \<Longrightarrow> stable (if c then m else n)"
  "(\<And>a. stable (f a)) \<Longrightarrow> (\<And>b. stable (g b)) \<Longrightarrow> stable (case z of Inl a \<Rightarrow> f a | Inr b \<Rightarrow> g b)"
  "stable m \<Longrightarrow> (\<And>b. stable (h b)) \<Longrightarrow> stable (case x of None \<Rightarrow> m | Some b \<Rightarrow> h b)"
  "stable m \<Longrightarrow> stable n \<Longrightarrow> (\<And>b. stable (k b)) \<Longrightarrow>
     stable (case y of Unchanged \<Rightarrow> m | Changed b \<Rightarrow> k b | NilWrite \<Rightarrow> n)"
  by (auto split: sum.split option.split mutation.split)

lemmas stable_intros = stable_return stable_bind stable_cases

text \<open>The client of the custom resource.\<close>

definition stableCrd :: "'w crdApi \<Rightarrow> bool" where
  "stableCrd api \<longleftrightarrow> (\<forall>obj. stable (crdCreate api obj)) \<and> (\<forall>n. stable (crdGet api n)) \<and> (\<forall>obj. stable (crdUpdate api obj))
     \<and> (\<forall>obj. stable (crdUpdateStatus api obj)) \<and> (\<forall>n. stable (crdDelete api n)) \<and> stable (timeNow api)"

lemma stable_retryLoop:
  assumes "stableCrd api" "\<And>spec. stable (mutate spec)"
  shows "stable (retryLoop api name mutate n c)"
proof (induction n arbitrary: c)
  case (Suc n)
  show ?case
    unfolding retryLoop.simps
    by (intro stable_intros assms(2) Suc) (use assms(1) in \<open>auto simp: stableCrd_def\<close>)
qed (simp add: stable_return)

lemma stable_client:
  assumes "stableCrd api"
  shows "stable (crd_create ops api n spec)" "stable (crd_get api n)" "stable (crd_updateStatus api n ph msg)"
    "stable (crd_delete api n)" "stable (addWorkload api n uid t)" "stable (removeWorkload api n t)"
    "stable (removeStaleWorkloads api n live thr)"
proof -
  note six = assms [unfolded stableCrd_def]
  show "stable (crd_create ops api n spec)" "stable (crd_get api n)" "stable (crd_updateStatus api n ph msg)" "stable (crd_delete api n)"
    unfolding crd_create_def crd_get_def crd_updateStatus_def crd_delete_def using six
    by (auto intro!: stable_intros)
  show "stable (addWorkload api n uid t)" "stable (removeWorkload api n t)" "stable (removeStaleWorkloads api n live thr)"
    unfolding addWorkload_def removeWorkload_def removeStaleWorkloads_def retryOnConflict_def Let_def using six
    by (auto intro!: stable_intros stable_retryLoop [OF assms])
qed

end

end
