(* ===== verification/Mount_Liveness.thy ===== *)
theory Mount_Liveness
  imports Pod_Mounter World_Order
begin

text \<open>
  Mounts come to an end. Every attempt of \<open>Mount\<close> (\<open>pkg/driver/podmounter.go\<close>) has a budget of
  polls, and kubelet repeats a failed one. When the outside cooperates (the API server answers,
  the pod stays healthy, and each poll that finds the mount not ready yet is one of finitely many),
  repeating ends in success, however small the budgets are, because an attempt that runs out of
  time takes nothing back. The outside's progress is a rank on its state, chosen by the reader.
\<close>

section \<open>Programs that do not lose progress\<close>

text \<open>First for calls, then for programs that log only events in \<open>C\<close>.\<close>

interpretation progress: world_order "\<lambda>w w'. rank w' \<le> rank w" for rank :: "'w \<Rightarrow> nat"
  by unfold_locales auto

abbreviation steady :: "('w \<Rightarrow> nat) \<Rightarrow> ('w, 'a) state \<Rightarrow> bool" where
  "steady rank \<equiv> progress.stable rank"

text \<open>The result, the rank before and the rank after satisfy \<open>Q\<close>.\<close>

definition prog ::
  "('w \<Rightarrow> nat) \<Rightarrow> ('e \<Rightarrow> bool) \<Rightarrow> (('d, 'w, 'e) sys, 'a) state \<Rightarrow> ('a \<Rightarrow> nat \<Rightarrow> bool) \<Rightarrow> nat \<Rightarrow> bool" where
  "prog rank C m Q n \<longleftrightarrow> (\<forall>s. rank (world s) \<le> n \<longrightarrow>
     (case run_state m s of (r, s') \<Rightarrow>
        (\<exists>evs. log s' = log s @ evs \<and> list_all C evs) \<and> rank (world s') \<le> n \<and> Q r (rank (world s'))))"

named_theorems prog_intros \<open>backward rules for progress\<close>

lemma progD:
  assumes "prog rank C m Q n" "run_state m s = (r, s')" "rank (world s) \<le> n"
  shows "list_all C (newEvents s s')" "log s' = log s @ newEvents s s'" "rank (world s') \<le> n" "Q r (rank (world s'))"
proof -
  have "(\<exists>evs. log s' = log s @ evs \<and> list_all C evs) \<and> rank (world s') \<le> n \<and> Q r (rank (world s'))"
    using assms(1) [unfolded prog_def, rule_format, OF assms(3)] assms(2) by simp
  then show "list_all C (newEvents s s')" "log s' = log s @ newEvents s s'" "rank (world s') \<le> n" "Q r (rank (world s'))"
    by (auto simp: newEvents_def)
qed

lemma prog_mono: "prog rank C m Q n \<Longrightarrow> (\<And>r k. k \<le> n \<Longrightarrow> Q r k \<Longrightarrow> R r k) \<Longrightarrow> prog rank C m R n"
  by (fastforce simp: prog_def split: prod.splits)

lemma prog_return [prog_intros]: "(\<And>k. k \<le> n \<Longrightarrow> Q x k) \<Longrightarrow> prog rank C (State_Monad.return x) Q n"
  by (simp add: prog_def)

lemma prog_bind [prog_intros]:
  fixes m :: "(('d, 'w, 'e) sys, 'a) state"
  assumes "prog rank C m (\<lambda>r k. prog rank C (f r) Q k) n"
  shows "prog rank C (State_Monad.bind m f) Q n"
  unfolding prog_def
proof (intro allI impI)
  fix s :: "('d, 'w, 'e) sys"
  assume i: "rank (world s) \<le> n"
  obtain r s1 where m: "run_state m s = (r, s1)" by (metis surj_pair)
  obtain r' s2 where f: "run_state (f r) s1 = (r', s2)" by (metis surj_pair)
  note 1 = progD [OF assms m i]
  note 2 = progD [OF 1(4) f order_refl]
  have "log s2 = log s @ newEvents s s1 @ newEvents s1 s2" using 1(2) 2(2) by simp
  with 1 2 m f show "case run_state (State_Monad.bind m f) s of (r, s') \<Rightarrow>
      (\<exists>evs. log s' = log s @ evs \<and> list_all C evs) \<and> rank (world s') \<le> n \<and> Q r (rank (world s'))"
    by (auto simp: run_bind list_all_append intro!: exI [of _ "newEvents s s1 @ newEvents s1 s2"])
qed

lemma prog_ask:
  fixes m :: "('w, 'a) state"
  assumes "steady rank m" "\<And>w r w'. run_state m w = (r, w') \<Longrightarrow> rank w \<le> n \<Longrightarrow> rank w' \<le> n \<Longrightarrow> Q r (rank w')"
  shows "prog rank C (ask m) Q n"
  unfolding prog_def
proof (intro allI impI)
  fix s :: "('c, 'w, 'b) sys"
  assume s: "rank (world s) \<le> n"
  obtain r w' where m: "run_state m (world s) = (r, w')" by (metis surj_pair)
  have "rank w' \<le> n" using progress.stableD [OF assms(1) m] s by simp
  with assms(2) [OF m s] m show "case run_state (ask m) s of (r, s') \<Rightarrow>
      (\<exists>evs. log s' = log s @ evs \<and> list_all C evs) \<and> rank (world s') \<le> n \<and> Q r (rank (world s'))"
    by (simp add: ask_def)
qed

lemma prog_note [prog_intros]: "C ev \<Longrightarrow> (\<And>k. k \<le> n \<Longrightarrow> Q () k) \<Longrightarrow> prog rank C (note_ev ev) Q n"
  by (simp add: prog_def note_ev_def)

lemma prog_call:
  assumes "steady rank m" "\<And>w r w'. run_state m w = (r, w') \<Longrightarrow> rank w \<le> n \<Longrightarrow> rank w' \<le> n \<Longrightarrow> C (ev r) \<and> (\<forall>k\<le>n. Q r k)"
  shows "prog rank C (call m ev) Q n"
  unfolding call_def
  by (intro prog_bind prog_ask [OF assms(1)] prog_note prog_return) (meson assms(2) le_trans)+

lemma prog_vars [prog_intros]:
  "(\<And>b k. k \<le> n \<Longrightarrow> Q1 b k) \<Longrightarrow> prog rank C getVars Q1 n" "(\<And>k. k \<le> n \<Longrightarrow> Q2 () k) \<Longrightarrow> prog rank C (setVars b) Q2 n"
  by (simp_all add: prog_def getVars_def setVars_def)

lemma prog_cases [prog_intros]:
  "(c \<Longrightarrow> prog rank C m Q n) \<Longrightarrow> (\<not> c \<Longrightarrow> prog rank C m' Q n) \<Longrightarrow> prog rank C (if c then m else m') Q n"
  "(x = None \<Longrightarrow> prog rank C m Q n) \<Longrightarrow> (\<And>y. x = Some y \<Longrightarrow> prog rank C (k y) Q n) \<Longrightarrow>
     prog rank C (case x of None \<Rightarrow> m | Some y \<Rightarrow> k y) Q n"
  "(\<And>e. z = Inl e \<Longrightarrow> prog rank C (f e) Q n) \<Longrightarrow> (\<And>y. z = Inr y \<Longrightarrow> prog rank C (g y) Q n) \<Longrightarrow>
     prog rank C (case z of Inl e \<Rightarrow> f e | Inr y \<Rightarrow> g y) Q n"
  "(\<And>u v. p = (u, v) \<Longrightarrow> prog rank C (h u v) Q n) \<Longrightarrow> prog rank C (case p of (u, v) \<Rightarrow> h u v) Q n"
  by (auto split: option.split sum.split prod.split)

section \<open>An outside that cooperates\<close>

text \<open>
  The API server accepts, or has, the object and the pod; the pod is neither deleted, finished nor
  crashing; a poll that does not find it running, or its mount not there, makes progress; nothing
  else loses progress, and the bind works. How many polls an attempt gets is left open.
\<close>

definition healthyPod :: "('q, 'x) pod_scheme \<Rightarrow> bool" where
  "healthyPod p \<longleftrightarrow> \<not> podDeletionTimestamp p \<and> \<not> isPodTerminal p
     \<and> sint (totalRestartCount p) < sint crashLoopRestartThreshold"

definition cooperates :: "('w \<Rightarrow> nat) \<Rightarrow> ('w, 'q) env \<Rightarrow> string \<Rightarrow> string \<Rightarrow> bool" where
  "cooperates rank env name src \<longleftrightarrow>
     (\<forall>obj. steady rank (crdCreate (crd env) obj))
     \<and> (\<forall>obj w r w'. run_state (crdCreate (crd env) obj) w = (r, w') \<longrightarrow> r \<in> {None, Some AlreadyExists})
     \<and> (\<forall>n. steady rank (crdGet (crd env) n))
     \<and> (\<forall>n w obj w'. run_state (crdGet (crd env) n) w = (Inr obj, w') \<longrightarrow> objSpec obj \<noteq> None)
     \<and> (\<forall>obj. steady rank (crdUpdate (crd env) obj) \<and> steady rank (crdUpdateStatus (crd env) obj))
     \<and> (\<forall>n. steady rank (crdDelete (crd env) n))
     \<and> steady rank (timeNow (crd env)) \<and> steady rank (ticks env)
     \<and> (\<forall>pod. steady rank (podCreate env pod))
     \<and> (\<forall>pod w r w'. run_state (podCreate env pod) w = (r, w') \<longrightarrow> r \<in> {None, Some AlreadyExists})
     \<and> steady rank (podGet env name)
     \<and> (\<forall>w r w'. run_state (podGet env name) w = (r, w') \<longrightarrow>
          (\<exists>p. r = Inr p \<and> healthyPod p \<and> (podStatusPhase p \<noteq> PodRunning \<longrightarrow> rank w' < rank w)))
     \<and> steady rank (isMountPoint env src)
     \<and> (\<forall>w r w'. run_state (isMountPoint env src) w = (r, w') \<longrightarrow> r = (True, None) \<or> rank w' < rank w)
     \<and> (\<forall>p. steady rank (mkdirAll env p))
     \<and> (\<forall>p q. steady rank (bindMount env p q))
     \<and> (\<forall>p q w r w'. run_state (bindMount env p q) w = (r, w') \<longrightarrow> r = None)"

lemma cooperatesD:
  assumes "cooperates rank env name src"
  shows "steady rank (crdCreate (crd env) obj)" "run_state (crdCreate (crd env) obj) w = (r1, w') \<Longrightarrow> r1 \<in> {None, Some AlreadyExists}"
    "steady rank (crdGet (crd env) n)" "run_state (crdGet (crd env) n) w = (Inr obj, w') \<Longrightarrow> objSpec obj \<noteq> None"
    "steady rank (crdUpdate (crd env) obj)" "steady rank (crdUpdateStatus (crd env) obj)"
    "steady rank (timeNow (crd env))" "steady rank (ticks env)"
    "steady rank (podCreate env pod)" "run_state (podCreate env pod) w = (r2, w') \<Longrightarrow> r2 \<in> {None, Some AlreadyExists}"
    "steady rank (podGet env name)"
    "run_state (podGet env name) w = (r3, w') \<Longrightarrow>
       \<exists>p. r3 = Inr p \<and> healthyPod p \<and> (podStatusPhase p \<noteq> PodRunning \<longrightarrow> rank w' < rank w)"
    "steady rank (isMountPoint env src)" "run_state (isMountPoint env src) w = (r4, w') \<Longrightarrow> r4 = (True, None) \<or> rank w' < rank w"
    "steady rank (mkdirAll env p)" "steady rank (bindMount env p q)"
    "run_state (bindMount env p q) w = (r5, w') \<Longrightarrow> r5 = None"
  using assms unfolding cooperates_def by - (elim conjE, metis)+

lemma cooperates_crd: "cooperates rank env name src \<Longrightarrow> progress.stableCrd rank (crd env)"
  by (simp add: progress.stableCrd_def cooperates_def)

section \<open>One attempt\<close>

text \<open>Out of time, having made progress; nothing was taken back.\<close>

fun keepsAll :: "event \<Rightarrow> bool" where
  "keepsAll (PodDelete n) = False"
| "keepsAll (CrdDelete n) = False"
| "keepsAll (Unmounted p e) = False"
| "keepsAll (Removed p e) = False"
| "keepsAll _ = True"

lemma prog_podGet:
  assumes "cooperates rank env name src"
  shows "prog rank C (ask (podGet env name))
    (\<lambda>r k. \<exists>p. r = Inr p \<and> healthyPod p \<and> (podStatusPhase p = PodRunning \<or> k < n)) n"
  by (rule prog_ask [OF cooperatesD(11) [OF assms]]) (use cooperatesD(12) [OF assms] in fastforce)

lemma prog_isMountPoint:
  assumes "cooperates rank env name src"
  shows "prog rank C (ask (isMountPoint env src)) (\<lambda>r k. r = (True, None) \<or> k < n) n"
  by (rule prog_ask [OF cooperatesD(13) [OF assms]]) (use cooperatesD(14) [OF assms] in fastforce)

lemma prog_waitForPodRunning:
  assumes "cooperates rank env name src"
  shows "prog rank C (waitForPodRunning env name i) (\<lambda>r k. r = None \<or> r = Some TimedOut \<and> k < n) n"
proof (induction i arbitrary: n)
  case 0
  show ?case
    by (subst waitForPodRunning.simps, unfold Let_def, rule prog_bind, rule prog_mono [OF prog_podGet [OF assms]], intro prog_intros)
       (auto simp: healthyPod_def isPodTerminal_def intro: prog_return)
next
  case (Suc i)
  show ?case
    apply (subst waitForPodRunning.simps, unfold Let_def, rule prog_bind, rule prog_mono [OF prog_podGet [OF assms]])
    apply (intro prog_intros)
    subgoal by simp
    subgoal by (auto simp: healthyPod_def isPodTerminal_def)
    subgoal for r k by (simp, rule prog_mono [OF Suc]) auto
    done
qed

lemma prog_waitForMount:
  assumes "cooperates rank env name src"
  shows "prog rank C (waitForMount env src name i) (\<lambda>r k. r = None \<or> r = Some TimedOut \<and> k < n) n"
proof (induction i arbitrary: n)
  case 0
  show ?case
    apply (subst waitForMount.simps, unfold Let_def, rule prog_bind, rule prog_mono [OF prog_isMountPoint [OF assms]])
    apply (intro prog_intros prog_mono [OF prog_podGet [OF assms]])
    subgoal by simp
    subgoal by (auto simp: healthyPod_def)
    subgoal by (auto simp: healthyPod_def intro!: prog_return)
    done
next
  case (Suc i)
  show ?case
    apply (subst waitForMount.simps, unfold Let_def, rule prog_bind, rule prog_mono [OF prog_isMountPoint [OF assms]])
    apply (intro prog_intros prog_mono [OF prog_podGet [OF assms]])
    subgoal by simp
    subgoal by (auto simp: healthyPod_def)
    subgoal by (auto simp: healthyPod_def intro!: prog_mono [OF Suc])
    done
qed

lemma retryLoop_no_panic:
  assumes "\<And>n w obj w'. run_state (crdGet api n) w = (Inr obj, w') \<Longrightarrow> objSpec obj \<noteq> None"
    "\<And>spec w. spec \<noteq> None \<Longrightarrow> snd (fst (run_state (mutate spec) w)) \<noteq> NilWrite"
  shows "snd (fst (run_state (retryLoop api c mutate j cnt) w)) \<noteq> Some NilMapWrite"
proof (induction j arbitrary: cnt w)
  case (Suc j)
  obtain r w1 where g: "run_state (crdGet api c) w = (r, w1)" by (metis surj_pair)
  show ?case
  proof (cases r)
    case (Inr obj)
    obtain cm w2 where m: "run_state (mutate (objSpec obj)) w1 = (cm, w2)" by (metis surj_pair)
    have "snd cm \<noteq> NilWrite" using assms(2) [of "objSpec obj" w1] assms(1) [OF g [unfolded Inr]] m by simp
    then show ?thesis using Suc by (auto simp: run_bind g Inr m split: mutation.split option.split prod.split)
  qed (simp add: run_bind g)
qed simp

lemma prog_addWorkload:
  assumes "cooperates rank env name src"
  shows "prog rank C (ask (addWorkload (crd env) c uid t)) (\<lambda>r k. r \<noteq> Some NilMapWrite) n"
proof -
  have "steady rank (addWorkload (crd env) c uid t)"
    by (intro progress.stable_client cooperates_crd [OF assms])
  moreover have "fst (run_state (addWorkload (crd env) c uid t) w) \<noteq> Some NilMapWrite" for w
  proof -
    let ?m = "\<lambda>spec. let workloads = workloadsOf spec in
      if list_ex (hasTarget t) workloads then State_Monad.return (0, Unchanged)
      else do { now \<leftarrow> timeNow (crd env);
                State_Monad.return (0 :: nat, setWorkloads spec (workloads @ [workloadEntry uid t now])) }"
    have "snd (fst (run_state (retryLoop (crd env) c ?m 5 0) w)) \<noteq> Some NilMapWrite"
      by (rule retryLoop_no_panic, erule cooperatesD(4) [OF assms])
         (auto simp: Let_def run_bind setWorkloads_def split: prod.splits)
    then show ?thesis unfolding addWorkload_def retryOnConflict_def by (auto simp: run_bind split: prod.splits)
  qed
  ultimately show ?thesis by (intro prog_ask) (auto, metis fst_conv)
qed

lemma prog_ensurePod:
  assumes "cooperates rank env name src"
  shows "prog rank keepsAll (ensurePod env name pod) (\<lambda>r k. \<exists>cr. r = Inr cr) n"
proof -
  have create: "prog rank keepsAll (call (podCreate env pod) (PodCreate name)) (\<lambda>r k. r \<in> {None, Some AlreadyExists}) m" for m
    by (rule prog_call [OF cooperatesD(9) [OF assms]]) (use cooperatesD(10) [OF assms] in fastforce)
  show ?thesis
    unfolding ensurePod_def
    apply (rule prog_bind, rule prog_mono [OF create], rule prog_cases)
    subgoal by (auto intro: prog_return)
    subgoal for r k e
      apply (rule prog_cases, rule prog_bind, rule prog_mono [OF prog_podGet [OF assms]])
      subgoal by (auto simp: healthyPod_def intro!: prog_return)
      subgoal by simp
      done
    done
qed

lemma prog_stackBind:
  assumes "cooperates rank env name src"
  shows "prog rank keepsAll (stackBind env src t) (\<lambda>r k. r = None) n"
proof -
  have bind: "prog rank keepsAll (call (bindMount env src t) (Bound src t)) (\<lambda>r k. r = None) m" for m
    by (rule prog_call [OF cooperatesD(16) [OF assms]]) (use cooperatesD(17) [OF assms] in fastforce)
  show ?thesis
    unfolding stackBind_def
    by (intro prog_bind prog_call [OF cooperatesD(15) [OF assms]] conjI allI impI prog_mono [OF bind])
       (auto intro: prog_return)
qed

definition outOfTime :: "mountErr option \<Rightarrow> bool" where
  "outOfTime r \<longleftrightarrow> r = Some (NotRunning TimedOut) \<or> r = Some (NotMounted TimedOut)"

lemma prog_mountBody:
  assumes "cooperates rank env name src"
  shows "prog rank keepsAll (mountBody env pod name c src t)
    (\<lambda>r k. snd r = (False, False) \<and> (fst r = None \<or> outOfTime (fst r) \<and> k < n)) n"
proof -
  have ticks: "prog rank C (ask (ticks env)) (\<lambda>r k. True) m" for C m
    by (rule prog_ask [OF cooperatesD(8) [OF assms]]) simp
  have status: "prog rank keepsAll (call (crd_updateStatus (crd env) c ph msg) (\<lambda>_. UpdateStatus c ph)) (\<lambda>r k. True) m" for ph msg m
    by (rule prog_call [OF progress.stable_client(3) [OF cooperates_crd [OF assms]]]) simp
  show ?thesis
    unfolding mountBody_def
    apply (rule prog_bind, rule prog_mono [OF prog_ensurePod [OF assms]], elim exE, simp)
    apply (intro prog_bind prog_mono [OF ticks] prog_mono [OF prog_waitForPodRunning [OF assms]])
    apply (rule prog_cases(2))
    subgoal
      apply (intro prog_bind prog_mono [OF ticks] prog_mono [OF prog_waitForMount [OF assms]])
      apply (rule prog_cases(2))
      subgoal
        apply (intro prog_bind prog_mono [OF prog_stackBind [OF assms]])
        apply simp
        apply (intro prog_intros prog_mono [OF status])
        subgoal by simp
        done
      subgoal by (auto simp: outOfTime_def afterWait_def intro!: prog_return)
      done
    subgoal by (auto simp: outOfTime_def afterWait_def intro!: prog_return)
    done
qed

lemma prog_Mount:
  assumes "cooperates rank env (mountPodPrefix @ mountID t) (pathJoin [mountBaseDir, mountID t])"
    "buildArgs st sid (''/mnt/hf/'' @ mountID t) opts = Inr args"
  shows "prog rank keepsAll (Mount env cfg st sid t opts) (\<lambda>r k. r = None \<or> outOfTime r \<and> k < n) n"
proof -
  let ?c = "hfMountName (mountID t)"
  have create: "prog rank keepsAll (call (crd_create ops (crd env) ?c spec) (CrdCreate ?c)) (\<lambda>r k. r = None \<or> r = Some AlreadyExists) m" for ops spec m
    by (rule prog_call) (use cooperatesD(1,2) [OF assms(1)] in \<open>fastforce simp: crd_create_def\<close>)+
  have add: "prog rank keepsAll (call (addWorkload (crd env) ?c uid t) (AddWorkload ?c uid t)) (\<lambda>r k. r \<noteq> Some NilMapWrite) m" for uid m
    unfolding call_def by (intro prog_bind prog_mono [OF prog_addWorkload [OF assms(1)]] prog_note prog_return) auto
  have clean: "prog rank keepsAll (mountCleanup env name ?c (False, False)) (\<lambda>r k. True) m" for name m
    unfolding mountCleanup_def by (auto intro!: prog_intros)
  show ?thesis
    unfolding Mount_def Let_def assms(2) sum.case
    apply (intro prog_bind prog_note prog_mono [OF create] prog_cases(1))
    subgoal by simp
    subgoal by auto
    subgoal
      apply (intro prog_bind prog_mono [OF add] prog_cases(1))
      subgoal by simp
      subgoal
        apply (intro prog_bind prog_mono [OF prog_mountBody [OF assms(1)]])
        apply (elim conjE, simp)
        apply (intro prog_mono [OF clean] prog_intros)
        apply simp_all
        apply auto
        done
      done
    done
qed

section \<open>Repeating\<close>

text \<open>Kubelet repeats a failed publish; here up to a given number of times.\<close>

fun retryMount ::
  "('w, 'q) env \<Rightarrow> 'q pmConfig \<Rightarrow> string \<Rightarrow> string \<Rightarrow> string \<Rightarrow> 'q MountOptions \<Rightarrow> nat \<Rightarrow> ('w pm, mountErr option) state" where
  "retryMount env cfg st sid t opts 0 = Mount env cfg st sid t opts"
| "retryMount env cfg st sid t opts (Suc i) =
     do { r \<leftarrow> Mount env cfg st sid t opts;
          case r of None \<Rightarrow> State_Monad.return None | Some e \<Rightarrow> retryMount env cfg st sid t opts i }"

lemma prog_retryMount:
  assumes "cooperates rank env (mountPodPrefix @ mountID t) (pathJoin [mountBaseDir, mountID t])"
    "buildArgs st sid (''/mnt/hf/'' @ mountID t) opts = Inr args" "n \<le> i"
  shows "prog rank keepsAll (retryMount env cfg st sid t opts i) (\<lambda>r k. r = None) n"
  using assms(3)
proof (induction i arbitrary: n)
  case 0
  then show ?case by (simp, intro prog_mono [OF prog_Mount [OF assms(1,2)]]) auto
next
  case (Suc i)
  show ?case
    unfolding retryMount.simps
    by (intro prog_bind prog_mono [OF prog_Mount [OF assms(1,2)]] prog_cases(2) prog_return Suc.IH) (use Suc.prems in auto)
qed

lemma retryMount_binds:
  "run_state (retryMount env cfg st sid t opts i) s = (None, s') \<Longrightarrow>
     map_of (binds s') t = Some (pathJoin [mountBaseDir, mountID t])"
proof (induction i arbitrary: s)
  case 0
  then show ?case using Mount_binds_cases [of env cfg st sid t opts s None s'] by simp
next
  case (Suc i)
  obtain r s1 where m: "run_state (Mount env cfg st sid t opts) s = (r, s1)" by (metis surj_pair)
  with Suc show ?case
    using Mount_binds_cases [OF m] by (cases r) (auto simp: run_bind)
qed

text \<open>
  (C14) Mounts come to an end. When the API server accepts or has the pod and the object, the pod
  stays healthy and each poll that finds the mount not ready is one of finitely many, repeating
  \<open>Mount\<close> at most that often ends in success, whatever budget of polls the single attempts get:
  the target is bound to its source, and no attempt on the way has deleted a pod or an object,
  unmounted or removed anything.
\<close>

theorem Mount_retries_succeed:
  assumes "cooperates rank env (mountPodPrefix @ mountID t) (pathJoin [mountBaseDir, mountID t])"
    "buildArgs st sid (''/mnt/hf/'' @ mountID t) opts = Inr args" "rank (world s) \<le> i"
  shows "\<exists>s'. run_state (retryMount env cfg st sid t opts i) s = (None, s')
    \<and> map_of (binds s') t = Some (pathJoin [mountBaseDir, mountID t])
    \<and> (\<forall>ev\<in>set (newEvents s s'). keepsAll ev)"
proof -
  obtain r s' where r: "run_state (retryMount env cfg st sid t opts i) s = (r, s')" by (metis surj_pair)
  note p = progD [OF prog_retryMount [OF assms(1,2) order_refl] r assms(3)]
  then have "run_state (retryMount env cfg st sid t opts i) s = (None, s')" using r by simp
  with retryMount_binds [OF this] p(1) show ?thesis by (auto simp: list_all_iff)
qed

section \<open>Instances\<close>

text \<open>A pod that becomes ready with the third poll, and attempts of a single poll each.\<close>

definition slowEnv :: "(nat, nat) env" where
  "slowEnv =
     \<lparr>crd = \<lparr>crdCreate = (\<lambda>_. State_Monad.return (Some AlreadyExists)), crdGet = (\<lambda>n. State_Monad.return (Inr sampleObj)),
        crdUpdate = (\<lambda>_. State_Monad.return None), crdUpdateStatus = (\<lambda>_. State_Monad.return None),
        crdDelete = (\<lambda>_. State_Monad.return None), crdList = (\<lambda>_. State_Monad.return (Inr [])), timeNow = State_Monad.return 0\<rparr>,
      podCreate = (\<lambda>_. State_Monad.return (Some AlreadyExists)),
      podGet = (\<lambda>_. State (\<lambda>w. (Inr (phasePod (if w \<le> 1 then PodRunning else PodPending)), w - 1))),
      podDelete = (\<lambda>_. State_Monad.return None), podList = (\<lambda>_. State_Monad.return (Inr [])),
      nodePodList = (\<lambda>_. State_Monad.return (Inr [])),
      isMountPoint = (\<lambda>_. State (\<lambda>w. ((w = 0, None), w - 1))),
      isCorruptedMnt = (\<lambda>e. False), getMountRefs = (\<lambda>_. State_Monad.return (Inr [])),
      fuseUnmount = (\<lambda>_. State_Monad.return None), bindMount = (\<lambda>_ _. State_Monad.return None),
      mkdirAll = (\<lambda>_. State_Monad.return None), removePath = (\<lambda>_. State_Monad.return None),
      statPath = (\<lambda>_. State_Monad.return None), readDirEntries = (\<lambda>_. State_Monad.return (Inr [])),
      selfMountinfo = State_Monad.return None, ticks = State_Monad.return 0\<rparr>"

lemma slowEnv_cooperates: "cooperates (\<lambda>w. w) slowEnv name src"
  by (auto simp: cooperates_def slowEnv_def progress.stable_def sampleObj_def healthyPod_def phasePod_def isPodTerminal_def
      totalRestartCount_def crashLoopRestartThreshold_def)

theorem Mount_retries_succeed_witness:
  "\<exists>s'. run_state (retryMount slowEnv sampleCfg ''bucket'' ''o/d'' ''/t'' sampleOptions 3) \<lparr>vars = [], world = 3, log = []\<rparr> = (None, s')
     \<and> map_of (binds s') ''/t'' = Some (pathJoin [mountBaseDir, mountID ''/t''])"
proof -
  have "buildArgs ''bucket'' ''o/d'' (''/mnt/hf/'' @ mountID ''/t'') sampleOptions \<noteq> Inl e" for e
    by (simp add: buildArgs_error_iff)
  then obtain args where "buildArgs ''bucket'' ''o/d'' (''/mnt/hf/'' @ mountID ''/t'') sampleOptions = Inr args"
    by (metis sum.exhaust)
  from Mount_retries_succeed [OF slowEnv_cooperates this, of "\<lparr>vars = [], world = 3, log = []\<rparr>" 3] show ?thesis by auto
qed

end
