(* ===== verification/Kernel_Mounts.thy ===== *)
theory Kernel_Mounts
  imports Pod_System World_Order
begin

text \<open>
  The pod mounter against the kernel's mount table. Here the kernel is no longer arbitrary: at each
  target it keeps a stack of mounts, which a bind pushes, a lazy unmount pops, and which only an
  empty directory has none of, as \<open>mount(2)\<close>, \<open>umount2(2)\<close> and \<open>rmdir(2)\<close> document. Everything
  else the mounter calls leaves the targets alone, and so do other processes. The theorems say
  what the operations of \<open>pkg/driver/podmounter.go\<close> do to the stacks, and that the table
  \<open>binds\<close> never loses track of a mounted target. The kernel may refuse a bind at any time; a
  lazy unmount it refuses only where nothing is mounted.
\<close>

section \<open>The table of the kernel\<close>

text \<open>The mounts at each path, top first, by their sources.\<close>

type_synonym layers = "string \<Rightarrow> string list"

interpretation table: world_order "\<lambda>w w'. st w' = (st w :: layers)" for st :: "'w \<Rightarrow> layers"
  by unfold_locales auto

abbreviation keeps :: "('w \<Rightarrow> layers) \<Rightarrow> ('w, 'a) state \<Rightarrow> bool" where
  "keeps st \<equiv> table.stable st"

text \<open>\<open>st\<close> is the part of the table below the given targets.\<close>

definition stack_law :: "('w, 'q) env \<Rightarrow> string set \<Rightarrow> ('w \<Rightarrow> layers) \<Rightarrow> bool" where
  "stack_law env T st \<longleftrightarrow>
     (\<forall>src t w r w'. run_state (bindMount env src t) w = (r, w') \<longrightarrow>
        st w' = (if r = None \<and> t \<in> T then (st w)(t := src # st w t) else st w))
     \<and> (\<forall>p w r w'. run_state (fuseUnmount env p) w = (r, w') \<longrightarrow>
        st w' = (if r = None \<and> p \<in> T then (st w)(p := tl (st w p)) else st w)
        \<and> (p \<in> T \<longrightarrow> (r = None) = (st w p \<noteq> [])))"

text \<open>A directory with a mount cannot be removed, and a check tells no mount only where there is none.\<close>

definition bare_law :: "('w, 'q) env \<Rightarrow> string set \<Rightarrow> ('w \<Rightarrow> layers) \<Rightarrow> bool" where
  "bare_law env T st \<longleftrightarrow>
     (\<forall>p w r w'. run_state (removePath env p) w = (r, w') \<longrightarrow>
        st w' = st w \<and> (p \<in> T \<and> r \<in> {None, Some ENOENT} \<longrightarrow> st w p = []))
     \<and> (\<forall>p w r w'. run_state (isMountPoint env p) w = (r, w') \<longrightarrow>
        st w' = st w \<and> (p \<in> T \<and> \<not> fst r \<and> snd r \<in> {None, Some ENOENT} \<longrightarrow> st w p = []))"

definition quiet_law :: "('w, 'q) env \<Rightarrow> ('w \<Rightarrow> layers) \<Rightarrow> bool" where
  "quiet_law env st \<longleftrightarrow>
     table.stableCrd st (crd env) \<and> (\<forall>l. keeps st (crdList (crd env) l))
     \<and> (\<forall>pod. keeps st (podCreate env pod)) \<and> (\<forall>n. keeps st (podGet env n)) \<and> (\<forall>n. keeps st (podDelete env n))
     \<and> (\<forall>l. keeps st (podList env l)) \<and> (\<forall>l. keeps st (nodePodList env l))
     \<and> (\<forall>p. keeps st (getMountRefs env p)) \<and> (\<forall>p. keeps st (mkdirAll env p)) \<and> (\<forall>p. keeps st (statPath env p))
     \<and> (\<forall>p. keeps st (readDirEntries env p)) \<and> keeps st (selfMountinfo env) \<and> keeps st (ticks env)"

definition mount_law :: "('w, 'q) env \<Rightarrow> string set \<Rightarrow> ('w \<Rightarrow> layers) \<Rightarrow> bool" where
  "mount_law env T st \<longleftrightarrow> stack_law env T st \<and> bare_law env T st \<and> quiet_law env st"

lemma mount_lawD:
  assumes "mount_law env T st"
  shows "run_state (bindMount env src t) w = (r, w') \<Longrightarrow> st w' = (if r = None \<and> t \<in> T then (st w)(t := src # st w t) else st w)"
    "run_state (fuseUnmount env p) w = (r, w') \<Longrightarrow> st w' = (if r = None \<and> p \<in> T then (st w)(p := tl (st w p)) else st w)"
    "run_state (fuseUnmount env p) w = (r, w') \<Longrightarrow> p \<in> T \<Longrightarrow> (r = None) = (st w p \<noteq> [])"
    "run_state (removePath env p) w = (r, w') \<Longrightarrow> st w' = st w"
    "run_state (removePath env p) w = (r, w') \<Longrightarrow> p \<in> T \<Longrightarrow> r = None \<or> r = Some ENOENT \<Longrightarrow> st w p = []"
    "run_state (isMountPoint env p) w = (mp, w') \<Longrightarrow> st w' = st w"
    "run_state (isMountPoint env p) w = (mp, w') \<Longrightarrow> p \<in> T \<Longrightarrow> \<not> fst mp \<Longrightarrow> snd mp = None \<or> snd mp = Some ENOENT \<Longrightarrow> st w p = []"
proof -
  have "stack_law env T st" "bare_law env T st" using assms by (simp_all add: mount_law_def)
  note s = \<open>stack_law env T st\<close> [unfolded stack_law_def] and r = \<open>bare_law env T st\<close> [unfolded bare_law_def]
  show "run_state (bindMount env src t) w = (r, w') \<Longrightarrow> st w' = (if r = None \<and> t \<in> T then (st w)(t := src # st w t) else st w)"
    using s by meson
  show "run_state (fuseUnmount env p) w = (r, w') \<Longrightarrow> st w' = (if r = None \<and> p \<in> T then (st w)(p := tl (st w p)) else st w)"
    using s by meson
  show "run_state (fuseUnmount env p) w = (r, w') \<Longrightarrow> p \<in> T \<Longrightarrow> (r = None) = (st w p \<noteq> [])"
    using conjunct2 [OF s, rule_format, of p w r w'] by auto
  show "run_state (removePath env p) w = (r, w') \<Longrightarrow> st w' = st w" using r by meson
  show "run_state (removePath env p) w = (r, w') \<Longrightarrow> p \<in> T \<Longrightarrow> r = None \<or> r = Some ENOENT \<Longrightarrow> st w p = []"
    using conjunct1 [OF r, rule_format, of p w r w'] by auto
  show "run_state (isMountPoint env p) w = (mp, w') \<Longrightarrow> st w' = st w" using r by meson
  show "run_state (isMountPoint env p) w = (mp, w') \<Longrightarrow> p \<in> T \<Longrightarrow> \<not> fst mp \<Longrightarrow> snd mp = None \<or> snd mp = Some ENOENT \<Longrightarrow> st w p = []"
    using conjunct2 [OF r, rule_format, of p w mp w'] by auto
qed

lemma keeps_law:
  assumes "mount_law env T st"
  shows "table.stableCrd st (crd env)" "keeps st (crdList (crd env) l)" "keeps st (podCreate env pod)" "keeps st (podGet env n)"
    "keeps st (podDelete env n)" "keeps st (podList env l)" "keeps st (nodePodList env l)" "keeps st (getMountRefs env p)"
    "keeps st (mkdirAll env p)" "keeps st (statPath env p)" "keeps st (readDirEntries env p)" "keeps st (selfMountinfo env)"
    "keeps st (ticks env)" "keeps st (isMountPoint env p)" "keeps st (removePath env p)" "p \<notin> T \<Longrightarrow> keeps st (fuseUnmount env p)"
proof -
  have "quiet_law env st" using assms by (simp add: mount_law_def)
  then show "table.stableCrd st (crd env)" "keeps st (crdList (crd env) l)" "keeps st (podCreate env pod)" "keeps st (podGet env n)"
    "keeps st (podDelete env n)" "keeps st (podList env l)" "keeps st (nodePodList env l)" "keeps st (getMountRefs env p)"
    "keeps st (mkdirAll env p)" "keeps st (statPath env p)" "keeps st (readDirEntries env p)" "keeps st (selfMountinfo env)"
    "keeps st (ticks env)"
    by (simp_all add: quiet_law_def)
  have k: "keeps st m" if "\<And>w r w'. run_state m w = (r, w') \<Longrightarrow> st w' = st w" for m :: "('a, 'x) state"
    using that unfolding table.stable_def by (metis prod.collapse)
  show "keeps st (isMountPoint env p)" "keeps st (removePath env p)" "p \<notin> T \<Longrightarrow> keeps st (fuseUnmount env p)"
    by (rule k, erule mount_lawD [OF assms], rule k, erule mount_lawD [OF assms], rule k, drule mount_lawD(2) [OF assms], simp)
qed

section \<open>Weakest preconditions over both tables\<close>

definition kern ::
  "('w \<Rightarrow> layers) \<Rightarrow> (('d, 'w, 'e) sys, 'a) state \<Rightarrow> ('a \<Rightarrow> 'd \<Rightarrow> layers \<Rightarrow> bool) \<Rightarrow> 'd \<Rightarrow> layers \<Rightarrow> bool" where
  "kern st m Q b k \<longleftrightarrow> (\<forall>s. vars s = b \<longrightarrow> st (world s) = k \<longrightarrow>
     (case run_state m s of (r, s') \<Rightarrow> Q r (vars s') (st (world s'))))"

named_theorems kern_intros \<open>backward rules over the tables of the mounter and of the kernel\<close>

lemma kernD: "kern st m Q (vars s) (st (world s)) \<Longrightarrow> run_state m s = (r, s') \<Longrightarrow> Q r (vars s') (st (world s'))"
  by (fastforce simp: kern_def)

lemma kern_mono: "kern st m Q b k \<Longrightarrow> (\<And>r b' k'. Q r b' k' \<Longrightarrow> R r b' k') \<Longrightarrow> kern st m R b k"
  by (fastforce simp: kern_def split: prod.splits)

lemma kern_return [kern_intros]: "Q x b k \<Longrightarrow> kern st (State_Monad.return x) Q b k"
  by (simp add: kern_def)

lemma kern_bind [kern_intros]: "kern st m (\<lambda>r b' k'. kern st (f r) Q b' k') b k \<Longrightarrow> kern st (State_Monad.bind m f) Q b k"
  by (fastforce simp: kern_def run_bind split: prod.splits)

lemma kern_ask: "(\<And>w r w'. st w = k \<Longrightarrow> run_state m w = (r, w') \<Longrightarrow> Q r b (st w')) \<Longrightarrow> kern st (ask m) Q b k"
  by (auto simp: kern_def ask_def split: prod.splits)

lemma kern_call: "(\<And>w r w'. st w = k \<Longrightarrow> run_state m w = (r, w') \<Longrightarrow> Q r b (st w')) \<Longrightarrow> kern st (call m ev) Q b k"
  by (auto simp: kern_def call_def ask_def note_ev_def run_bind split: prod.splits)

lemma kern_keeps [kern_intros]:
  "keeps st m \<Longrightarrow> (\<And>r w w'. run_state m w = (r, w') \<Longrightarrow> Q r b k) \<Longrightarrow> kern st (ask m) Q b k"
  "keeps st m \<Longrightarrow> (\<And>r w w'. run_state m w = (r, w') \<Longrightarrow> Q r b k) \<Longrightarrow> kern st (call m ev) Q b k"
  by (rule kern_ask, frule (1) table.stableD, simp, rule kern_call, frule (1) table.stableD, simp)

lemma kern_note [kern_intros]: "Q () b k \<Longrightarrow> kern st (note_ev ev) Q b k"
  by (simp add: kern_def note_ev_def)

lemma kern_vars [kern_intros]: "Q1 b b k \<Longrightarrow> kern st getVars Q1 b k" "Q2 () b' k \<Longrightarrow> kern st (setVars b') Q2 b k"
  by (simp_all add: kern_def getVars_def setVars_def)

lemma kern_cases [kern_intros]:
  "(c \<Longrightarrow> kern st m Q b k) \<Longrightarrow> (\<not> c \<Longrightarrow> kern st n Q b k) \<Longrightarrow> kern st (if c then m else n) Q b k"
  "(x = None \<Longrightarrow> kern st m Q b k) \<Longrightarrow> (\<And>y. x = Some y \<Longrightarrow> kern st (h y) Q b k) \<Longrightarrow>
     kern st (case x of None \<Rightarrow> m | Some y \<Rightarrow> h y) Q b k"
  "(\<And>e. z = Inl e \<Longrightarrow> kern st (f e) Q b k) \<Longrightarrow> (\<And>y. z = Inr y \<Longrightarrow> kern st (g y) Q b k) \<Longrightarrow>
     kern st (case z of Inl e \<Rightarrow> f e | Inr y \<Rightarrow> g y) Q b k"
  "(\<And>u v. p = (u, v) \<Longrightarrow> kern st (i u v) Q b k) \<Longrightarrow> kern st (case p of (u, v) \<Rightarrow> i u v) Q b k"
  "(j = 0 \<Longrightarrow> kern st m Q b k) \<Longrightarrow> (\<And>l. j = Suc l \<Longrightarrow> kern st (q l) Q b k) \<Longrightarrow>
     kern st (case j of 0 \<Rightarrow> m | Suc l \<Rightarrow> q l) Q b k"
  by (auto split: option.split sum.split prod.split nat.split)

lemma kern_whenM [kern_intros]:
  "(c \<Longrightarrow> kern st m (\<lambda>_. Q ()) b k) \<Longrightarrow> (\<not> c \<Longrightarrow> Q () b k) \<Longrightarrow> kern st (whenM c m) Q b k"
  unfolding whenM_def by (auto intro!: kern_bind kern_return simp: kern_def split: prod.splits)

section \<open>What the parts do to the stacks\<close>

text \<open>The waits and the health check touch neither table.\<close>

lemma kern_waits [kern_intros]:
  assumes "mount_law env T st"
  shows "(\<And>r. Q1 r b k) \<Longrightarrow> kern st (waitForPodRunning env name n) Q1 b k"
    "(\<And>r. Q2 r b k) \<Longrightarrow> kern st (waitForMount env path name n) Q2 b k"
    "(\<And>r. Q3 r b k) \<Longrightarrow> kern st (waitForPodDeletion env name n) Q3 b k"
    "(\<And>r. Q4 r b k) \<Longrightarrow> kern st (pollUntilMounted env path n) Q4 b k"
    "(\<And>r. Q5 r b k) \<Longrightarrow> kern st (CheckHealth env t) Q5 b k"
proof -
  note [kern_intros] = keeps_law [OF assms]
  show "(\<And>r. Q1 r b k) \<Longrightarrow> kern st (waitForPodRunning env name n) Q1 b k"
    by (induction n) (subst waitForPodRunning.simps, auto simp: Let_def intro!: kern_intros)+
  show "(\<And>r. Q2 r b k) \<Longrightarrow> kern st (waitForMount env path name n) Q2 b k"
    by (induction n) (subst waitForMount.simps, auto simp: Let_def intro!: kern_intros)+
  show "(\<And>r. Q3 r b k) \<Longrightarrow> kern st (waitForPodDeletion env name n) Q3 b k"
    by (induction n) (auto intro!: kern_intros)
  show "(\<And>r. Q4 r b k) \<Longrightarrow> kern st (pollUntilMounted env path n) Q4 b k"
    by (induction n) (auto intro!: kern_intros)
  show "(\<And>r. Q5 r b k) \<Longrightarrow> kern st (CheckHealth env t) Q5 b k"
    unfolding CheckHealth_def Let_def by (intro kern_intros) auto
qed

text \<open>\<open>unmountAll\<close> pops 32 layers, or all there are.\<close>

definition popLayers :: "string set \<Rightarrow> string \<Rightarrow> layers \<Rightarrow> layers" where
  "popLayers T p k = (if p \<in> T then k(p := drop 32 (k p)) else k)"

lemma kern_unmountLoop:
  assumes "mount_law env T st"
  shows "kern st (unmountLoop env p n) (\<lambda>_ b' k'. b' = b \<and> k' = (if p \<in> T then k(p := drop n (k p)) else k)) b k"
proof (induction n arbitrary: k)
  case 0
  show ?case by (auto intro: kern_return)
next
  case (Suc n)
  show ?case
    unfolding unmountLoop.simps
  proof (rule kern_bind, rule kern_call)
    fix w r w'
    assume k: "st w = k" and run: "run_state (fuseUnmount env p) w = (r, w')"
    have st: "st w' = (if r = None \<and> p \<in> T then k(p := tl (k p)) else k)" using mount_lawD(2) [OF assms run] k by simp
    show "kern st (case r of None \<Rightarrow> unmountLoop env p n | Some _ \<Rightarrow> State_Monad.return ())
        (\<lambda>_ b' k'. b' = b \<and> k' = (if p \<in> T then k(p := drop (Suc n) (k p)) else k)) b (st w')"
    proof (cases r)
      case None
      then show ?thesis using st by (auto simp: drop_Suc intro!: kern_mono [OF Suc])
    next
      case (Some e)
      then have "p \<in> T \<Longrightarrow> k p = []" using mount_lawD(3) [OF assms run] k by auto
      with Some st show ?thesis by (auto intro!: kern_return)
    qed
  qed
qed

lemma kern_unmountAll:
  assumes "mount_law env T st" "Q () b (popLayers T p k)"
  shows "kern st (unmountAll env p) Q b k"
  unfolding unmountAll_def by (rule kern_mono [OF kern_unmountLoop [OF assms(1)]]) (use assms(2) in \<open>auto simp: popLayers_def\<close>)

text \<open>\<open>stackBind\<close> puts the source on top of what was there, or of what 32 detaches left.\<close>

definition stacked :: "string \<Rightarrow> string \<Rightarrow> oserr option \<Rightarrow> layers \<Rightarrow> layers \<Rightarrow> bool" where
  "stacked src t r k k' \<longleftrightarrow>
     (if r = None then k' = k(t := src # k t) \<or> k' = k(t := src # drop 32 (k t)) else k' = k(t := drop 32 (k t)))"

lemma kern_stackBind:
  assumes "mount_law env T st" "t \<in> T" "\<And>r k'. stacked src t r k k' \<Longrightarrow> Q r b k'"
  shows "kern st (stackBind env src t) Q b k"
proof -
  note [kern_intros] = keeps_law [OF assms(1)]
  have bind: "kern st (call (bindMount env src t) (Bound src t)) Q' b k"
    if "\<And>r. Q' r b (if r = None then k(t := src # k t) else k)" for Q' k
    by (rule kern_call) (use mount_lawD(1) [OF assms(1)] assms(2) that in \<open>metis (full_types)\<close>)
  show ?thesis
    unfolding stackBind_def
    by (intro kern_intros bind kern_unmountAll [OF assms(1)] assms(3))
       (use assms(2) in \<open>auto simp: stacked_def popLayers_def split: if_splits intro!: kern_intros bind kern_unmountAll [OF assms(1)] assms(3)\<close>)
qed

section \<open>Mount and Unmount\<close>

lemma kern_ensurePod:
  assumes "mount_law env T st" "\<And>r. Q r b k"
  shows "kern st (ensurePod env name pod) Q b k"
proof -
  note [kern_intros] = keeps_law [OF assms(1)] kern_waits [OF assms(1)]
  show ?thesis unfolding ensurePod_def by (intro kern_intros) (use assms(2) in auto)
qed

text \<open>A mount leaves its source on top; a failed one at most detaches what was there.\<close>

definition mounted :: "string \<Rightarrow> string \<Rightarrow> bool \<Rightarrow> layers \<Rightarrow> layers \<Rightarrow> bool" where
  "mounted src t ok k k' \<longleftrightarrow>
     (\<exists>rest. (rest = k t \<or> rest = drop 32 (k t)) \<and> k' = k(t := if ok then src # rest else rest))"

lemma mounted_simps: "mounted src t False k k" "stacked src t r k k' \<Longrightarrow> mounted src t (r = None) k k'"
  by (auto simp: mounted_def stacked_def split: if_splits)

lemma kern_mountBody:
  assumes "mount_law env T st" "t \<in> T"
    "\<And>res cl k'. mounted src t (res = None) k k' \<Longrightarrow> Q (res, cl) (if res = None then put_key t src b else b) k'"
  shows "kern st (mountBody env pod name c src t) Q b k"
proof -
  note [kern_intros] = keeps_law [OF assms(1)] kern_waits [OF assms(1)] kern_ensurePod [OF assms(1)]
    kern_stackBind [OF assms(1,2)] table.stable_client [OF keeps_law(1) [OF assms(1)]]
  have Q: "mounted src t (res = None) k k' \<Longrightarrow> b' = (if res = None then put_key t src b else b) \<Longrightarrow> Q (res, cl) b' k'"
    for res cl k' b' using assms(3) by simp
  show ?thesis
    unfolding mountBody_def
    by (intro kern_intros Q) (auto simp: mounted_simps dest: mounted_simps(2))
qed

lemma kern_Mount:
  assumes "mount_law env T st" "t \<in> T"
  shows "kern st (Mount env cfg st' sid t opts) (\<lambda>r b' k'. mounted (pathJoin [mountBaseDir, mountID t]) t (r = None) k k'
      \<and> b' = (if r = None then put_key t (pathJoin [mountBaseDir, mountID t]) b else b)) b k"
proof -
  note [kern_intros] = keeps_law [OF assms(1)] kern_mountBody [OF assms]
    table.stable_client [OF keeps_law(1) [OF assms(1)]]
  show ?thesis
    unfolding Mount_def mountCleanup_def Let_def
    by (intro kern_intros) (auto simp: mounted_simps)
qed

lemma kern_Unmount:
  assumes "mount_law env T st" "t \<in> T" "\<forall>src\<in>snd ` set b. src \<notin> T" "pathJoin [mountBaseDir, mountID t] \<notin> T"
  shows "kern st (Unmount env t) (\<lambda>r b' k'. k' = k(t := drop 32 (k t)) \<and> (r = None \<longrightarrow> length (k t) \<le> 32)
      \<and> b' = (if r = None then delete_key t b else b)) b k"
proof -
  have pop: "popLayers T p k = k" if "p \<notin> T" for p k using that by (simp add: popLayers_def)
  have remove: "kern st (call (removePath env p) (Removed p)) Q' b k"
    if "\<And>r. (p \<in> T \<and> (r = None \<or> r = Some ENOENT) \<longrightarrow> k p = []) \<Longrightarrow> Q' r b k" for p Q' b k
    by (rule kern_call) (use mount_lawD(4,5) [OF assms(1)] that in metis)
  have src: "map_of b t = Some source \<Longrightarrow> source \<notin> T" for source using assms(3) by (auto dest!: map_of_SomeD)
  note [kern_intros] = keeps_law(1-14) [OF assms(1)] kern_unmountAll [OF assms(1)] remove
    table.stable_client [OF keeps_law(1) [OF assms(1)]]
  have "kern st (unmountLocked env t) (\<lambda>r b' k'. k' = k(t := drop 32 (k t)) \<and> (r = None \<longrightarrow> length (k t) \<le> 32)
      \<and> b' = (if r = None then delete_key t b else b)) b k"
    unfolding unmountLocked_def Let_def
    by (intro kern_intros) (use assms(2,4) in \<open>auto simp: popLayers_def delete_key_untracked dest: src\<close>)
  note [kern_intros] = kern_mono [OF this]
  show ?thesis unfolding Unmount_def Let_def by (intro kern_intros) auto
qed

text \<open>No target is a source.\<close>

definition apart :: "string set \<Rightarrow> bool" where
  "apart T \<longleftrightarrow> (\<forall>t\<in>T. \<not> ownSource t)"

lemma apart_sources: "apart T \<Longrightarrow> tableOk T b \<Longrightarrow> \<forall>src\<in>snd ` set b. src \<notin> T"
  by (auto simp: apart_def tableOk_def)

text \<open>
  (C13) The kernel's table follows the mounter's calls. A mount that succeeds leaves its source on
  top of the target; one that fails leaves there what was there, or what 32 detaches leave of it. An
  unmount that succeeds leaves nothing mounted at the target, however many layers rebinding has
  stacked there: with more than 32 it fails, forgets nothing, and leaves 32 fewer for the next
  attempt. Neither touches the mounts of any other target.
\<close>

theorem mount_table_follows:
  assumes "mount_law env T st" "apart T" "t \<in> T" "tableOk T (binds s)"
    "run_state (Mount env cfg st' sid t opts) s = (r, s1)" "run_state (Unmount env t) s = (u, s2)"
  shows "(r = None \<longrightarrow> (\<exists>rest. st (world s1) t = pathJoin [mountBaseDir, mountID t] # rest) \<and> map_of (binds s1) t = Some (pathJoin [mountBaseDir, mountID t]))
    \<and> (r \<noteq> None \<longrightarrow> st (world s1) t \<in> {st (world s) t, drop 32 (st (world s) t)} \<and> binds s1 = binds s)
    \<and> (u = None \<longrightarrow> st (world s2) t = [] \<and> map_of (binds s2) t = None)
    \<and> (u \<noteq> None \<longrightarrow> st (world s2) t = drop 32 (st (world s) t) \<and> binds s2 = binds s)
    \<and> (\<forall>p. p \<noteq> t \<longrightarrow> st (world s1) p = st (world s) p \<and> st (world s2) p = st (world s) p)"
proof -
  have "pathJoin [mountBaseDir, mountID t] \<notin> T" using assms(2) ownNames(2) by (auto simp: apart_def)
  note k = kernD [OF kern_Mount [OF assms(1,3)] assms(5)]
    kernD [OF kern_Unmount [OF assms(1,3) apart_sources [OF assms(2,4)] this] assms(6)]
  then show ?thesis by (auto simp: mounted_def)
qed

section \<open>The background work\<close>

text \<open>Every mounted target is tracked, by a source that is no target itself.\<close>

definition noLeak :: "string set \<Rightarrow> (string, string) gomap \<Rightarrow> layers \<Rightarrow> bool" where
  "noLeak T b k \<longleftrightarrow> tableOk T b \<and> (\<forall>t. k t \<noteq> [] \<longrightarrow> t \<in> T \<and> map_of b t \<noteq> None)"

definition shallow :: "layers \<Rightarrow> bool" where
  "shallow k \<longleftrightarrow> (\<forall>t. length (k t) \<le> 32)"

lemma noLeak_le: "noLeak T b k \<Longrightarrow> (\<And>t. k' t \<noteq> [] \<Longrightarrow> k t \<noteq> []) \<Longrightarrow> noLeak T b k'"
  by (simp add: noLeak_def)

lemma noLeak_pop: "noLeak T b k \<Longrightarrow> noLeak T b (popLayers T p k)" "shallow k \<Longrightarrow> shallow (popLayers T p k)"
  "noLeak T b k \<Longrightarrow> noLeak T b (k(p := drop 32 (k p)))"
  by (erule noLeak_le, auto simp: popLayers_def split: if_splits)
     (auto simp: popLayers_def shallow_def intro: le_trans [OF diff_le_self], erule noLeak_le, auto split: if_splits)

lemma noLeak_grow: "noLeak T b k \<Longrightarrow> tableOk T b' \<Longrightarrow> (\<And>t. map_of b t \<noteq> None \<Longrightarrow> map_of b' t \<noteq> None) \<Longrightarrow> noLeak T b' k"
  by (auto simp: noLeak_def)

lemma noLeak_delete: "noLeak T b k \<Longrightarrow> k t = [] \<Longrightarrow> noLeak T (delete_key t b) k"
  by (auto simp: noLeak_def tableOk_simps)

text \<open>With at most 32 layers everywhere, a target that is detached is free and may be forgotten.\<close>

definition tidy :: "string set \<Rightarrow> (string, string) gomap \<Rightarrow> layers \<Rightarrow> bool" where
  "tidy T b k \<longleftrightarrow> noLeak T b k \<and> shallow k"

lemma tidy_simps:
  "tidy T b k \<Longrightarrow> noLeak T b k" "tidy T b k \<Longrightarrow> tidy T b (popLayers T p k)"
  "tidy T b k \<Longrightarrow> k t = [] \<Longrightarrow> tidy T (delete_key t b) k" "tidy T b k \<Longrightarrow> p \<notin> T \<Longrightarrow> k p = []"
  by (auto simp: tidy_def noLeak_pop noLeak_delete) (auto simp: noLeak_def)

lemma tidy_drop:
  assumes "tidy T b k" "p \<in> T \<longrightarrow> popLayers T p k p = []"
  shows "tidy T (delete_key p b) (popLayers T p k)"
  using tidy_simps(2) [OF assms(1)] assms(2) tidy_simps(3,4) by metis

lemma kern_dropRefs [kern_intros]:
  assumes "mount_law env T st" "tidy T b k" "\<And>r b' k'. tidy T b' k' \<Longrightarrow> Q r b' k'"
  shows "kern st (dropRefs env live refs) Q b k"
  using assms(2,3)
proof (induction refs arbitrary: b k Q)
  case Nil
  then show ?case by (auto intro: kern_return)
next
  case (Cons ref refs)
  have check: "kern st (ask (isMountPoint env ref)) Q' b k"
    if "\<And>mp. (ref \<in> T \<and> \<not> fst mp \<and> (snd mp = None \<or> snd mp = Some ENOENT) \<longrightarrow> k ref = []) \<Longrightarrow> Q' mp b k" for Q' b k
    by (rule kern_ask) (use mount_lawD(6,7) [OF assms(1)] that in metis)
  show ?case
    unfolding dropRefs.simps Let_def
    apply (intro kern_cases(1) kern_bind kern_unmountAll [OF assms(1)] check kern_vars kern_return Cons.IH Cons.prems
        tidy_drop tidy_simps(2))
    by (use Cons.prems in auto)
qed

lemma kern_unmountTargets:
  assumes "mount_law env T st" "shallow k" "Q () b (\<lambda>p. if p \<in> set ts \<inter> T then [] else k p)"
  shows "kern st (unmountTargets env ts) Q b k"
  using assms(2,3)
proof (induction ts arbitrary: k Q)
  case Nil
  then show ?case by (auto intro!: kern_return)
next
  case (Cons p ts)
  have pop: "popLayers T p k = (\<lambda>q. if q = p \<and> p \<in> T then [] else k q)"
    using Cons.prems by (auto simp: popLayers_def shallow_def fun_eq_iff)
  have "(\<lambda>q. if q \<in> set ts \<inter> T then [] else popLayers T p k q) = (\<lambda>q. if q \<in> set (p # ts) \<inter> T then [] else k q)"
    by (auto simp: pop fun_eq_iff)
  then show ?case
    unfolding unmountTargets.simps
    by (intro kern_intros kern_unmountAll [OF assms(1)] Cons.IH noLeak_pop Cons.prems(1)) (use Cons.prems(2) in simp)
qed

text \<open>Releasing a source forgets its targets, and frees them all.\<close>

lemma tidy_release:
  assumes "tidy T b k"
  shows "tidy T (fold delete_key (targetsOfSource src b) b) (\<lambda>p. if p \<in> set (targetsOfSource src b) \<inter> T then [] else k p)"
proof -
  have "map_of (fold delete_key ts b) t = (if t \<in> set ts then None else map_of b t)" for t ts
    by (induction ts arbitrary: b) auto
  then show ?thesis using assms by (auto simp: tidy_def noLeak_def shallow_def tableOk_simps)
qed

lemma kern_releaseSource:
  assumes "mount_law env T st" "tidy T b k" "src \<notin> T" "\<And>b' k'. tidy T b' k' \<Longrightarrow> Q () b' k'"
  shows "kern st (releaseSource env src) Q b k"
proof -
  have "popLayers T src k = k" using assms(3) by (simp add: popLayers_def)
  moreover have "shallow k" using assms(2) by (simp add: tidy_def)
  ultimately show ?thesis
    unfolding releaseSource_def Let_def
    by (intro kern_intros kern_unmountAll [OF assms(1)] kern_unmountTargets [OF assms(1)] keeps_law(15) [OF assms(1)]
        assms(4) tidy_release) (use assms(2) in simp_all)
qed

lemma kern_cleanupSource:
  assumes "mount_law env T st" "tidy T b k" "src \<notin> T" "\<And>b' k'. tidy T b' k' \<Longrightarrow> Q () b' k'"
  shows "kern st (cleanupSource env cfg src) Q b k"
  unfolding cleanupSource_def dropDeadPodRefs_def listLivePodUIDsOnNode_def Let_def
  by (intro kern_intros kern_dropRefs [OF assms(1)] kern_releaseSource [OF assms(1)] keeps_law(7,8) [OF assms(1)])
     (use assms(2-4) in auto)

text \<open>Rebinding, healing and adoption only add to the stacks of tracked targets, or track more.\<close>

lemma noLeak_stacked:
  assumes "noLeak T b k" "map_of b t \<noteq> None" "stacked src t r k k'"
  shows "noLeak T b k'"
proof -
  have "t \<in> T" using assms(1,2) by (auto simp: noLeak_def tableOk_def dest: map_of_SomeD)
  with assms show ?thesis by (auto simp: noLeak_def stacked_def split: if_splits)
qed

lemma kern_rebindLoop:
  assumes "mount_law env T st" "noLeak T b k" "\<And>k'. noLeak T b k' \<Longrightarrow> Q () b k'"
  shows "kern st (rebindLoop env src ts) Q b k"
  using assms(2,3)
proof (induction ts arbitrary: k Q)
  case Nil
  then show ?case by (auto intro!: kern_return)
next
  case (Cons t ts)
  have t: "t \<in> T" if "map_of b t = Some src"
    using Cons.prems(1) that by (auto simp: noLeak_def tableOk_def dest: map_of_SomeD)
  show ?case
    unfolding rebindLoop.simps
    by (intro kern_intros keeps_law(12) [OF assms(1)] Cons.IH Cons.prems kern_stackBind [OF assms(1)])
       (use Cons.prems t in \<open>auto intro: noLeak_stacked\<close>)
qed

lemma kern_rebindTargets:
  assumes "mount_law env T st" "noLeak T b k" "\<And>b' k'. noLeak T b' k' \<Longrightarrow> Q () b' k'"
  shows "kern st (rebindTargets env src) Q b k"
  unfolding rebindTargets_def
  by (intro kern_intros kern_waits [OF assms(1)] kern_rebindLoop [OF assms(1)]) (use assms(2,3) in auto)

lemma kern_tryHealSource:
  assumes "mount_law env T st" "noLeak T b k" "\<And>b' k'. noLeak T b' k' \<Longrightarrow> Q () b' k'"
  shows "kern st (tryHealSource env cfg src) Q b k"
proof -
  have "kern st (recreatePod env pod name src stale) Q' b k" if "\<And>b' k'. noLeak T b' k' \<Longrightarrow> Q' () b' k'" for pod name stale Q'
    unfolding recreatePod_def
    by (intro kern_intros kern_waits [OF assms(1)] kern_rebindTargets [OF assms(1)] keeps_law [OF assms(1)])
       (use that assms(2) in auto)
  then show ?thesis
    unfolding tryHealSource_def Let_def
    by (intro kern_intros keeps_law [OF assms(1)] kern_rebindTargets [OF assms(1)]
        table.stable_client [OF keeps_law(1) [OF assms(1)]]) (use assms(2,3) in auto)
qed

lemma map_of_adopted:
  "map_of b t \<noteq> None \<Longrightarrow> map_of (fold (\<lambda>ref. put_key ref src) refs b) t \<noteq> None"
  "map_of b t \<noteq> None \<Longrightarrow> map_of (fst (foldl (adoptRef src) (b, xs) refs)) t \<noteq> None"
proof -
  show "map_of b t \<noteq> None \<Longrightarrow> map_of (fold (\<lambda>ref. put_key ref src) refs b) t \<noteq> None"
    by (induction refs arbitrary: b) auto
  show "map_of b t \<noteq> None \<Longrightarrow> map_of (fst (foldl (adoptRef src) (b, xs) refs)) t \<noteq> None"
    by (induction refs arbitrary: b xs) (auto simp: adoptRef_def)
qed

lemma kern_registerRestored:
  assumes "mount_law env T st" "Q () b k"
  shows "kern st (registerRestored env c refs) Q b k"
  using assms(2)
  by (induction refs)
     (auto simp: Let_def intro!: kern_intros table.stable_client [OF keeps_law(1) [OF assms(1)]])

lemma kern_lateAdopt:
  assumes "mount_law env T st" "trusted env T" "ownSource src" "noLeak T b k" "\<And>b' k'. noLeak T b' k' \<Longrightarrow> Q () b' k'"
  shows "kern st (lateAdopt env src) Q b k"
proof -
  have "noLeak T (fst (foldl (adoptRef src) (b, []) refs)) k"
    if "run_state (getMountRefs env src) w = (Inr refs, w')" for refs w w'
  proof (rule noLeak_grow [OF assms(4)])
    show "tableOk T (fst (foldl (adoptRef src) (b, []) refs))"
      using tableOk_folds(2) [OF _ assms(3) trustedD(5) [OF assms(2,3) that]] assms(4) by (auto simp: noLeak_def)
  qed (rule map_of_adopted)
  then show ?thesis
    unfolding lateAdopt_def Let_def
    by (intro kern_intros kern_waits [OF assms(1)] keeps_law(8) [OF assms(1)] kern_registerRestored [OF assms(1)])
       (use assms(4,5) in auto)
qed

lemma kern_retryRefs:
  assumes "mount_law env T st" "trusted env T" "ownSource src" "\<And>refs. set refs \<subseteq> insert src T \<Longrightarrow> Q refs b k"
  shows "kern st (retryRefs env src n) Q b k"
  using trustedD(5) [OF assms(2,3)] assms(4)
  by (induction n) (auto intro!: kern_intros keeps_law(8) [OF assms(1)])

lemma kern_crdTargets:
  assumes "mount_law env T st" "\<And>w. w \<in> set ws \<Longrightarrow> asString (wField w ''targetPath'') \<in> insert [] T"
    "\<And>ts. set ts \<subseteq> T \<Longrightarrow> Q ts b k"
  shows "kern st (crdTargets env ws) Q b k"
  using assms(2,3)
proof (induction ws arbitrary: Q)
  case (Cons w ws)
  then show ?case
    unfolding crdTargets.simps Let_def
    by (intro kern_intros Cons.IH keeps_law(10) [OF assms(1)]) (use Cons.prems(1) [of w] in auto)
qed (auto intro: kern_return)

lemma kern_adoptSource:
  assumes "mount_law env T st" "trusted env T" "ownSource src" "noLeak T b k" "\<And>b' k'. noLeak T b' k' \<Longrightarrow> Q () b' k'"
  shows "kern st (adoptSource env src) Q b k"
proof -
  have "noLeak T (fold (\<lambda>ref. put_key ref src) (filter (\<lambda>ref. ref \<noteq> src) refs @ ts) b) k"
    if "set refs \<subseteq> insert src T" "set ts \<subseteq> T" for refs ts
  proof (rule noLeak_grow [OF assms(4)])
    show "tableOk T (fold (\<lambda>ref. put_key ref src) (filter (\<lambda>ref. ref \<noteq> src) refs @ ts) b)"
      by (rule tableOk_folds(1) [OF _ assms(3)]) (use that assms(4) in \<open>auto simp: noLeak_def\<close>)
  qed (rule map_of_adopted)
  from this this [of _ "[]"] show ?thesis
    unfolding adoptSource_def
    by (intro kern_intros kern_retryRefs [OF assms(1-3)] kern_crdTargets [OF assms(1)]
        table.stable_client [OF keeps_law(1) [OF assms(1)]])
       (use assms(5) trustedD(3) [OF assms(2)] in auto)
qed

lemma kern_Recover:
  assumes "mount_law env T st" "trusted env T" "apart T" "noLeak T b k" "\<And>r b' k'. noLeak T b' k' \<Longrightarrow> Q r b' k'"
  shows "kern st (Recover env cfg) Q b k"
proof -
  have pod: "kern st (recoverPod env p) Q' b k"
    if "ownPod p" "noLeak T b k" "\<And>b' k'. noLeak T b' k' \<Longrightarrow> Q' () b' k'" for p Q' b k
  proof -
    have "src \<notin> T" if "ownSource src" for src using that assms(3) by (auto simp: apart_def)
    then show ?thesis
      unfolding recoverPod_def Let_def
      by (intro kern_intros kern_waits [OF assms(1)] kern_adoptSource [OF assms(1,2)] keeps_law [OF assms(1)])
         (use that in \<open>auto simp: ownPod_def\<close>)
  qed
  have pods: "kern st (recoverPods env ps) Q' b k"
    if "list_all ownPod ps" "noLeak T b k" "\<And>b' k'. noLeak T b' k' \<Longrightarrow> Q' () b' k'" for ps Q' b k
    using that by (induction ps arbitrary: b k) (auto intro!: kern_return kern_bind pod)
  show ?thesis
    unfolding Recover_def
    by (intro kern_intros pods keeps_law(6) [OF assms(1)]) (use assms(4,5) trustedD(1) [OF assms(2)] in auto)
qed

lemma kern_periodicTick:
  assumes "mount_law env T st" "trusted env T" "apart T" "tidy T b k" "\<And>b' k'. noLeak T b' k' \<Longrightarrow> Q () b' k'"
  shows "kern st (periodicTick env cfg) Q b k"
proof -
  have src: "src \<notin> T" if "ownSource src" for src using that assms(3) by (auto simp: apart_def)
  have entries: "kern st (scanEntries env cfg pods es) Q' b k"
    if "\<And>e. e \<in> set es \<Longrightarrow> plain_comp (fst e)" "tidy T b k" "\<And>b' k'. tidy T b' k' \<Longrightarrow> Q' () b' k'" for pods es Q' b k
    using that
  proof (induction es arbitrary: b k)
    case (Cons e es)
    have "kern st (scanEntry env cfg pods e) Q1 b k" if "\<And>b' k'. tidy T b' k' \<Longrightarrow> Q1 () b' k'" for Q1
      unfolding scanEntry_def Let_def
      by (intro kern_intros kern_cleanupSource [OF assms(1)] keeps_law(14) [OF assms(1)])
         (use that Cons.prems(1) [of e] Cons.prems(2) src in auto)
    then show ?case unfolding scanEntries.simps by (intro kern_bind) (use Cons in auto)
  qed (auto intro: kern_return)
  have stale: "kern st (staleCRDs env live os) Q' b k" if "list_all ownObj os" "Q' () b k" for live os Q' b k
    using that
  proof (induction os)
    case (Cons obj os)
    have "kern st (staleCRD env live obj) Q1 b k" if "Q1 () b k" for Q1
      unfolding staleCRD_def Let_def
      by (intro kern_intros keeps_law [OF assms(1)] table.stable_client [OF keeps_law(1) [OF assms(1)]])
         (use that Cons.prems(1) src in \<open>auto simp: ownObj_def\<close>)
    then show ?case unfolding staleCRDs.simps by (intro kern_bind) (use Cons in auto)
  qed (auto intro: kern_return)
  show ?thesis
    unfolding periodicTick_def runCleanupScan_def cleanupStaleCRDs_def crd_list_def listLivePodUIDsOnNode_def Let_def
    by (intro kern_intros entries stale keeps_law [OF assms(1)])
       (use assms(4,5) tidy_simps(1) trustedD(2,4) [OF assms(2)] in auto)
qed

lemma kern_requests:
  assumes "mount_law env T st" "apart T" "t \<in> T" "noLeak T b k"
  shows "kern st (Mount env cfg st' sid t opts) (\<lambda>_. noLeak T) b k" "kern st (Unmount env t) (\<lambda>_. noLeak T) b k"
proof -
  have ok: "tableOk T b" using assms(4) by (simp add: noLeak_def)
  have "pathJoin [mountBaseDir, mountID t] \<notin> T" using assms(2) ownNames(2) by (auto simp: apart_def)
  note unmount = kern_Unmount [OF assms(1,3) apart_sources [OF assms(2) ok] this]
  have tracked: "k t = [] \<or> (\<exists>src. map_of b t = Some src)" using assms(4) by (auto simp: noLeak_def)
  show "kern st (Mount env cfg st' sid t opts) (\<lambda>_. noLeak T) b k"
    by (rule kern_mono [OF kern_Mount [OF assms(1,3)]])
       (use assms(3,4) ok tracked in \<open>auto simp: noLeak_def mounted_def tableOk_simps split: if_splits\<close>)
  show "kern st (Unmount env t) (\<lambda>_. noLeak T) b k"
    by (rule kern_mono [OF unmount])
       (use assms(3,4) ok tracked in \<open>auto simp: noLeak_def tableOk_simps split: if_splits\<close>)
qed

section \<open>Nothing is lost\<close>

lemma kern_runTask:
  assumes "mount_law env T st" "trusted env T" "apart T" "ownSource (taskSource t)" "tidy T b k"
  shows "kern st (runTask env cfg t) (\<lambda>_. noLeak T) b k"
proof -
  have "src \<notin> T" if "ownSource src" for src using that assms(3) by (auto simp: apart_def)
  with assms tidy_simps(1) [OF assms(5)] tidy_simps(1) show ?thesis
    by (cases t)
       (auto simp: runTask_def intro!: kern_tryHealSource kern_rebindTargets kern_cleanupSource kern_lateAdopt)
qed

lemma kern_discard: "kern st m (\<lambda>_. P) b k \<Longrightarrow> kern st (discard m) (\<lambda>_. P) b k"
  unfolding discard_def by (intro kern_bind) (auto elim!: kern_mono intro: kern_return)

lemma kern_informer:
  assumes "mount_law env T st" "apart T" "tidy T b k"
  shows "kern st (onAdd obj) (\<lambda>_. noLeak T) b k" "kern st (onUpdate oldObj obj) (\<lambda>_. noLeak T) b k"
    "ownDelivered obj \<Longrightarrow> kern st (onDelete env cfg obj) (\<lambda>_. noLeak T) b k"
proof -
  note k = tidy_simps(1) [OF assms(3)]
  have src: "src \<notin> T" if "ownSource src" for src using that assms(2) by (auto simp: apart_def)
  have add: "kern st (podAdded p) (\<lambda>_. noLeak T) b k" for p :: "'b pod"
    unfolding podAdded_def Let_def by (intro kern_intros) (use k in auto)
  have upd: "kern st (handlePodUpdate q p) (\<lambda>_. noLeak T) b k" for p q :: "'b pod"
    unfolding handlePodUpdate_def Let_def by (intro kern_intros) (use k in auto)
  have del: "kern st (handlePodDelete env cfg p) (\<lambda>_. noLeak T) b k" if "ownPod p" for p :: "'b pod"
    unfolding handlePodDelete_def Let_def
    by (intro kern_intros kern_cleanupSource [OF assms(1,3)]) (use that k src tidy_simps(1) in \<open>auto simp: ownPod_def\<close>)
  show "kern st (onAdd obj) (\<lambda>_. noLeak T) b k" "kern st (onUpdate oldObj obj) (\<lambda>_. noLeak T) b k"
    "ownDelivered obj \<Longrightarrow> kern st (onDelete env cfg obj) (\<lambda>_. noLeak T) b k"
    by (auto simp: onAdd_def onUpdate_def onDelete_def split: cacheObj.splits intro: add upd del kern_return k)
qed

lemma kern_runOp:
  assumes "mount_law env T st" "trusted env T" "apart T" "allowed T op" "tidy T b k"
  shows "kern st (runOp env cfg op) (\<lambda>_. noLeak T) b k"
proof -
  note k = tidy_simps(1) [OF assms(5)]
  show ?thesis
    using assms(4) k
    by (cases op)
       (auto simp: runOp_def allowed_def intro!: kern_discard kern_requests [OF assms(1,3)] kern_Recover [OF assms(1-3)]
         kern_periodicTick [OF assms(1-3,5)] kern_informer [OF assms(1,3,5)] kern_waits [OF assms(1)])
qed

text \<open>
  The steps of the mounter between two restarts, as long as no target has more than the 32 layers
  that one detach takes: requests, informer events, ticks, recovery, the goroutines they start,
  and changes outside that leave the targets alone.
\<close>

inductive liveStep :: "('w \<Rightarrow> layers) \<Rightarrow> ('w, 'q) env \<Rightarrow> 'q pmConfig \<Rightarrow> string set \<Rightarrow> 'w pmSystem \<Rightarrow> 'w pmSystem \<Rightarrow> bool"
  for st env cfg T where
  operation: "shallow (st (world (pmState x))) \<Longrightarrow> allowed T op \<Longrightarrow> run_state (runOp env cfg op) (pmState x) = (u, s') \<Longrightarrow>
    liveStep st env cfg T x \<lparr>pmState = s', tasks = tasks x @ spawned (newEvents (pmState x) s')\<rparr>"
| task: "shallow (st (world (pmState x))) \<Longrightarrow> t \<in> set (tasks x) \<Longrightarrow> run_state (runTask env cfg t) (pmState x) = (u, s') \<Longrightarrow>
    liveStep st env cfg T x \<lparr>pmState = s', tasks = remove1 t (tasks x) @ spawned (newEvents (pmState x) s')\<rparr>"
| outside: "st w = st (world (pmState x)) \<Longrightarrow> liveStep st env cfg T x (x\<lparr>pmState := (pmState x)\<lparr>world := w\<rparr>\<rparr>)"

lemma liveStep_pmStep: "liveStep st env cfg T x y \<Longrightarrow> pmStep env cfg T x y"
  by (induction rule: liveStep.induct) (auto intro: pmStep.intros)

lemma noLeak_step:
  assumes "liveStep st env cfg T x y" "mount_law env T st" "trusted env T" "apart T" "pmInv T x"
    "noLeak T (binds (pmState x)) (st (world (pmState x)))"
  shows "noLeak T (binds (pmState y)) (st (world (pmState y)))"
  using assms
proof (induction rule: liveStep.induct)
  case (operation x op u s')
  then have "tidy T (binds (pmState x)) (st (world (pmState x)))" by (simp add: tidy_def)
  from kernD [OF kern_runOp [OF operation(4-6,2) this] operation(3)] show ?case by simp
next
  case (task x t u s')
  then have t: "tidy T (binds (pmState x)) (st (world (pmState x)))" "ownSource (taskSource t)"
    by (simp_all add: tidy_def pmInv_def list_all_iff)
  from kernD [OF kern_runTask [OF task(4-6) t(2,1)] task(3)] show ?case by simp
qed simp

text \<open>
  (C12) Nothing is lost. Start the mounter where each mounted target is tracked, as on an empty node
  or after recovery. In every state that requests, informer events, goroutines, cleanup ticks and
  recovery reach from there in any order, whatever fails, every target with a mount in the kernel
  is still in the table, with a source of the mounter's, so that an unmount, a rebind or a cleanup
  of its source will still find it; as long as rebinding has stacked at most 32 layers at a target.
\<close>

theorem mounted_is_tracked:
  assumes "mount_law env T st" "trusted env T" "apart T" "pmInv T x"
    "\<forall>t. st (world (pmState x)) t \<noteq> [] \<longrightarrow> t \<in> T \<and> map_of (binds (pmState x)) t \<noteq> None"
    "(liveStep st env cfg T)\<^sup>*\<^sup>* x y" "st (world (pmState y)) t \<noteq> []"
  shows "\<exists>src. map_of (binds (pmState y)) t = Some src \<and> ownSource src"
proof -
  from assms(6) have "pmInv T y \<and> noLeak T (binds (pmState y)) (st (world (pmState y)))"
  proof (induction rule: rtranclp_induct)
    case base
    show ?case using assms(4,5) by (simp add: noLeak_def pmInv_def)
  next
    case (step y z)
    show ?case
      using noLeak_step [OF step(2) assms(1-3)] pmInv_step [OF liveStep_pmStep [OF step(2)] assms(2)] step(3) by blast
  qed
  with assms(7) show ?thesis using tableOk_simps(5) by (fastforce simp: noLeak_def)
qed

section \<open>Instances\<close>

text \<open>A world that is the kernel's table, where everything succeeds that the table permits.\<close>

definition tableCrd :: "layers crdApi" where
  "tableCrd =
     \<lparr>crdCreate = (\<lambda>_. State_Monad.return None), crdGet = (\<lambda>n. State_Monad.return (Inr sampleObj)),
      crdUpdate = (\<lambda>_. State_Monad.return None), crdUpdateStatus = (\<lambda>_. State_Monad.return None),
      crdDelete = (\<lambda>_. State_Monad.return None), crdList = (\<lambda>_. State_Monad.return (Inr [])),
      timeNow = State_Monad.return 0\<rparr>"

definition tableEnv :: "(layers, nat) env" where
  "tableEnv =
     \<lparr>crd = tableCrd,
      podCreate = (\<lambda>_. State_Monad.return None), podGet = (\<lambda>_. State_Monad.return (Inr (phasePod PodRunning))),
      podDelete = (\<lambda>_. State_Monad.return None), podList = (\<lambda>_. State_Monad.return (Inr [])),
      nodePodList = (\<lambda>_. State_Monad.return (Inr [])),
      isMountPoint = (\<lambda>p. State (\<lambda>w. ((p \<noteq> sampleTarget \<or> w p \<noteq> [], None), w))),
      isCorruptedMnt = (\<lambda>e. e = ENOTCONN), getMountRefs = (\<lambda>_. State_Monad.return (Inr [])),
      fuseUnmount = (\<lambda>p. State (\<lambda>w. if w p = [] then (Some EINVAL, w) else (None, w(p := tl (w p))))),
      bindMount = (\<lambda>src t. State (\<lambda>w. (None, w(t := src # w t)))),
      mkdirAll = (\<lambda>_. State_Monad.return None),
      removePath = (\<lambda>p. State (\<lambda>w. (if w p = [] then None else Some EINVAL, w))),
      statPath = (\<lambda>_. State_Monad.return None), readDirEntries = (\<lambda>_. State_Monad.return (Inr [])),
      selfMountinfo = State_Monad.return None, ticks = State_Monad.return 0\<rparr>"

definition tableBelow :: "layers \<Rightarrow> layers" where
  "tableBelow w = (\<lambda>p. if p = sampleTarget then w p else [])"

lemma tableBelow_upd: "tableBelow (w(p := v)) = (if p = sampleTarget then (tableBelow w)(p := v) else tableBelow w)"
  "tableBelow w sampleTarget = w sampleTarget"
  by (auto simp: tableBelow_def fun_eq_iff)

lemma keeps_constant: "keeps st (State_Monad.return x)" by (rule table.stable_return)

lemma table_laws: "mount_law tableEnv {sampleTarget} tableBelow"
proof -
  have "stack_law tableEnv {sampleTarget} tableBelow"
    by (auto simp: stack_law_def tableEnv_def tableBelow_upd split: if_splits)
  moreover have "bare_law tableEnv {sampleTarget} tableBelow"
    by (auto simp: bare_law_def tableEnv_def tableBelow_upd split: if_splits)
  moreover have "quiet_law tableEnv tableBelow"
    by (auto simp: quiet_law_def tableEnv_def tableCrd_def table.stableCrd_def keeps_constant)
  ultimately show ?thesis by (simp add: mount_law_def)
qed

lemma table_apart: "apart {sampleTarget}"
  by (simp add: apart_def ownSource_def sampleTarget_def podsPrefix_def mountBaseDir_def)

lemma table_trusted: "trusted tableEnv {sampleTarget}"
proof -
  have "workloadsOf (objSpec sampleObj) = []" by (simp add: sampleObj_def workloadsOf_def specAt_def)
  then show ?thesis by (auto simp: trusted_def tableEnv_def tableCrd_def crd_get_def)
qed

lemma addWorkload_table: "run_state (addWorkload tableCrd n u t) w = (None, w)"
  by (simp add: addWorkload_def retryOnConflict_def numeral_eq_Suc tableCrd_def run_bind sampleObj_def
      workloadsOf_def specAt_def setWorkloads_def)

lemma Mount_table_ok:
  "fst (run_state (Mount tableEnv sampleCfg ''bucket'' ''o/d'' sampleTarget sampleOptions) s) = None"
proof -
  have "buildArgs ''bucket'' ''o/d'' (''/mnt/hf/'' @ mountID sampleTarget) sampleOptions \<noteq> Inl e" for e
    by (simp add: buildArgs_error_iff)
  then obtain args where args: "buildArgs ''bucket'' ''o/d'' (''/mnt/hf/'' @ mountID sampleTarget) sampleOptions = Inr args"
    by (metis sum.exhaust)
  have "pathJoin [mountBaseDir, mountID sampleTarget] \<noteq> sampleTarget"
    using table_apart ownNames(2) [of sampleTarget] by (auto simp: apart_def simp del: ownNames)
  then show ?thesis
    unfolding Mount_def Let_def args
    by (simp add: quiet_simps addWorkload_table [unfolded tableCrd_def] tableEnv_def tableCrd_def crd_create_def mountBody_def ensurePod_def
        waitForPodRunning.simps waitForMount.simps stackBind_def crd_updateStatus_def mountCleanup_def)
qed

definition tablePm :: "layers pm" where
  "tablePm = \<lparr>vars = [], world = (\<lambda>_. []), log = []\<rparr>"

lemma Mount_table:
  obtains s1 where
    "run_state (Mount tableEnv sampleCfg ''bucket'' ''o/d'' sampleTarget sampleOptions) tablePm = (None, s1)"
    "tableBelow (world s1) sampleTarget \<noteq> []"
    "map_of (binds s1) sampleTarget = Some (pathJoin [mountBaseDir, mountID sampleTarget])" "tableOk {sampleTarget} (binds s1)"
proof -
  obtain s1 where r: "run_state (Mount tableEnv sampleCfg ''bucket'' ''o/d'' sampleTarget sampleOptions) tablePm = (None, s1)"
    using Mount_table_ok by (metis prod.collapse)
  have "tableOk {sampleTarget} [(sampleTarget, pathJoin [mountBaseDir, mountID sampleTarget])]"
    by (simp add: tableOk_def)
  with kernD [OF kern_Mount [OF table_laws] r] that r show ?thesis
    by (auto simp: mounted_def tablePm_def)
qed

lemma unmountAll_table:
  assumes "length (world s p) \<le> 1"
  shows "\<exists>evs. run_state (unmountAll tableEnv p) s = ((), s\<lparr>world := (world s)(p := []), log := log s @ evs\<rparr>)"
proof -
  have "(32 :: nat) = Suc (Suc 30)" by simp
  moreover have "world s p = [] \<or> (\<exists>x. world s p = [x])" using assms by (cases "world s p") auto
  ultimately show ?thesis
    unfolding unmountAll_def
    by (auto simp only: unmountLoop.simps) (auto simp: tableEnv_def quiet_simps fun_upd_idem intro!: exI)
qed

definition boundPm :: "layers pm" where
  "boundPm = \<lparr>vars = [(sampleTarget, sampleSource)], world = (\<lambda>_. [])(sampleTarget := [sampleSource]), log = []\<rparr>"

lemma Unmount_table_ok: "fst (run_state (Unmount tableEnv sampleTarget) boundPm) = None"
proof -
  have remove: "removePath tableEnv p = State (\<lambda>w. (if w p = [] then None else Some EINVAL, w))"
    "crd tableEnv = tableCrd" for p by (simp_all add: tableEnv_def)
  let ?s = "boundPm\<lparr>log := [LockSource sampleSource]\<rparr>"
  obtain evs where u: "run_state (unmountAll tableEnv sampleTarget) ?s = ((), ?s\<lparr>world := (\<lambda>_. []), log := log ?s @ evs\<rparr>)"
    using unmountAll_table [of ?s sampleTarget] by (auto simp: boundPm_def fun_upd_idem)
  have "fst (run_state (unmountLocked tableEnv sampleTarget) ?s) = None"
    unfolding unmountLocked_def run_bind u Let_def
    by (simp add: boundPm_def run_bind call_def ask_def note_ev_def getVars_def setVars_def remove case_prod_beta)
  then show ?thesis
    by (simp add: Unmount_def run_bind getVars_def note_ev_def boundPm_def case_prod_beta)
qed

text \<open>Mounting again over a mount, and unmounting it.\<close>

theorem mount_table_follows_witness:
  "(\<exists>s1 rest. run_state (Mount tableEnv sampleCfg ''bucket'' ''o/d'' sampleTarget sampleOptions) boundPm = (None, s1)
      \<and> tableBelow (world s1) sampleTarget = pathJoin [mountBaseDir, mountID sampleTarget] # rest)
    \<and> (\<exists>s2. run_state (Unmount tableEnv sampleTarget) boundPm = (None, s2) \<and> tableBelow (world s2) sampleTarget = [])"
proof -
  obtain s1 where 1: "run_state (Mount tableEnv sampleCfg ''bucket'' ''o/d'' sampleTarget sampleOptions) boundPm = (None, s1)"
    using Mount_table_ok by (metis prod.collapse)
  obtain s2 where 2: "run_state (Unmount tableEnv sampleTarget) boundPm = (None, s2)"
    using Unmount_table_ok by (metis prod.collapse)
  have "tableOk {sampleTarget} (binds boundPm)" using sampleSource_own by (simp add: boundPm_def tableOk_def)
  from mount_table_follows [OF table_laws table_apart _ this 1 2] 1 2 show ?thesis by auto
qed

text \<open>An empty node, after the first mount.\<close>

theorem mounted_is_tracked_witness:
  "\<exists>y. (liveStep tableBelow tableEnv sampleCfg {sampleTarget})\<^sup>*\<^sup>* \<lparr>pmState = tablePm, tasks = []\<rparr> y
    \<and> tableBelow (world (pmState y)) sampleTarget \<noteq> []
    \<and> (\<exists>src. map_of (binds (pmState y)) sampleTarget = Some src \<and> ownSource src)"
proof -
  let ?x = "\<lparr>pmState = tablePm, tasks = []\<rparr>"
  obtain s1 where 1: "run_state (Mount tableEnv sampleCfg ''bucket'' ''o/d'' sampleTarget sampleOptions) tablePm = (None, s1)"
    "tableBelow (world s1) sampleTarget \<noteq> []"
    using Mount_table by metis
  let ?y = "\<lparr>pmState = s1, tasks = tasks ?x @ spawned (newEvents (pmState ?x) s1)\<rparr>"
  have empty: "tableBelow (world tablePm) t = []" for t by (simp add: tablePm_def tableBelow_def)
  have "liveStep tableBelow tableEnv sampleCfg {sampleTarget} ?x ?y"
    by (rule liveStep.operation [of _ _ _ "MountOp ''bucket'' ''o/d'' sampleTarget sampleOptions"])
       (simp_all add: empty shallow_def allowed_def runOp_def discard_def run_bind 1)
  then have step: "(liveStep tableBelow tableEnv sampleCfg {sampleTarget})\<^sup>*\<^sup>* ?x ?y" by (rule r_into_rtranclp)
  have "pmInv {sampleTarget} ?x" by (simp add: pmInv_def tablePm_def tableOk_simps)
  from mounted_is_tracked [OF table_laws table_trusted table_apart this _ step, of sampleTarget] 1(2) step empty
  show ?thesis by auto
qed

end
