(* ===== verification/Spec2Isabelle.thy ===== *)
theory Spec2Isabelle
  imports Sweeper Webhook Source_Locks Node_Pods Cleanup_Proofs Vol_Data Startup_Taint Access_Mode Driver_Process HFMount_Schema Handoff_System Sidecar_Contract Fd_Channel Process_Main
    Pod_System Mount_Liveness Kernel_Mounts
begin

text \<open>
  A model of the Hugging Face CSI driver (\<open>cmd/hf-csi-driver\<close>, \<open>pkg/driver\<close>, \<open>pkg/util\<close> and
  \<open>pkg/webhook\<close>) and the theorems that make it correct.

  The program. The driver runs on every node of a Kubernetes cluster. Kubelet asks its node
  service to publish a volume, a bucket or a repository of the Hub, at a target path. In sidecar
  mode the driver itself makes the FUSE mount and hands the descriptor over a socket to a
  container that an admission webhook has injected into the workload. In mount-pod mode the pod
  mounter creates a pod that serves the mount, records it in an HFMount object of the API server,
  and binds the source of the mount to the target. In the background the pod mounter reacts to
  its pods, heals sources whose pod died, adopts binds after a restart and cleans up what nobody
  uses; a sweeper aborts FUSE connections whose daemon is gone; a reconciler repairs volume
  directories that block kubelet; and a task lifts the startup taint of the node.

  Theories and what they model, in the order of the code.
  \<^item> \<open>Prelude\<close>, \<open>Effects\<close>: Go maps as association lists, and programs with effects. A
    component runs in the state monad over \<open>sys\<close>: its own variables, the unknown world, and a log
    of the calls made. Every call outside is a field of a record of functions with arbitrary
    answers, so a theorem holds for every behaviour of the kernel, the file system and the API
    server. \<open>eff\<close> is a backward calculus over such programs; its rules are collected in
    \<open>eff_intros\<close> and \<open>newEvents\<close> is what a run has added to the log.
  \<^item> \<open>Go_Strings\<close>, \<open>Go_Paths\<close>, \<open>Go_Time\<close>, \<open>Sha256\<close>: what the program uses of Go's
    standard library (strings, UTF-8, paths, URL escaping, RFC 3339 times, SHA-256 on words).
  \<^item> \<open>Mountinfo\<close>: \<open>fuse_mountinfo.go\<close> and the mount table part of \<open>mount_linux.go\<close>.
  \<^item> \<open>Naming\<close>: identifiers and paths of \<open>podmounter.go\<close>, \<open>node.go\<close> and
    \<open>sidecar_mounter_linux.go\<close>.
  \<^item> \<open>Resources\<close>, \<open>Mount_Args\<close>: \<open>resources.go\<close>, \<open>mounter.go\<close>. Quantities are a
    parameter with the stated laws of comparison and printing.
  \<^item> \<open>Kube_Types\<close>: the fields in use of the Kubernetes objects.
  \<^item> \<open>HFMount\<close>: \<open>hfmount.go\<close>, the client of the HFMount object with its retries on conflicts.
  \<^item> \<open>Source_Locks\<close>: \<open>acquireSourceLock\<close> and \<open>releaseSourceLock\<close> of \<open>podmounter.go\<close> as an
    inductive step relation of any number of goroutines.
  \<^item> \<open>Pod_Mounter\<close>: mount, unmount, health and their waits (\<open>podmounter.go\<close>).
    \<open>Pod_Cleanup\<close>: the background work of the same file; \<open>Cleanup_Proofs\<close>: its theorems.
  \<^item> \<open>Sweeper\<close>: \<open>fuse_sweeper.go\<close> and \<open>fuse_sweeper_linux.go\<close>.
  \<^item> \<open>Sidecar\<close>: \<open>sidecar_mounter_linux.go\<close>, \<open>unmount_linux.go\<close> and the sending half of
    \<open>fdchannel.go\<close>; \<open>Sidecar_Handoff\<close>: its theorems.
  \<^item> \<open>Node\<close>: the node service (\<open>node.go\<close>) over any mounter; \<open>Node_Proofs\<close>: its theorems.
  \<^item> \<open>Node_Pods\<close>: \<open>NewDriver\<close> and the composition of \<open>runNode\<close>, the node service on the pod
    mounter; the two share one kernel, and the variables of the mounter are part of the world of
    the service.
  \<^item> \<open>Webhook\<close>: \<open>handler.go\<close> and \<open>sidecar.go\<close>. \<open>Access_Mode\<close>: webhook against driver.
  \<^item> \<open>Vol_Data\<close>: \<open>voldata_reconciler.go\<close> with the JSON encoder.
  \<^item> \<open>Startup_Taint\<close>: \<open>startup_taint.go\<close>.
  \<^item> \<open>Driver_Process\<close>: \<open>ParseEndpoint\<close>, \<open>Run\<close> and \<open>Stop\<close> of \<open>driver.go\<close>, \<open>runNode\<close> of
    \<open>main.go\<close>. \<open>Process_Main\<close>: \<open>main\<close> and \<open>runWebhook\<close> over the values of the flags, and the
    constant answers of \<open>identity.go\<close>, \<open>controller.go\<close> and \<open>node.go\<close>.
  \<^item> \<open>Fd_Channel\<close>: \<open>SendMsg\<close> and \<open>RecvMsg\<close> of \<open>fdchannel.go\<close>, with the bytes of the control
    message.
  \<^item> \<open>Pod_Watch\<close>: the constructor, the informer's handlers and the periodic loop of
    \<open>podmounter.go\<close>.

  Components together.
  \<^item> \<open>HFMount_Schema\<close>: what the driver writes against the schema of the custom resource.
  \<^item> \<open>Handoff_System\<close>: handoffs, their marks and the sweeper. \<open>Sidecar_Contract\<close>: the mounts
    that the webhook tells the sidecar to expect against those the driver hands over.
  \<^item> \<open>Pod_System\<close>: all of the pod mounter as one transition system, with restarts and an
    outside that changes at will, and an invariant of its reachable states.
  \<^item> \<open>World_Order\<close>: what calls do to the outside up to a preorder; \<open>Mount_Liveness\<close> and
    \<open>Kernel_Mounts\<close> use it for progress that is not lost, and for the kernel's table of
    mounts, which only binds and unmounts change.

  Interfaces as locales. The contract of a mounter is stated twice: \<open>mounter_contract\<close> for what
  is tracked and \<open>tracked_mounter\<close> for the table of binds below the node service; both are
  interpreted on the pod mounter. \<open>workload_register\<close> in \<open>HFMount\<close> is the contract of the registered
  workloads. \<open>world_order\<close> states what the client of the HFMount object preserves whenever its
  six requests do; it is interpreted with a rank for liveness and with the table of mounts.
\<close>

text \<open>
  What the theorems show.
  \<^item> Nothing in use is torn down: the sweeper aborts a connection exactly under its stated
    conditions, and never the one of a live daemon, in either mode; the cleanup keeps a source with a
    reference that may be in use; recovery and rebinding detach nothing that is healthy; the
    scans delete only what was seen to be unused.
  \<^item> Nothing is lost or leaked: the HFMount object is written before the pod exists and no
    registration of a workload is lost to a conflict; binds are recorded exactly when a mount
    succeeds and forgotten exactly when an unmount does, also through the node service; between two
    restarts every mounted target stays in the table of binds, whatever runs and fails; every
    descriptor of a sidecar mount is closed once; a failed mount takes back what it made.
  \<^item> Isolation: tokens and control files stay inside their directories, the writable handoff
    directory is only opened without following links, the reconciler writes only into volumes
    that a pod has of this driver, and in all its reachable states the pod mounter has touched
    nothing but its own pods, objects and sources and known targets.
  \<^item> Agreement: the healed pod is the pod that was created, the sweeper's history is the
    abstract one, the scan of the webhook equals its specification, webhook and driver agree on
    the access mode and on what the sidecar waits for, the objects written have the types of the
    schema, the announced mount group is honoured, the kernel's table follows the mounter's calls,
    and built resources respect the limits of the user.
  \<^item> Progress: a goroutine that waits for a source lock can always get on, repeated mounts
    succeed once the outside cooperates, and the startup taint is removed once it settles.
  Some theorems describe behaviour that deserves attention: a failed list of mount pods makes the
  scan release a healthy source that has no binds, a stop before the server is set is lost, and
  an opaque endpoint is accepted with an empty address.

  Bounds and fuel. The loops with a bound in the code keep it: five attempts on a conflict, 32
  detached layers of a stack, 15 or 30 polls for a mount, three reads of the references, 300
  seconds for the sidecar to connect, 32 descriptors. A wait until a deadline takes the number of
  its ticks from the outside (\<open>ticks\<close>), so the theorems hold for any deadline. The two loops of
  the startup taint poll for ever in the code and take the number of polls as fuel; \<open>None\<close>
  means still polling, and \<open>T + 1\<close> polls are enough when the outside settles at \<open>T\<close>. The
  reconciler takes the number of ticks before it is stopped.

  Concurrency. Source locks are modelled step by step; the operations that hold one are single
  programs whose log begins with the lock and ends with the unlock, and the world may change
  arbitrarily at every call. A \<open>go\<close> statement is an event; the task is a program of its own. In
  \<open>Pod_System\<close> such a program is one step: operations on one source exclude each other by its
  lock, those on different sources meet only in the table of binds, whose mutex is not held
  across calls, and interleavings inside an operation are not distinguished.

  Not modelled. Log messages; the parsing of the flags; the registration with gRPC, the manager
  of the webhook server, the informer and its cache, tickers and signal delivery, which are
  library code that calls the modelled handlers; the stubs for other platforms. The kubelet,
  the API server, the FUSE daemon and the Kubernetes libraries are the outside: what is needed
  of them is a stated hypothesis of the theorem that needs it, with a witness that it can hold.
\<close>

end
